(* ===== verification/Prelude.thy ===== *)
theory Prelude
  imports Main
begin

text \<open>
  Shared vocabulary of the development: the JavaScript values the application passes
  between the form library, its handlers and the document store (\<open>jsv\<close>), the
  JavaScript exceptions it can raise, the string helpers that model \<open>String(n)\<close>,
  \<open>padStart\<close> and \<open>split(sep)[0]\<close>, and the lemmas on floor division of integers
  that the calendar arithmetic of \<open>JSDate\<close> rests on.
\<close>

named_theorems cal_simps "closed-form rules of the ECMAScript calendar arithmetic"
named_theorems handler_simps "unfolding rules of the application's handlers"

type_synonym time_value = int
  \<comment> \<open>an ECMAScript time value: milliseconds since 1970-01-01T00:00:00Z\<close>

type_synonym doc_id = nat
  \<comment> \<open>a document identifier of the store (opaque, non-empty, hence truthy)\<close>

section \<open>JavaScript exceptions and values\<close>

datatype js_error = RangeError | TypeError

text \<open>
  The values that reach the form fields and the store: \<open>undefined\<close>, strings, and
  plain objects (an association list of properties, in insertion order). Numbers and
  dates are kept in typed fields of the records that hold them.
\<close>

datatype jsv = JUndef | JStr string | JObj "(string \<times> jsv) list"

text \<open>Property access \<open>v.k\<close>: a missing property, and any property of a string, is \<open>undefined\<close>.\<close>

fun get_prop :: "jsv \<Rightarrow> string \<Rightarrow> jsv" where
  "get_prop (JObj ps) k = (case map_of ps k of Some v \<Rightarrow> v | None \<Rightarrow> JUndef)"
| "get_prop _ k = JUndef"

text \<open>\<open>v.k\<close> as evaluated: reading a property of \<open>undefined\<close> throws a \<open>TypeError\<close>.\<close>

definition js_get :: "jsv \<Rightarrow> string \<Rightarrow> js_error + jsv" where
  "js_get v k = (if v = JUndef then Inl TypeError else Inr (get_prop v k))"

text \<open>\<open>ToBoolean\<close>: \<open>undefined\<close> and the empty string are falsy, every object is truthy.\<close>

fun truthy :: "jsv \<Rightarrow> bool" where
  "truthy JUndef = False"
| "truthy (JStr s) = (s \<noteq> [])"
| "truthy (JObj _) = True"

text \<open>Whether \<open>undefined\<close> occurs anywhere in a value (the store refuses such values).\<close>

fun has_undef :: "jsv \<Rightarrow> bool"
  and has_undef_props :: "(string \<times> jsv) list \<Rightarrow> bool" where
  "has_undef JUndef = True"
| "has_undef (JStr _) = False"
| "has_undef (JObj ps) = has_undef_props ps"
| "has_undef_props [] = False"
| "has_undef_props ((k, v) # ps) = (has_undef v \<or> has_undef_props ps)"

text \<open>A select option \<open>{ value: v, label: l }\<close> as the application and react-select build it.\<close>

definition sel_option :: "jsv \<Rightarrow> jsv \<Rightarrow> jsv" where
  "sel_option v l = JObj [(''value'', v), (''label'', l)]"

section \<open>Strings\<close>

definition digit_char :: "nat \<Rightarrow> char" where
  "digit_char n = ''0123456789'' ! n"

text \<open>\<open>String(n)\<close> for a non-negative integer.\<close>

fun nat_str :: "nat \<Rightarrow> string" where
  "nat_str n = (if n < 10 then [digit_char n] else nat_str (n div 10) @ [digit_char (n mod 10)])"

declare nat_str.simps [simp del]

text \<open>\<open>s.padStart(n, ''0'')\<close>.\<close>

definition pad_zeros :: "nat \<Rightarrow> string \<Rightarrow> string" where
  "pad_zeros n s = replicate (n - length s) (CHR ''0'') @ s"

text \<open>\<open>s.split(c)[0]\<close> for a one-character separator: the text before the first \<open>c\<close>.\<close>

definition split_first :: "char \<Rightarrow> string \<Rightarrow> string" where
  "split_first c s = takeWhile (\<lambda>x. x \<noteq> c) s"

definition decimal_digits :: "char set" where
  "decimal_digits = set ''0123456789''"

section \<open>Lemmas on values and strings\<close>

lemma get_prop_sel_option [simp]:
  "get_prop (sel_option v l) ''value'' = v"
  "get_prop (sel_option v l) ''label'' = l"
  by (simp_all add: sel_option_def)

lemma truthy_sel_option [simp]: "truthy (sel_option v l)"
  by (simp add: sel_option_def)

lemma has_undef_sel_option [simp]:
  "has_undef (sel_option v l) \<longleftrightarrow> has_undef v \<or> has_undef l"
  by (simp add: sel_option_def)

lemma digit_char_mem: "n < 10 \<Longrightarrow> digit_char n \<in> decimal_digits"
  unfolding digit_char_def decimal_digits_def by (rule nth_mem) simp

lemma nat_str_digits: "set (nat_str n) \<subseteq> decimal_digits"
proof (induction n rule: nat_str.induct)
  case (1 n)
  show ?case
  proof (cases "n < 10")
    case True
    then show ?thesis by (subst nat_str.simps) (simp add: digit_char_mem)
  next
    case False
    with "1" have "set (nat_str (n div 10)) \<subseteq> decimal_digits" by simp
    with False show ?thesis by (subst nat_str.simps) (simp add: digit_char_mem)
  qed
qed

lemma pad_zeros_digits:
  "set s \<subseteq> decimal_digits \<Longrightarrow> set (pad_zeros n s) \<subseteq> decimal_digits"
  unfolding pad_zeros_def by (auto simp: decimal_digits_def)

lemma split_first_append:
  "c \<notin> set s \<Longrightarrow> split_first c (s @ c # t) = s"
  unfolding split_first_def by (induction s) auto

lemma pad_nat_str_digits: "set (pad_zeros k (nat_str n)) \<subseteq> decimal_digits"
  by (rule pad_zeros_digits[OF nat_str_digits])

section \<open>Floor division on integers\<close>

text \<open>
  ECMAScript's \<open>floor(a / b)\<close> and \<open>a modulo b\<close> for \<open>b > 0\<close> are HOL's \<open>div\<close> and
  \<open>mod\<close> on \<open>int\<close>. The calendar proofs use them through these bounds.
\<close>

lemma floor_div_lower: "0 < (b::int) \<Longrightarrow> b * (a div b) \<le> a"
  by (metis div_mult_mod_eq le_add_same_cancel1 mult.commute pos_mod_sign)

lemma floor_div_upper: "0 < (b::int) \<Longrightarrow> a < b * (a div b) + b"
  by (metis div_mult_mod_eq add_less_cancel_left mult.commute pos_mod_bound)

lemma int_div_eqI:
  assumes "0 < (b::int)" "b * q \<le> a" "a < b * q + b"
  shows "a div b = q"
proof -
  have "a div b = q + (a - b * q) div b"
    using div_mult_self1[of b "a - b * q" q] assms(1) by simp
  moreover have "(a - b * q) div b = 0"
    using assms by simp
  ultimately show ?thesis by simp
qed

lemma int_mod_eqI:
  assumes "0 < (b::int)" "b * q \<le> a" "a < b * q + b"
  shows "a mod b = a - b * q"
proof -
  have "a mod b = a - b * (a div b)"
    by (simp add: minus_div_mult_eq_mod [symmetric] algebra_simps)
  then show ?thesis using int_div_eqI[OF assms] by simp
qed

lemma div_mult_add_int: "0 < (b::int) \<Longrightarrow> (b * n + r) div b = n + r div b"
  by (simp add: add.commute mult.commute)

lemma mod_mult_add_int: "0 < (b::int) \<Longrightarrow> (b * n + r) mod b = r mod b"
  by (simp add: add.commute mult.commute)

lemma div_Suc_int:
  assumes "0 < (b::int)"
  shows "(x + 1) div b = x div b + (if b dvd (x + 1) then 1 else 0)"
proof (cases "b dvd (x + 1)")
  case True
  then obtain k where k: "x + 1 = b * k" by blast
  have "x div b = k - 1"
    using assms k by (intro int_div_eqI) (simp_all add: algebra_simps)
  with True k assms show ?thesis by simp
next
  case False
  have l: "b * (x div b) \<le> x" and u: "x < b * (x div b) + b"
    using assms by (simp_all add: floor_div_lower floor_div_upper)
  have "x + 1 \<noteq> b * (x div b) + b"
  proof
    assume "x + 1 = b * (x div b) + b"
    then have "x + 1 = b * (x div b + 1)" by (simp add: algebra_simps)
    with False show False by simp
  qed
  with u have "x + 1 < b * (x div b) + b" by linarith
  with l assms have "(x + 1) div b = x div b"
    by (intro int_div_eqI) simp_all
  with False show ?thesis by simp
qed

lemma dvd_shift_int: "(b::int) dvd (x + k * b) \<longleftrightarrow> b dvd x"
  by simp

lemma mult_le_iff_le_div_int:
  assumes "0 < (b::int)"
  shows "b * a \<le> t \<longleftrightarrow> a \<le> t div b"
proof
  assume "b * a \<le> t"
  show "a \<le> t div b"
  proof (rule ccontr)
    assume "\<not> a \<le> t div b"
    then have "t div b + 1 \<le> a" by simp
    then have "b * (t div b + 1) \<le> b * a" using assms by (simp add: mult_left_mono)
    with \<open>b * a \<le> t\<close> floor_div_upper[OF assms, of t] show False
      by (simp add: algebra_simps)
  qed
next
  assume "a \<le> t div b"
  then have "b * a \<le> b * (t div b)" using assms by (simp add: mult_left_mono)
  with floor_div_lower[OF assms, of t] show "b * a \<le> t" by simp
qed

end
