(* ===== verification/JSDate.thy ===== *)
theory JSDate
  imports Prelude
begin

text \<open>
  The ECMAScript \<open>Date\<close> built-in as the application uses it (ECMA-262, section
  "Date Objects"): the abstract operations on time values (\<open>Day\<close>, \<open>YearFromTime\<close>,
  \<open>MonthFromTime\<close>, \<open>DateFromTime\<close>, \<open>MakeDay\<close>, \<open>MakeDate\<close>, \<open>TimeClip\<close>,
  \<open>LocalTime\<close>, \<open>UTC\<close>) and the four members the code calls: the constructor
  \<open>new Date(year, month, day)\<close>, \<open>setSeconds\<close>, the local getters and
  \<open>toISOString\<close>. This is platform semantics, not code of the repository; it is
  modelled from the standard so that the application's date handling can be checked.

  A time value that is \<open>NaN\<close> (an invalid date) is \<open>None\<close>. The local time zone is a
  fixed offset \<open>tz\<close> in milliseconds (\<open>LocalTZA\<close>, positive east of UTC); daylight
  saving changes are not modelled.
\<close>

section \<open>Days and years\<close>

definition msPerDay :: int where
  "msPerDay = 86400000"

definition Day :: "time_value \<Rightarrow> int" where
  "Day t = t div msPerDay"

definition TimeWithinDay :: "time_value \<Rightarrow> int" where
  "TimeWithinDay t = t mod msPerDay"

definition DaysInYear :: "int \<Rightarrow> int" where
  "DaysInYear y = (if y mod 4 \<noteq> 0 then 365 else if y mod 100 \<noteq> 0 then 366
                   else if y mod 400 \<noteq> 0 then 365 else 366)"

definition DayFromYear :: "int \<Rightarrow> int" where
  "DayFromYear y = 365 * (y - 1970) + (y - 1969) div 4 - (y - 1901) div 100 + (y - 1601) div 400"

definition TimeFromYear :: "int \<Rightarrow> time_value" where
  "TimeFromYear y = msPerDay * DayFromYear y"

text \<open>
  The standard defines \<open>YearFromTime t\<close> as the largest \<open>y\<close> with
  \<open>TimeFromYear y \<le> t\<close>. It is computed here from the mean year length
  (146097 days in 400 years) and one correction step; \<open>YearFromTime_Greatest\<close>
  below proves that this is the standard's definition.
\<close>

definition year_from_day :: "int \<Rightarrow> int" where
  "year_from_day d =
     (let y0 = 1970 + (400 * d) div 146097 in
      if DayFromYear (y0 + 1) \<le> d then y0 + 1 else if DayFromYear y0 \<le> d then y0 else y0 - 1)"

definition YearFromTime :: "time_value \<Rightarrow> int" where
  "YearFromTime t = year_from_day (Day t)"

definition leap_of :: "int \<Rightarrow> int" where
  "leap_of y = (if DaysInYear y = 366 then 1 else 0)"

definition InLeapYear :: "time_value \<Rightarrow> int" where
  "InLeapYear t = leap_of (YearFromTime t)"

definition DayWithinYear :: "time_value \<Rightarrow> int" where
  "DayWithinYear t = Day t - DayFromYear (YearFromTime t)"

section \<open>Months and dates\<close>

text \<open>The first day (within the year) of month \<open>m\<close>, \<open>0 \<le> m \<le> 12\<close>; \<open>L\<close> is \<open>InLeapYear\<close>.\<close>

definition month_start :: "int \<Rightarrow> int \<Rightarrow> int" where
  "month_start L m =
     (if m \<le> 0 then 0 else if m = 1 then 31 else if m = 2 then 59 + L
      else if m = 3 then 90 + L else if m = 4 then 120 + L else if m = 5 then 151 + L
      else if m = 6 then 181 + L else if m = 7 then 212 + L else if m = 8 then 243 + L
      else if m = 9 then 273 + L else if m = 10 then 304 + L else if m = 11 then 334 + L
      else 365 + L)"

text \<open>The table of \<open>MonthFromTime\<close>, one line of the standard per branch.\<close>

definition month_of_dwy :: "int \<Rightarrow> int \<Rightarrow> int" where
  "month_of_dwy L d =
     (if d < 31 then 0 else if d < 59 + L then 1 else if d < 90 + L then 2
      else if d < 120 + L then 3 else if d < 151 + L then 4 else if d < 181 + L then 5
      else if d < 212 + L then 6 else if d < 243 + L then 7 else if d < 273 + L then 8
      else if d < 304 + L then 9 else if d < 334 + L then 10 else 11)"

definition MonthFromTime :: "time_value \<Rightarrow> int" where
  "MonthFromTime t = month_of_dwy (InLeapYear t) (DayWithinYear t)"

definition DateFromTime :: "time_value \<Rightarrow> int" where
  "DateFromTime t = DayWithinYear t - month_start (InLeapYear t) (MonthFromTime t) + 1"

section \<open>Hours, minutes, seconds\<close>

definition HourFromTime :: "time_value \<Rightarrow> int" where
  "HourFromTime t = (t div 3600000) mod 24"

definition MinFromTime :: "time_value \<Rightarrow> int" where
  "MinFromTime t = (t div 60000) mod 60"

definition SecFromTime :: "time_value \<Rightarrow> int" where
  "SecFromTime t = (t div 1000) mod 60"

definition msFromTime :: "time_value \<Rightarrow> int" where
  "msFromTime t = t mod 1000"

section \<open>Constructing time values\<close>

definition MakeTime :: "int \<Rightarrow> int \<Rightarrow> int \<Rightarrow> int \<Rightarrow> int" where
  "MakeTime h m s ms = h * 3600000 + m * 60000 + s * 1000 + ms"

text \<open>
  \<open>MakeDay(year, month, date)\<close>: the month may lie outside 0..11 and the date outside
  the month; both carry over, as in the standard. The standard finds the first day of
  month \<open>mn\<close> of year \<open>ym\<close> by search; \<open>MakeDay_first_day\<close> proves that the
  closed form below is that day.
\<close>

definition MakeDay :: "int \<Rightarrow> int \<Rightarrow> int \<Rightarrow> int" where
  "MakeDay year month date =
     (let ym = year + month div 12; mn = month mod 12
      in DayFromYear ym + month_start (leap_of ym) mn + date - 1)"

definition MakeDate :: "int \<Rightarrow> int \<Rightarrow> time_value" where
  "MakeDate day time = day * msPerDay + time"

definition TimeClip :: "time_value \<Rightarrow> time_value option" where
  "TimeClip t = (if \<bar>t\<bar> > 8640000000000000 then None else Some t)"

definition MakeFullYear :: "int \<Rightarrow> int" where
  "MakeFullYear y = (if 0 \<le> y \<and> y \<le> 99 then 1900 + y else y)"

section \<open>Local time\<close>

definition LocalTime :: "int \<Rightarrow> time_value \<Rightarrow> time_value" where
  "LocalTime tz t = t + tz"

definition UTC :: "int \<Rightarrow> time_value \<Rightarrow> time_value" where
  "UTC tz t = t - tz"

section \<open>The members of Date the application calls\<close>

text \<open>\<open>new Date(year, monthIndex, day)\<close>: local midnight of that calendar day.\<close>

definition Date_ymd :: "int \<Rightarrow> int \<Rightarrow> int \<Rightarrow> int \<Rightarrow> time_value option" where
  "Date_ymd tz year month day =
     TimeClip (UTC tz (MakeDate (MakeDay (MakeFullYear year) month day) (MakeTime 0 0 0 0)))"

text \<open>\<open>date.setSeconds(sec)\<close>: replaces the seconds field of the local time.\<close>

definition Date_setSeconds :: "int \<Rightarrow> time_value option \<Rightarrow> int \<Rightarrow> time_value option" where
  "Date_setSeconds tz tv sec =
     (case tv of None \<Rightarrow> None
      | Some tv0 \<Rightarrow>
          (let t = LocalTime tz tv0
           in TimeClip (UTC tz (MakeDate (Day t)
                 (MakeTime (HourFromTime t) (MinFromTime t) sec (msFromTime t))))))"

definition Date_getFullYear :: "int \<Rightarrow> time_value option \<Rightarrow> int option" where
  "Date_getFullYear tz tv = map_option (\<lambda>t. YearFromTime (LocalTime tz t)) tv"

definition Date_getMonth :: "int \<Rightarrow> time_value option \<Rightarrow> int option" where
  "Date_getMonth tz tv = map_option (\<lambda>t. MonthFromTime (LocalTime tz t)) tv"

definition Date_getDate :: "int \<Rightarrow> time_value option \<Rightarrow> int option" where
  "Date_getDate tz tv = map_option (\<lambda>t. DateFromTime (LocalTime tz t)) tv"

text \<open>
  \<open>toISOString\<close>: \<open>YYYY-MM-DDTHH:mm:ss.sssZ\<close> in UTC; years outside 0..9999 take a sign
  and six digits; an invalid date throws a \<open>RangeError\<close>.
\<close>

definition iso_year :: "int \<Rightarrow> string" where
  "iso_year y =
     (if 0 \<le> y \<and> y \<le> 9999 then pad_zeros 4 (nat_str (nat y))
      else (if y < 0 then ''-'' else ''+'') @ pad_zeros 6 (nat_str (nat \<bar>y\<bar>)))"

definition two_digits :: "int \<Rightarrow> string" where
  "two_digits v = pad_zeros 2 (nat_str (nat v))"

definition iso_date :: "time_value \<Rightarrow> string" where
  "iso_date t = iso_year (YearFromTime t) @ ''-'' @ two_digits (MonthFromTime t + 1)
                @ ''-'' @ two_digits (DateFromTime t)"

definition iso_time :: "time_value \<Rightarrow> string" where
  "iso_time t = two_digits (HourFromTime t) @ '':'' @ two_digits (MinFromTime t) @ '':''
                @ two_digits (SecFromTime t) @ ''.'' @ pad_zeros 3 (nat_str (nat (msFromTime t))) @ ''Z''"

definition Date_toISOString :: "time_value option \<Rightarrow> js_error + string" where
  "Date_toISOString tv =
     (case tv of None \<Rightarrow> Inl RangeError | Some t \<Rightarrow> Inr (iso_date t @ ''T'' @ iso_time t))"

section \<open>Calendar of a valid date\<close>

text \<open>
  What a valid calendar date is (month 1..12, day within the month). The source does not
  define it; the theorems use it to say for which inputs the code's conversions are exact.
\<close>

definition days_in_month :: "int \<Rightarrow> int \<Rightarrow> int" where
  "days_in_month y m = month_start (leap_of y) m - month_start (leap_of y) (m - 1)"

definition valid_ymd :: "int \<Rightarrow> int \<Rightarrow> int \<Rightarrow> bool" where
  "valid_ymd y m d \<longleftrightarrow> 1 \<le> m \<and> m \<le> 12 \<and> 1 \<le> d \<and> d \<le> days_in_month y m"

text \<open>The calendar fields of a time value, as the UTC or local getters read them.\<close>

definition date_fields :: "time_value \<Rightarrow> int \<times> int \<times> int" where
  "date_fields t = (YearFromTime t, MonthFromTime t, DateFromTime t)"

section \<open>Lemmas: years\<close>

lemma DayFromYear_bounds:
  "146097 * y - 287811697 \<le> 400 * DayFromYear y"
  "400 * DayFromYear y \<le> 146097 * y - 287810497"
proof -
  define a where "a = y - 1970"
  define p where "p = (a + 1) div 4"
  define q where "q = (a + 69) div 100"
  define r where "r = (a + 369) div 400"
  have 1: "4 * p \<le> a + 1" "a + 1 < 4 * p + 4"
    unfolding p_def by (simp_all add: floor_div_lower floor_div_upper)
  have 2: "100 * q \<le> a + 69" "a + 69 < 100 * q + 100"
    unfolding q_def by (simp_all add: floor_div_lower floor_div_upper)
  have 3: "400 * r \<le> a + 369" "a + 369 < 400 * r + 400"
    unfolding r_def by (simp_all add: floor_div_lower floor_div_upper)
  have 4: "DayFromYear y = 365 * a + p - q + r"
    unfolding DayFromYear_def a_def p_def q_def r_def by (simp add: algebra_simps)
  have 5: "y = a + 1970" unfolding a_def by simp
  show "146097 * y - 287811697 \<le> 400 * DayFromYear y"
    using 1 2 3 4 5 by linarith
  show "400 * DayFromYear y \<le> 146097 * y - 287810497"
    using 1 2 3 4 5 by linarith
qed

lemma DayFromYear_Suc: "DayFromYear (y + 1) = DayFromYear y + DaysInYear y"
proof -
  have a: "(y + 1 - 1969) div 4 = (y - 1969) div 4 + (if 4 dvd y then 1 else 0)"
    using div_Suc_int[of 4 "y - 1969"] dvd_shift_int[of 4 y "-492"] by simp
  have b: "(y + 1 - 1901) div 100 = (y - 1901) div 100 + (if 100 dvd y then 1 else 0)"
    using div_Suc_int[of 100 "y - 1901"] dvd_shift_int[of 100 y "-19"] by simp
  have c: "(y + 1 - 1601) div 400 = (y - 1601) div 400 + (if 400 dvd y then 1 else 0)"
    using div_Suc_int[of 400 "y - 1601"] dvd_shift_int[of 400 y "-4"] by simp
  have d1: "400 dvd y \<Longrightarrow> 100 dvd y"
    using dvd_trans[of "100::int" 400 y] by simp
  have d2: "100 dvd y \<Longrightarrow> 4 dvd y"
    using dvd_trans[of "4::int" 100 y] by simp
  have e: "DayFromYear (y + 1) - DayFromYear y = 365 + (if 4 dvd y then 1 else 0)
           - (if 100 dvd y then 1 else 0) + (if 400 dvd y then 1 else 0)"
    unfolding DayFromYear_def a b c by simp
  have f: "DaysInYear y = (if \<not> 4 dvd y then 365 else if \<not> 100 dvd y then 366
                   else if \<not> 400 dvd y then 365 else 366)"
    unfolding DaysInYear_def by (simp add: dvd_eq_mod_eq_0)
  show ?thesis
    using e f d1 d2 by (simp split: if_splits)
qed

lemma leap_of_cases: "leap_of y = 0 \<or> leap_of y = 1"
  by (simp add: leap_of_def)

lemma DaysInYear_leap: "DaysInYear y = 365 + leap_of y"
  by (simp add: DaysInYear_def leap_of_def)

lemma DayFromYear_next: "DayFromYear (y + 1) = DayFromYear y + 365 + leap_of y"
  using DayFromYear_Suc DaysInYear_leap by simp

lemma DayFromYear_less_next: "DayFromYear y < DayFromYear (y + 1)"
  using DayFromYear_next leap_of_cases[of y] by auto

lemma DayFromYear_strict_mono:
  assumes "y < y'"
  shows "DayFromYear y < DayFromYear y'"
proof (cases "y' = y + 1")
  case True
  then show ?thesis by (simp add: DayFromYear_less_next)
next
  case False
  with assms have "y + 2 \<le> y'" by simp
  then show ?thesis
    using DayFromYear_bounds[of y] DayFromYear_bounds[of y'] by linarith
qed

lemma DayFromYear_mono: "y \<le> y' \<Longrightarrow> DayFromYear y \<le> DayFromYear y'"
  using DayFromYear_strict_mono[of y y'] by (cases "y = y'") simp_all

lemma year_from_day_bounds:
  "DayFromYear (year_from_day d) \<le> d \<and> d < DayFromYear (year_from_day d + 1)"
proof -
  define y0 where "y0 = 1970 + (400 * d) div 146097"
  have l: "146097 * ((400 * d) div 146097) \<le> 400 * d"
    by (simp add: floor_div_lower)
  have u: "400 * d < 146097 * ((400 * d) div 146097) + 146097"
    by (simp add: floor_div_upper)
  have b1: "400 * DayFromYear (y0 - 1) \<le> 146097 * ((400 * d) div 146097) - 145504"
    using DayFromYear_bounds(2)[of "y0 - 1"] unfolding y0_def by (simp add: algebra_simps)
  have b2: "146097 * ((400 * d) div 146097) + 291587 \<le> 400 * DayFromYear (y0 + 2)"
    using DayFromYear_bounds(1)[of "y0 + 2"] unfolding y0_def by (simp add: algebra_simps)
  have below: "DayFromYear (y0 - 1) \<le> d"
    using b1 l by linarith
  have above: "d < DayFromYear (y0 + 2)"
    using b2 u by linarith
  have yfd: "year_from_day d =
      (if DayFromYear (y0 + 1) \<le> d then y0 + 1 else if DayFromYear y0 \<le> d then y0 else y0 - 1)"
    unfolding year_from_day_def y0_def Let_def ..
  show ?thesis
    using below above unfolding yfd by (auto simp: add.assoc)
qed

lemma year_from_day_eqI:
  assumes "DayFromYear y \<le> d" "d < DayFromYear (y + 1)"
  shows "year_from_day d = y"
proof (rule ccontr)
  let ?z = "year_from_day d"
  assume ne: "?z \<noteq> y"
  have z: "DayFromYear ?z \<le> d" "d < DayFromYear (?z + 1)"
    using year_from_day_bounds[of d] by auto
  show False
  proof (cases "?z < y")
    case True
    then have "DayFromYear (?z + 1) \<le> DayFromYear y" by (simp add: DayFromYear_mono)
    with z assms show False by linarith
  next
    case False
    with ne have "y + 1 \<le> ?z" by simp
    then have "DayFromYear (y + 1) \<le> DayFromYear ?z" by (simp add: DayFromYear_mono)
    with z assms show False by linarith
  qed
qed

lemma TimeFromYear_le_iff: "TimeFromYear y \<le> t \<longleftrightarrow> DayFromYear y \<le> Day t"
  unfolding TimeFromYear_def Day_def by (rule mult_le_iff_le_div_int) (simp add: msPerDay_def)

text \<open>
  The closed-form year of a time value is the year ECMA-262 defines: the largest
  \<open>y\<close> whose first instant \<open>TimeFromYear y\<close> is not after the time value.
\<close>

theorem YearFromTime_Greatest: "YearFromTime t = (GREATEST y. TimeFromYear y \<le> t)"
proof (rule Greatest_equality[symmetric])
  show "TimeFromYear (YearFromTime t) \<le> t"
    using year_from_day_bounds[of "Day t"] by (simp add: TimeFromYear_le_iff YearFromTime_def)
next
  fix y assume "TimeFromYear y \<le> t"
  then have y: "DayFromYear y \<le> Day t" by (simp add: TimeFromYear_le_iff)
  show "y \<le> YearFromTime t"
  proof (rule ccontr)
    assume "\<not> y \<le> YearFromTime t"
    then have "DayFromYear (YearFromTime t + 1) \<le> DayFromYear y"
      by (simp add: DayFromYear_mono)
    with y year_from_day_bounds[of "Day t"] show False
      by (simp add: YearFromTime_def)
  qed
qed

lemma month_cases12:
  assumes "0 \<le> m" "m \<le> (11::int)"
  shows "m = 0 \<or> m = 1 \<or> m = 2 \<or> m = 3 \<or> m = 4 \<or> m = 5 \<or> m = 6 \<or> m = 7 \<or> m = 8
         \<or> m = 9 \<or> m = 10 \<or> m = 11"
  using assms by arith

lemma month_of_dwy_table:
  assumes "L = 0 \<or> L = 1" "0 \<le> m" "m \<le> 11" "0 \<le> k"
    "k < month_start L (m + 1) - month_start L m"
  shows "month_of_dwy L (month_start L m + k) = m"
  using month_cases12[OF assms(2,3)] assms(1,4,5)
  by (elim disjE) (auto simp: month_start_def month_of_dwy_def)

lemma month_start_range:
  assumes "L = 0 \<or> L = 1" "0 \<le> m" "m \<le> 11"
  shows "0 \<le> month_start L m" "month_start L m < month_start L (m + 1)"
    "month_start L (m + 1) \<le> 365 + L"
  using month_cases12[OF assms(2,3)] assms(1)
  by (elim disjE; auto simp: month_start_def)+

lemma Day_add: "0 \<le> r \<Longrightarrow> r < msPerDay \<Longrightarrow> Day (msPerDay * n + r) = n"
  unfolding Day_def by (simp add: div_mult_add_int msPerDay_def)

lemma fields_of_day:
  assumes v: "valid_ymd y m d" and r: "0 \<le> r" "r < msPerDay"
  shows "date_fields (msPerDay * (DayFromYear y + month_start (leap_of y) (m - 1) + d - 1) + r)
         = (y, m - 1, d)"
proof -
  let ?L = "leap_of y"
  let ?n = "DayFromYear y + month_start ?L (m - 1) + d - 1"
  let ?t = "msPerDay * ?n + r"
  have L: "?L = 0 \<or> ?L = 1" by (rule leap_of_cases)
  have m: "0 \<le> m - 1" "m - 1 \<le> 11" and d: "1 \<le> d"
    and dm: "d \<le> month_start ?L m - month_start ?L (m - 1)"
    using v by (simp_all add: valid_ymd_def days_in_month_def)
  note ms = month_start_range[OF L m]
  have day: "Day ?t = ?n" using r by (rule Day_add)
  have "DayFromYear y \<le> ?n" using ms(1) d by simp
  moreover have "?n < DayFromYear (y + 1)"
    using ms(2,3) dm DayFromYear_next[of y] by simp
  ultimately have year: "YearFromTime ?t = y"
    by (simp add: YearFromTime_def day year_from_day_eqI)
  have dwy: "DayWithinYear ?t = month_start ?L (m - 1) + (d - 1)"
    by (simp add: DayWithinYear_def day year)
  have month: "MonthFromTime ?t = m - 1"
    using month_of_dwy_table[OF L m, of "d - 1"] d dm
    by (simp add: MonthFromTime_def InLeapYear_def year dwy)
  have date: "DateFromTime ?t = d"
    by (simp add: DateFromTime_def InLeapYear_def year dwy month)
  show ?thesis by (simp add: date_fields_def year month date)
qed

lemma MakeDay_valid:
  assumes "1 \<le> m" "m \<le> 12"
  shows "MakeDay y (m - 1) d = DayFromYear y + month_start (leap_of y) (m - 1) + d - 1"
proof -
  have "(m - 1) div 12 = 0" "(m - 1) mod 12 = m - 1" using assms by simp_all
  then show ?thesis by (simp add: MakeDay_def)
qed

lemma days_in_month_pos:
  assumes "1 \<le> m" "m \<le> 12"
  shows "1 \<le> days_in_month y m"
  using month_start_range(2)[OF leap_of_cases, of "m - 1" y] assms
  by (simp add: days_in_month_def)

text \<open>
  \<open>MakeDay(ym, mn, 1)\<close> is the day the standard describes: the first day of month
  \<open>mn\<close> of year \<open>ym\<close>, i.e. the day whose year, month and date fields are
  \<open>ym\<close>, \<open>mn\<close> and 1.
\<close>

theorem MakeDay_first_day:
  assumes "0 \<le> mn" "mn \<le> 11"
  shows "date_fields (msPerDay * MakeDay ym mn 1) = (ym, mn, 1)"
proof -
  have v: "valid_ymd ym (mn + 1) 1"
    using days_in_month_pos[of "mn + 1" ym] assms by (simp add: valid_ymd_def)
  have "MakeDay ym mn 1 = DayFromYear ym + month_start (leap_of ym) mn + 1 - 1"
    using MakeDay_valid[of "mn + 1" ym 1] assms by simp
  then show ?thesis
    using fields_of_day[OF v, of 0] by (simp add: msPerDay_def)
qed


lemma MakeDay_overflow:
  assumes "1 \<le> m" "m \<le> 12"
  shows "MakeDay y (m - 1) d = MakeDay y m (d - days_in_month y m)"
proof (cases "m = 12")
  case True
  have "MakeDay y m (d - days_in_month y m) = DayFromYear (y + 1) + d - days_in_month y 12 - 1"
    using True by (simp add: MakeDay_def month_start_def)
  also have "\<dots> = DayFromYear y + month_start (leap_of y) 11 + d - 1"
    by (simp add: DayFromYear_next days_in_month_def month_start_def)
  finally show ?thesis using True MakeDay_valid[of 12 y d] by simp
next
  case False
  with assms have "m div 12 = 0" "m mod 12 = m" by simp_all
  then show ?thesis
    using MakeDay_valid[OF assms, of y d] by (simp add: MakeDay_def days_in_month_def)
qed

lemma iso_year_chars: "set (iso_year y) \<subseteq> insert (CHR ''-'') (insert (CHR ''+'') decimal_digits)"
  unfolding iso_year_def using pad_nat_str_digits by (simp split: if_splits) blast

lemma two_digits_chars: "set (two_digits v) \<subseteq> decimal_digits"
  unfolding two_digits_def by (rule pad_zeros_digits[OF nat_str_digits])

lemma T_notin_iso_date: "CHR ''T'' \<notin> set (iso_date t)"
proof -
  have "CHR ''T'' \<notin> decimal_digits" by (simp add: decimal_digits_def)
  then show ?thesis
    using iso_year_chars[of "YearFromTime t"] two_digits_chars[of "MonthFromTime t + 1"]
      two_digits_chars[of "DateFromTime t"]
    unfolding iso_date_def by auto
qed

lemma toISOString_date_part:
  "Date_toISOString (Some t) = Inr s \<Longrightarrow> split_first CHR ''T'' s = iso_date t"
  unfolding Date_toISOString_def using split_first_append[OF T_notin_iso_date] by auto

lemma month_of_dwy_range: "0 \<le> month_of_dwy L d \<and> month_of_dwy L d \<le> 11"
  by (simp add: month_of_dwy_def)

lemma MonthFromTime_range: "0 \<le> MonthFromTime t \<and> MonthFromTime t \<le> 11"
  by (simp add: MonthFromTime_def month_of_dwy_range)

text \<open>The inverse round trip: the day rebuilt from a time value's calendar fields is its day.\<close>

lemma MakeDay_fields: "MakeDay (YearFromTime t) (MonthFromTime t) (DateFromTime t) = Day t"
proof -
  have "MonthFromTime t div 12 = 0" "MonthFromTime t mod 12 = MonthFromTime t"
    using MonthFromTime_range[of t] by simp_all
  then show ?thesis
    by (simp add: MakeDay_def DateFromTime_def DayWithinYear_def InLeapYear_def)
qed

text \<open>
  Valid dates round-trip: a valid year, month (1..12) and day, made into a time
  value with \<open>MakeDate(MakeDay(y, m - 1, d), r)\<close> for any time within the day, reads
  back as the same year, zero-based month and day.
\<close>

theorem ymd_roundtrip:
  assumes "valid_ymd y m d" "0 \<le> r" "r < msPerDay"
  shows "date_fields (MakeDate (MakeDay y (m - 1) d) r) = (y, m - 1, d)"
proof -
  have "1 \<le> m" "m \<le> 12" using assms(1) by (simp_all add: valid_ymd_def)
  then show ?thesis
    using fields_of_day[OF assms] by (simp add: MakeDate_def MakeDay_valid algebra_simps)
qed

end
