(* ===== verification/Store.thy ===== *)
theory Store
  imports JSDate
begin

text \<open>
  The document store behind the application: the Firestore collection \<open>Users\<close>
  (\<open>getDocs\<close>, \<open>addDoc\<close>, \<open>setDoc\<close>, \<open>deleteDoc\<close>) as the code calls it. Firestore is
  an external service; this theory models its documented contract, not its code.

  The collection is an association list ordered by document id (\<open>getDocs\<close> returns
  documents in id order) and a counter that supplies fresh ids for \<open>addDoc\<close>. The
  abstract view is the map \<open>lookup st\<close>; the lemmas show that each operation keeps the
  list ordered and acts on the map as insertion, replacement or removal
  (\<open>setDoc\<close> replaces the whole document and creates it if the id is absent;
  \<open>deleteDoc\<close> of an absent id succeeds). A call the backend rejects is the error
  \<open>Unavailable\<close>; a payload with an \<open>undefined\<close> field or a date that cannot be
  converted is rejected locally with \<open>InvalidArgument\<close> before any call.
\<close>

record timestamp =
  ts_seconds :: int
  ts_nanos :: int

text \<open>A stored document of \<open>Users\<close>, with the field names of the source.\<close>

record user_doc =
  City :: jsv
  Country :: jsv
  DateOfBirth :: timestamp
  Name :: string

text \<open>What the code hands to \<open>addDoc\<close>/\<open>setDoc\<close>: a JavaScript object whose
  \<open>DateOfBirth\<close> is a \<open>Date\<close> (a time value, \<open>None\<close> if invalid).\<close>

record write_data =
  wd_City :: jsv
  wd_Country :: jsv
  wd_DateOfBirth :: "time_value option"
  wd_Name :: string

datatype store_error = Unavailable | InvalidArgument

record firestore =
  docs :: "(doc_id \<times> user_doc) list"
  next_id :: doc_id

text \<open>\<open>Timestamp.fromDate\<close>: whole seconds (floor) and the remaining nanoseconds; the
  seconds must lie in years 1..9999.\<close>

definition Timestamp_fromDate :: "time_value option \<Rightarrow> store_error + timestamp" where
  "Timestamp_fromDate tv =
     (case tv of None \<Rightarrow> Inl InvalidArgument
      | Some ms \<Rightarrow>
          (let s = ms div 1000
           in if s < -62135596800 \<or> 253402300800 \<le> s then Inl InvalidArgument
              else Inr \<lparr>ts_seconds = s, ts_nanos = (ms mod 1000) * 1000000\<rparr>))"

text \<open>The conversion of a payload into a document: \<open>undefined\<close> values are refused.\<close>

definition to_document :: "write_data \<Rightarrow> store_error + user_doc" where
  "to_document w =
     (if has_undef (wd_City w) \<or> has_undef (wd_Country w) then Inl InvalidArgument
      else (case Timestamp_fromDate (wd_DateOfBirth w) of
              Inl e \<Rightarrow> Inl e
            | Inr ts \<Rightarrow> Inr \<lparr>City = wd_City w, Country = wd_Country w,
                             DateOfBirth = ts, Name = wd_Name w\<rparr>))"

text \<open>Ordered insertion or replacement, and removal, in the id-ordered list.\<close>

fun upd_docs :: "doc_id \<Rightarrow> user_doc \<Rightarrow> (doc_id \<times> user_doc) list \<Rightarrow> (doc_id \<times> user_doc) list" where
  "upd_docs k d [] = [(k, d)]"
| "upd_docs k d ((k', d') # ps) =
     (if k < k' then (k, d) # (k', d') # ps
      else if k = k' then (k, d) # ps else (k', d') # upd_docs k d ps)"

fun del_docs :: "doc_id \<Rightarrow> (doc_id \<times> user_doc) list \<Rightarrow> (doc_id \<times> user_doc) list" where
  "del_docs k [] = []"
| "del_docs k ((k', d') # ps) = (if k = k' then ps else (k', d') # del_docs k ps)"

definition getDocs :: "bool \<Rightarrow> firestore \<Rightarrow> store_error + (doc_id \<times> user_doc) list" where
  "getDocs ok st = (if ok then Inr (docs st) else Inl Unavailable)"

definition addDoc :: "bool \<Rightarrow> write_data \<Rightarrow> firestore \<Rightarrow> store_error + (doc_id \<times> firestore)" where
  "addDoc ok w st =
     (case to_document w of
        Inl e \<Rightarrow> Inl e
      | Inr d \<Rightarrow>
          if \<not> ok then Inl Unavailable
          else Inr (next_id st, st\<lparr>docs := docs st @ [(next_id st, d)], next_id := Suc (next_id st)\<rparr>))"

definition setDoc :: "bool \<Rightarrow> doc_id \<Rightarrow> write_data \<Rightarrow> firestore \<Rightarrow> store_error + firestore" where
  "setDoc ok k w st =
     (case to_document w of
        Inl e \<Rightarrow> Inl e
      | Inr d \<Rightarrow> if \<not> ok then Inl Unavailable else Inr (st\<lparr>docs := upd_docs k d (docs st)\<rparr>))"

definition deleteDoc :: "bool \<Rightarrow> doc_id \<Rightarrow> firestore \<Rightarrow> store_error + firestore" where
  "deleteDoc ok k st = (if \<not> ok then Inl Unavailable else Inr (st\<lparr>docs := del_docs k (docs st)\<rparr>))"

text \<open>The abstract view and the representation invariant.\<close>

definition lookup :: "firestore \<Rightarrow> doc_id \<Rightarrow> user_doc option" where
  "lookup st = map_of (docs st)"

definition store_inv :: "firestore \<Rightarrow> bool" where
  "store_inv st \<longleftrightarrow> sorted_wrt (<) (map fst (docs st)) \<and> (\<forall>k \<in> set (map fst (docs st)). k < next_id st)"

definition empty_store :: firestore where
  "empty_store = \<lparr>docs = [], next_id = 0\<rparr>"

section \<open>Lemmas: the ordered document list\<close>

lemma map_of_upd_docs: "map_of (upd_docs k d ps) = (map_of ps)(k \<mapsto> d)"
  by (induction ps rule: upd_docs.induct) (auto simp: fun_eq_iff)

lemma set_upd_docs: "set (upd_docs k d ps) \<subseteq> insert (k, d) (set ps)"
  by (induction ps rule: upd_docs.induct) auto

lemma sorted_upd_docs:
  "sorted_wrt (<) (map fst ps) \<Longrightarrow> sorted_wrt (<) (map fst (upd_docs k d ps))"
  by (induction ps rule: upd_docs.induct) (auto dest: subsetD[OF set_upd_docs])

lemma set_del_docs: "set (del_docs k ps) \<subseteq> set ps"
  by (induction ps rule: del_docs.induct) auto

lemma sorted_del_docs:
  "sorted_wrt (<) (map fst ps) \<Longrightarrow> sorted_wrt (<) (map fst (del_docs k ps))"
  by (induction ps rule: del_docs.induct) (auto dest: subsetD[OF set_del_docs])

lemma map_of_del_docs:
  "sorted_wrt (<) (map fst ps) \<Longrightarrow> map_of (del_docs k ps) = (map_of ps)(k := None)"
proof (induction ps rule: del_docs.induct)
  case (1 k)
  then show ?case by simp
next
  case (2 k k' d' ps)
  then have notin: "k' \<notin> set (map fst ps)" by auto
  show ?case
  proof (cases "k = k'")
    case True
    with notin show ?thesis by (auto simp: fun_eq_iff map_of_eq_None_iff)
  next
    case False
    with 2 show ?thesis by (auto simp: fun_eq_iff)
  qed
qed

lemma sorted_append_fresh:
  "sorted_wrt (<) (map fst ps) \<Longrightarrow> \<forall>k' \<in> set (map fst ps). k' < k
   \<Longrightarrow> sorted_wrt (<) (map fst (ps @ [(k, d)]))"
  by (simp add: sorted_wrt_append)

section \<open>Lemmas: the store operations\<close>

lemma store_inv_empty: "store_inv empty_store"
  by (simp add: store_inv_def empty_store_def)

lemma lookup_fresh: "store_inv st \<Longrightarrow> lookup st (next_id st) = None"
  by (auto simp: store_inv_def lookup_def map_of_eq_None_iff)

lemma addDoc_Inr:
  "addDoc ok w st = Inr (k, st') \<longleftrightarrow>
     ok \<and> k = next_id st \<and> (\<exists>d. to_document w = Inr d \<and>
       st' = st\<lparr>docs := docs st @ [(next_id st, d)], next_id := Suc (next_id st)\<rparr>)"
  by (auto simp: addDoc_def split: sum.splits)

lemma setDoc_Inr:
  "setDoc ok k w st = Inr st' \<longleftrightarrow>
     ok \<and> (\<exists>d. to_document w = Inr d \<and> st' = st\<lparr>docs := upd_docs k d (docs st)\<rparr>)"
  by (auto simp: setDoc_def split: sum.splits)

lemma deleteDoc_Inr:
  "deleteDoc ok k st = Inr st' \<longleftrightarrow> ok \<and> st' = st\<lparr>docs := del_docs k (docs st)\<rparr>"
  by (auto simp: deleteDoc_def)

lemma addDoc_inv:
  assumes "store_inv st" "addDoc ok w st = Inr (k, st')"
  shows "store_inv st'"
proof -
  obtain d where st': "st' = st\<lparr>docs := docs st @ [(next_id st, d)], next_id := Suc (next_id st)\<rparr>"
    using assms(2) by (auto simp: addDoc_Inr)
  have "\<forall>(a, b) \<in> set (docs st). a < next_id st"
    using assms(1) by (auto simp: store_inv_def)
  with assms(1) show ?thesis
    unfolding st' store_inv_def by (fastforce simp: sorted_wrt_append less_Suc_eq)
qed

lemma setDoc_inv:
  assumes "store_inv st" "k < next_id st" "setDoc ok k w st = Inr st'"
  shows "store_inv st'"
proof -
  obtain d where st': "st' = st\<lparr>docs := upd_docs k d (docs st)\<rparr>"
    using assms(3) by (auto simp: setDoc_Inr)
  have "\<forall>(a, b) \<in> set (docs st). a < next_id st"
    using assms(1) by (auto simp: store_inv_def)
  with assms(1,2) show ?thesis
    unfolding st' store_inv_def by (fastforce simp: sorted_upd_docs dest: subsetD[OF set_upd_docs])
qed

lemma deleteDoc_inv:
  assumes "store_inv st" "deleteDoc ok k st = Inr st'"
  shows "store_inv st'"
proof -
  have st': "st' = st\<lparr>docs := del_docs k (docs st)\<rparr>"
    using assms(2) by (auto simp: deleteDoc_Inr)
  have "\<forall>(a, b) \<in> set (docs st). a < next_id st"
    using assms(1) by (auto simp: store_inv_def)
  with assms(1) show ?thesis
    unfolding st' store_inv_def by (fastforce simp: sorted_del_docs dest: subsetD[OF set_del_docs])
qed

lemma lookup_addDoc:
  assumes "store_inv st" "addDoc ok w st = Inr (k, st')" "to_document w = Inr d"
  shows "lookup st k = None \<and> lookup st' = (lookup st)(k \<mapsto> d)"
proof -
  have k: "k = next_id st" and st': "st' = st\<lparr>docs := docs st @ [(k, d)], next_id := Suc k\<rparr>"
    using assms(2,3) by (auto simp: addDoc_Inr)
  have fresh: "lookup st k = None"
    using lookup_fresh[OF assms(1)] k by simp
  moreover have "lookup st' = (lookup st)(k \<mapsto> d)"
    using fresh unfolding st' lookup_def by (auto simp: fun_eq_iff map_add_def split: option.splits)
  ultimately show ?thesis by simp
qed

lemma lookup_setDoc:
  "setDoc ok k w st = Inr st' \<Longrightarrow> to_document w = Inr d \<Longrightarrow> lookup st' = (lookup st)(k \<mapsto> d)"
  by (auto simp: setDoc_Inr lookup_def map_of_upd_docs)

lemma lookup_deleteDoc:
  "store_inv st \<Longrightarrow> deleteDoc ok k st = Inr st' \<Longrightarrow> lookup st' = (lookup st)(k := None)"
  by (auto simp: deleteDoc_Inr lookup_def store_inv_def map_of_del_docs)

lemma next_id_mono_setDoc: "setDoc ok k w st = Inr st' \<Longrightarrow> next_id st' = next_id st"
  by (auto simp: setDoc_Inr)

lemma next_id_mono_deleteDoc: "deleteDoc ok k st = Inr st' \<Longrightarrow> next_id st' = next_id st"
  by (auto simp: deleteDoc_Inr)

text \<open>
  The store refines a finite map from ids to documents: for a document the
  conversion accepts, a successful \<open>addDoc\<close> inserts it under an id not in use,
  \<open>setDoc\<close> on an issued id replaces (or creates) that entry, and \<open>deleteDoc\<close> removes
  its entry; each keeps the representation invariant.
\<close>

theorem store_writes_refine_map:
  assumes "store_inv st" "to_document w = Inr d"
  shows "(\<forall>k st'. addDoc ok w st = Inr (k, st') \<longrightarrow>
             store_inv st' \<and> lookup st k = None \<and> lookup st' = (lookup st)(k \<mapsto> d))
       \<and> (\<forall>k st'. k < next_id st \<longrightarrow> setDoc ok k w st = Inr st' \<longrightarrow>
             store_inv st' \<and> lookup st' = (lookup st)(k \<mapsto> d))
       \<and> (\<forall>k st'. deleteDoc ok k st = Inr st' \<longrightarrow>
             store_inv st' \<and> lookup st' = (lookup st)(k := None))"
proof (rule conjI[OF _ conjI]; intro allI impI)
  fix k st'
  assume "addDoc ok w st = Inr (k, st')"
  then show "store_inv st' \<and> lookup st k = None \<and> lookup st' = (lookup st)(k \<mapsto> d)"
    using assms addDoc_inv lookup_addDoc by blast
next
  fix k st'
  assume "k < next_id st" "setDoc ok k w st = Inr st'"
  then show "store_inv st' \<and> lookup st' = (lookup st)(k \<mapsto> d)"
    using assms setDoc_inv lookup_setDoc by blast
next
  fix k st'
  assume "deleteDoc ok k st = Inr st'"
  then show "store_inv st' \<and> lookup st' = (lookup st)(k := None)"
    using assms deleteDoc_inv lookup_deleteDoc by blast
qed

end
