(* ===== verification/Form.thy ===== *)
theory Form
  imports Store
begin

text \<open>
  The application's own data handling, shared by its two versions (\<open>src/App.jsx\<close>,
  the single-file version, called v1 below; and \<open>src/views/App.jsx\<close> with
  \<open>src/components/Modal/Modal.jsx\<close> and \<open>src/components/Table/Table.jsx\<close>, v2):
  \<^item> the form state registered with react-hook-form and its validation rules;
  \<^item> the country list and the effect that derives the city options from the country;
  \<^item> the payload \<open>onSubmit\<close> hands to the store (v1 writes plain strings for country
    and city, v2 writes \<open>{value, label}\<close> objects);
  \<^item> the row \<open>getInfo\<close> builds from a stored document, with its date string;
  \<^item> \<open>updateModal\<close>, which fills the form from a row for editing;
  \<^item> the table's columns and the rendering of a row.
\<close>

section \<open>Form state and validation\<close>

text \<open>
  The registered fields. A number input holds a string; \<open>None\<close> is the empty string
  and \<open>Some n\<close> an integer (the inputs are \<open>type="number"\<close> with step 1). The hidden
  \<open>id\<close> input is \<open>None\<close> when empty. Country and city are controlled selects whose
  value is a select option, or \<open>""\<close>/\<open>undefined\<close>.
\<close>

record form_values =
  f_id :: "doc_id option"
  f_name :: string
  f_year :: "int option"
  f_month :: "int option"
  f_day :: "int option"
  f_country :: jsv
  f_city :: jsv

definition empty_form :: form_values where
  "empty_form = \<lparr>f_id = None, f_name = [], f_year = None, f_month = None, f_day = None,
                 f_country = JUndef, f_city = JUndef\<rparr>"

datatype field = FName | FYear | FMonth | FDay | FCountry | FCity

text \<open>react-hook-form's \<open>required\<close>: the value is neither \<open>undefined\<close> nor \<open>""\<close>.\<close>

definition required_ok :: "jsv \<Rightarrow> bool" where
  "required_ok v \<longleftrightarrow> v \<noteq> JUndef \<and> v \<noteq> JStr []"

text \<open>\<open>{ required: true, min: lo, max: hi }\<close> on a number input.\<close>

definition num_rule_ok :: "int \<Rightarrow> int \<Rightarrow> int option \<Rightarrow> bool" where
  "num_rule_ok lo hi v = (case v of None \<Rightarrow> False | Some n \<Rightarrow> lo \<le> n \<and> n \<le> hi)"

text \<open>The fields in error after \<open>handleSubmit\<close> validates the form, in the order the
  form registers them.\<close>

definition form_errors :: "form_values \<Rightarrow> field list" where
  "form_errors f =
     (if f_name f = [] then [FName] else []) @
     (if num_rule_ok 1923 2023 (f_year f) then [] else [FYear]) @
     (if num_rule_ok 1 12 (f_month f) then [] else [FMonth]) @
     (if num_rule_ok 1 31 (f_day f) then [] else [FDay]) @
     (if required_ok (f_country f) then [] else [FCountry]) @
     (if required_ok (f_city f) then [] else [FCity])"

section \<open>Countries and cities\<close>

definition opt :: "string \<Rightarrow> jsv" where
  "opt s = sel_option (JStr s) (JStr s)"

definition optionsCountry :: "jsv list" where
  "optionsCountry = [opt ''Canada'', opt ''USA'']"

text \<open>The effect on \<open>country\<close>: there is no \<open>else\<close> branch, so any other value
  keeps the previous options.\<close>

definition city_options_effect :: "jsv \<Rightarrow> jsv list \<Rightarrow> jsv list" where
  "city_options_effect c opts =
     (if c = JStr ''Canada'' then [opt ''Ottawa'', opt ''Toronto'']
      else if c = JStr ''USA'' then [opt ''Las Vegas'', opt ''Chicago''] else opts)"

text \<open>The catalogue the specification describes (\<open>citiesFor\<close>), used to state what the
  effect achieves; not code of the repository.\<close>

definition cities_for :: "string \<Rightarrow> string set" where
  "cities_for c =
     (if c = ''Canada'' then {''Ottawa'', ''Toronto''}
      else if c = ''USA'' then {''Las Vegas'', ''Chicago''} else {})"

section \<open>Writing: the payload of onSubmit\<close>

text \<open>\<open>ToNumber\<close> of a number input: the empty string is 0.\<close>

definition input_num :: "int option \<Rightarrow> int" where
  "input_num v = (case v of None \<Rightarrow> 0 | Some n \<Rightarrow> n)"

text \<open>\<open>new Date(data.year, (data.month - 1), data.day)\<close>.\<close>

definition dob_Date :: "int \<Rightarrow> form_values \<Rightarrow> time_value option" where
  "dob_Date tz f = Date_ymd tz (input_num (f_year f)) (input_num (f_month f) - 1) (input_num (f_day f))"

text \<open>v1: \<open>City: data.city.value, Country: data.country.value\<close>.\<close>

definition payload_v1 :: "int \<Rightarrow> form_values \<Rightarrow> js_error + write_data" where
  "payload_v1 tz f =
     (case js_get (f_city f) ''value'' of Inl e \<Rightarrow> Inl e
      | Inr city \<Rightarrow>
          (case js_get (f_country f) ''value'' of Inl e \<Rightarrow> Inl e
           | Inr country \<Rightarrow>
               Inr \<lparr>wd_City = city, wd_Country = country,
                    wd_DateOfBirth = dob_Date tz f, wd_Name = f_name f\<rparr>))"

text \<open>v2: \<open>City: { value: data.city.value, label: data.city.label }\<close>, and so for
  \<open>Country\<close>.\<close>

definition label_value :: "jsv \<Rightarrow> js_error + jsv" where
  "label_value v =
     (case js_get v ''value'' of Inl e \<Rightarrow> Inl e
      | Inr x \<Rightarrow> (case js_get v ''label'' of Inl e \<Rightarrow> Inl e | Inr l \<Rightarrow> Inr (sel_option x l)))"

definition payload_v2 :: "int \<Rightarrow> form_values \<Rightarrow> js_error + write_data" where
  "payload_v2 tz f =
     (case label_value (f_city f) of Inl e \<Rightarrow> Inl e
      | Inr city \<Rightarrow>
          (case label_value (f_country f) of Inl e \<Rightarrow> Inl e
           | Inr country \<Rightarrow>
               Inr \<lparr>wd_City = city, wd_Country = country,
                    wd_DateOfBirth = dob_Date tz f, wd_Name = f_name f\<rparr>))"

section \<open>Reading: the rows of getInfo\<close>

text \<open>\<open>let time = new Date(1970, 0, 1); time.setSeconds(dateOfBirth.seconds)\<close>.\<close>

definition dob_time :: "int \<Rightarrow> timestamp \<Rightarrow> time_value option" where
  "dob_time tz ts = Date_setSeconds tz (Date_ymd tz 1970 0 1) (ts_seconds ts)"

text \<open>\<open>time.toISOString().split('T')[0].toString()\<close>.\<close>

definition dob_cell :: "int \<Rightarrow> timestamp \<Rightarrow> js_error + string" where
  "dob_cell tz ts =
     (case Date_toISOString (dob_time tz ts) of Inl e \<Rightarrow> Inl e | Inr s \<Rightarrow> Inr (split_first (CHR ''T'') s))"

text \<open>An item of the table: the displayed fields, and what the two buttons' closures
  capture (\<open>doc.id\<close>, \<open>doc.data()\<close>, \<open>time\<close>).\<close>

record row =
  row_name :: string
  row_dob :: string
  row_country :: jsv
  row_city :: jsv
  row_id :: doc_id
  row_data :: user_doc
  row_time :: "time_value option"

text \<open>v1 shows \<open>doc.data().Country\<close> and \<open>doc.data().City\<close> as stored.\<close>

definition row_v1 :: "int \<Rightarrow> doc_id \<times> user_doc \<Rightarrow> js_error + row" where
  "row_v1 tz kd =
     (let (k, d) = kd in
      case dob_cell tz (DateOfBirth d) of Inl e \<Rightarrow> Inl e
      | Inr s \<Rightarrow> Inr \<lparr>row_name = Name d, row_dob = s, row_country = Country d, row_city = City d,
                      row_id = k, row_data = d, row_time = dob_time tz (DateOfBirth d)\<rparr>)"

text \<open>v2 shows \<open>doc.data().Country.value\<close> and \<open>doc.data().City.value\<close>.\<close>

definition row_v2 :: "int \<Rightarrow> doc_id \<times> user_doc \<Rightarrow> js_error + row" where
  "row_v2 tz kd =
     (let (k, d) = kd in
      case dob_cell tz (DateOfBirth d) of Inl e \<Rightarrow> Inl e
      | Inr s \<Rightarrow>
          (case js_get (Country d) ''value'' of Inl e \<Rightarrow> Inl e
           | Inr country \<Rightarrow>
               (case js_get (City d) ''value'' of Inl e \<Rightarrow> Inl e
                | Inr city \<Rightarrow>
                    Inr \<lparr>row_name = Name d, row_dob = s, row_country = country, row_city = city,
                         row_id = k, row_data = d, row_time = dob_time tz (DateOfBirth d)\<rparr>)))"

text \<open>\<open>querySnapshot.forEach(...)\<close>: an exception in any item rejects \<open>getInfo\<close>.\<close>

fun rows_of :: "('a \<Rightarrow> js_error + row) \<Rightarrow> 'a list \<Rightarrow> js_error + row list" where
  "rows_of mk [] = Inr []"
| "rows_of mk (x # xs) =
     (case mk x of Inl e \<Rightarrow> Inl e
      | Inr r \<Rightarrow> (case rows_of mk xs of Inl e \<Rightarrow> Inl e | Inr rs \<Rightarrow> Inr (r # rs)))"

section \<open>Editing: updateModal\<close>

text \<open>\<open>setValue('year', time.getFullYear().toString())\<close>, \<open>getMonth() + 1\<close> and
  \<open>getDate()\<close>; the date is always valid for stored documents.\<close>

definition prefill_date :: "int \<Rightarrow> time_value option \<Rightarrow> form_values \<Rightarrow> form_values" where
  "prefill_date tz tv f =
     f\<lparr>f_year := Date_getFullYear tz tv, f_month := map_option (\<lambda>m. m + 1) (Date_getMonth tz tv),
       f_day := Date_getDate tz tv\<rparr>"

text \<open>v1: \<open>setValue('country', { value: country, label: country })\<close>.\<close>

definition updateModal_v1 :: "int \<Rightarrow> row \<Rightarrow> form_values \<Rightarrow> form_values" where
  "updateModal_v1 tz r f =
     prefill_date tz (row_time r)
       (f\<lparr>f_id := Some (row_id r), f_name := Name (row_data r),
          f_country := sel_option (Country (row_data r)) (Country (row_data r)),
          f_city := sel_option (City (row_data r)) (City (row_data r))\<rparr>)"

text \<open>v2: \<open>setValue('country', { value: country.value, label: country.label })\<close>.\<close>

definition updateModal_v2 :: "int \<Rightarrow> row \<Rightarrow> form_values \<Rightarrow> form_values" where
  "updateModal_v2 tz r f =
     prefill_date tz (row_time r)
       (f\<lparr>f_id := Some (row_id r), f_name := Name (row_data r),
          f_country := sel_option (get_prop (Country (row_data r)) ''value'')
                                  (get_prop (Country (row_data r)) ''label''),
          f_city := sel_option (get_prop (City (row_data r)) ''value'')
                               (get_prop (City (row_data r)) ''label'')\<rparr>)"

section \<open>The table\<close>

definition columns :: "(string \<times> string) list" where
  "columns = [(''name'', ''Name''), (''dob'', ''Date of Birth''), (''country'', ''Country''),
              (''city'', ''City''), (''edit'', ''Edit''), (''delete'', ''Delete'')]"

text \<open>Rendering a cell: a string is shown, \<open>undefined\<close> renders nothing, and an object
  makes React throw ("Objects are not valid as a React child").\<close>

fun render_value :: "jsv \<Rightarrow> js_error + string" where
  "render_value JUndef = Inr []"
| "render_value (JStr s) = Inr s"
| "render_value (JObj _) = Inl TypeError"

definition cell :: "row \<Rightarrow> string \<Rightarrow> js_error + string" where
  "cell r key =
     (if key = ''name'' then Inr (row_name r) else if key = ''dob'' then Inr (row_dob r)
      else if key = ''country'' then render_value (row_country r)
      else if key = ''city'' then render_value (row_city r)
      else if key = ''edit'' then Inr ''+'' else Inr ''X'')"

fun render_cells :: "row \<Rightarrow> string list \<Rightarrow> js_error + string list" where
  "render_cells r [] = Inr []"
| "render_cells r (k # ks) =
     (case cell r k of Inl e \<Rightarrow> Inl e
      | Inr c \<Rightarrow> (case render_cells r ks of Inl e \<Rightarrow> Inl e | Inr cs \<Rightarrow> Inr (c # cs)))"

definition render_row :: "row \<Rightarrow> js_error + string list" where
  "render_row r = render_cells r (map fst columns)"

section \<open>Calendar helpers of the statements\<close>

text \<open>The day number of a valid date of the accepted year range, and its bounds.\<close>

definition day_of_ymd :: "int \<Rightarrow> int \<Rightarrow> int \<Rightarrow> int" where
  "day_of_ymd y m d = DayFromYear y + month_start (leap_of y) (m - 1) + d - 1"

text \<open>The \<open>YYYY-MM-DD\<close> text of a calendar date (month 1..12).\<close>

definition iso_ymd :: "int \<Rightarrow> int \<Rightarrow> int \<Rightarrow> string" where
  "iso_ymd y m d = iso_year y @ ''-'' @ two_digits m @ ''-'' @ two_digits d"

section \<open>Lemmas: dates through the store and back\<close>

lemma day_of_ymd_bounds:
  assumes "valid_ymd y m d" "1923 \<le> y" "y \<le> 2023"
  shows "-20000 \<le> day_of_ymd y m d \<and> day_of_ymd y m d \<le> 20000"
proof -
  have L: "leap_of y = 0 \<or> leap_of y = 1" by (rule leap_of_cases)
  have m: "0 \<le> m - 1" "m - 1 \<le> 11" and d: "1 \<le> d"
    and dm: "d \<le> month_start (leap_of y) m - month_start (leap_of y) (m - 1)"
    using assms(1) by (simp_all add: valid_ymd_def days_in_month_def)
  note ms = month_start_range[OF L m]
  have "146097 * y - 287811697 \<le> 400 * DayFromYear y" "400 * DayFromYear y \<le> 146097 * y - 287810497"
    by (rule DayFromYear_bounds)+
  with assms(2,3) ms dm d L show ?thesis unfolding day_of_ymd_def by auto
qed

lemma Date_ymd_valid:
  assumes "valid_ymd y m d" "1923 \<le> y" "y \<le> 2023" "\<bar>tz\<bar> \<le> msPerDay"
  shows "Date_ymd tz y (m - 1) d = Some (msPerDay * day_of_ymd y m d - tz)"
proof -
  have v: "1 \<le> m" "m \<le> 12" using assms(1) by (simp_all add: valid_ymd_def)
  have full: "MakeFullYear y = y" using assms(2) by (simp add: MakeFullYear_def)
  have "\<bar>msPerDay * day_of_ymd y m d - tz\<bar> \<le> 8640000000000000"
    using day_of_ymd_bounds[OF assms(1-3)] assms(4) by (simp add: msPerDay_def abs_le_iff)
  then show ?thesis
    by (simp add: Date_ymd_def full MakeDay_valid[OF v] day_of_ymd_def MakeDate_def MakeTime_def
                  UTC_def TimeClip_def algebra_simps)
qed

lemma Timestamp_fromDate_whole:
  assumes "tz mod 1000 = 0" "\<bar>n\<bar> \<le> 700000" "\<bar>tz\<bar> \<le> msPerDay"
  shows "Timestamp_fromDate (Some (msPerDay * n - tz)) =
           Inr \<lparr>ts_seconds = 86400 * n - tz div 1000, ts_nanos = 0\<rparr>"
proof -
  obtain k where k: "tz = 1000 * k" using assms(1) by (metis mod_eq_0_iff_dvd dvd_def)
  have s: "(msPerDay * n - tz) div 1000 = 86400 * n - k" "(msPerDay * n - tz) mod 1000 = 0"
    unfolding k msPerDay_def by simp_all
  have "\<bar>k\<bar> \<le> 86400" using assms(3) k by (simp add: msPerDay_def)
  then have "\<not> (86400 * n - k < -62135596800 \<or> 253402300800 \<le> 86400 * n - k)"
    using assms(2) by (simp add: abs_le_iff)
  then show ?thesis using k s by (simp add: Timestamp_fromDate_def Let_def)
qed

lemma dob_time_seconds:
  assumes "\<bar>tz\<bar> \<le> msPerDay" "\<bar>ts_seconds ts\<bar> \<le> 2000000000000"
  shows "dob_time tz ts = Some (1000 * ts_seconds ts - tz)"
proof -
  have epoch: "Date_ymd tz 1970 0 1 = Some (- tz)"
    using assms(1) by (simp add: Date_ymd_def MakeFullYear_def MakeDay_def DayFromYear_def
        month_start_def MakeDate_def MakeTime_def UTC_def TimeClip_def msPerDay_def)
  have z: "Day 0 = 0" "HourFromTime 0 = 0" "MinFromTime 0 = 0" "msFromTime 0 = 0"
    by (simp_all add: Day_def HourFromTime_def MinFromTime_def msFromTime_def)
  have "\<bar>ts_seconds ts * 1000 - tz\<bar> \<le> 8640000000000000"
    using assms by (simp add: msPerDay_def abs_le_iff)
  then show ?thesis
    by (simp add: dob_time_def epoch Date_setSeconds_def LocalTime_def z MakeDate_def MakeTime_def
                  UTC_def TimeClip_def algebra_simps)
qed

lemma iso_date_fields: "date_fields t = (y, mi, d) \<Longrightarrow> iso_date t = iso_ymd y (mi + 1) d"
  by (simp add: date_fields_def iso_date_def iso_ymd_def)

lemma dob_cell_time:
  "dob_time tz ts = Some t \<Longrightarrow> dob_cell tz ts = Inr (iso_date t)"
  unfolding dob_cell_def
  by (simp add: Date_toISOString_def split_first_append T_notin_iso_date)

lemma date_fields_Day: "Day t = Day t' \<Longrightarrow> date_fields t = date_fields t'"
  by (simp add: date_fields_def YearFromTime_def MonthFromTime_def DateFromTime_def
                InLeapYear_def DayWithinYear_def)

lemma date_fields_within_day:
  "0 \<le> r \<Longrightarrow> r < msPerDay \<Longrightarrow> date_fields (msPerDay * n + r) = date_fields (msPerDay * n)"
  using Day_add[of r n] Day_add[of 0 n] by (intro date_fields_Day) (simp add: msPerDay_def)

lemma stored_timestamp:
  assumes f: "f_year f = Some y" "f_month f = Some m" "f_day f = Some d"
    and v: "valid_ymd y m d" "1923 \<le> y" "y \<le> 2023"
    and tz: "tz mod 1000 = 0" "\<bar>tz\<bar> \<le> msPerDay"
  shows "Timestamp_fromDate (dob_Date tz f) =
           Inr \<lparr>ts_seconds = 86400 * day_of_ymd y m d - tz div 1000, ts_nanos = 0\<rparr>"
proof -
  have "dob_Date tz f = Some (msPerDay * day_of_ymd y m d - tz)"
    using Date_ymd_valid[OF v tz(2)] f by (simp add: dob_Date_def input_num_def)
  moreover have "\<bar>day_of_ymd y m d\<bar> \<le> 700000"
    using day_of_ymd_bounds[OF v] by (simp add: abs_le_iff)
  ultimately show ?thesis using Timestamp_fromDate_whole[OF tz(1) _ tz(2)] by simp
qed

lemma read_back_time:
  assumes "tz mod 1000 = 0" "\<bar>tz\<bar> \<le> msPerDay" "\<bar>n\<bar> \<le> 700000"
  shows "dob_time tz \<lparr>ts_seconds = 86400 * n - tz div 1000, ts_nanos = 0\<rparr>
           = Some (msPerDay * n - 2 * tz)"
proof -
  obtain k where k: "tz = 1000 * k" using assms(1) by (metis mod_eq_0_iff_dvd dvd_def)
  have "\<bar>86400 * n - tz div 1000\<bar> \<le> 2000000000000"
    using assms(2,3) k by (simp add: msPerDay_def abs_le_iff)
  then show ?thesis
    using dob_time_seconds[OF assms(2)] k by (simp add: msPerDay_def algebra_simps)
qed

lemma shown_fields_west:
  assumes "valid_ymd y m d" "- 43200000 < tz" "tz \<le> 0"
  shows "date_fields (msPerDay * day_of_ymd y m d - 2 * tz) = (y, m - 1, d)"
  using fields_of_day[OF assms(1), of "- 2 * tz"] assms(2,3)
  by (simp add: day_of_ymd_def msPerDay_def algebra_simps)

lemma shown_fields_east:
  assumes "0 < tz" "tz \<le> 43200000"
  shows "date_fields (msPerDay * n - 2 * tz) = date_fields (msPerDay * (n - 1))"
proof -
  have "msPerDay * n - 2 * tz = msPerDay * (n - 1) + (msPerDay - 2 * tz)"
    by (simp add: algebra_simps)
  then show ?thesis using date_fields_within_day[of "msPerDay - 2 * tz" "n - 1"] assms
    by (simp add: msPerDay_def)
qed

lemma local_fields_west:
  assumes "valid_ymd y m d" "- msPerDay < tz" "tz \<le> 0"
  shows "date_fields (LocalTime tz (msPerDay * day_of_ymd y m d - 2 * tz)) = (y, m - 1, d)"
  using fields_of_day[OF assms(1), of "- tz"] assms(2,3)
  by (simp add: LocalTime_def day_of_ymd_def algebra_simps)

lemma local_fields_east:
  assumes "0 < tz" "tz \<le> msPerDay"
  shows "date_fields (LocalTime tz (msPerDay * n - 2 * tz)) = date_fields (msPerDay * (n - 1))"
proof -
  have "LocalTime tz (msPerDay * n - 2 * tz) = msPerDay * (n - 1) + (msPerDay - tz)"
    by (simp add: LocalTime_def algebra_simps)
  then show ?thesis using date_fields_within_day[of "msPerDay - tz" "n - 1"] assms
    by (cases "tz = msPerDay") (simp_all add: msPerDay_def)
qed

lemma prefill_date_fields:
  assumes "date_fields (LocalTime tz t) = (y, mi, d)"
  shows "f_year (prefill_date tz (Some t) f) = Some y"
    "f_month (prefill_date tz (Some t) f) = Some (mi + 1)"
    "f_day (prefill_date tz (Some t) f) = Some d"
  using assms by (simp_all add: prefill_date_def Date_getFullYear_def Date_getMonth_def
                                Date_getDate_def date_fields_def)

lemma row_v2_Inr:
  "row_v2 tz (k, d) = Inr r \<Longrightarrow>
     row_id r = k \<and> row_data r = d \<and> row_time r = dob_time tz (DateOfBirth d)"
  by (auto simp: row_v2_def split: sum.splits)

lemma row_v1_Inr:
  "row_v1 tz (k, d) = Inr r \<Longrightarrow>
     row_id r = k \<and> row_data r = d \<and> row_time r = dob_time tz (DateOfBirth d)"
  by (auto simp: row_v1_def split: sum.splits)

lemma dob_Date_prefill:
  assumes "YearFromTime (LocalTime tz t) \<notin> {0..99}"
    "\<bar>msPerDay * Day (LocalTime tz t) - tz\<bar> \<le> 8640000000000000"
  shows "dob_Date tz (prefill_date tz (Some t) f) = Some (msPerDay * Day (LocalTime tz t) - tz)"
proof -
  let ?u = "LocalTime tz t"
  have "MakeFullYear (YearFromTime ?u) = YearFromTime ?u"
    using assms(1) by (auto simp: MakeFullYear_def)
  then show ?thesis
    using assms(2) MakeDay_fields[of ?u]
    by (simp add: dob_Date_def prefill_date_def input_num_def Date_getFullYear_def Date_getMonth_def
                  Date_getDate_def Date_ymd_def MakeDate_def MakeTime_def UTC_def TimeClip_def
                  algebra_simps)
qed

lemma stored_then_read:
  assumes f: "f_year f = Some y" "f_month f = Some m" "f_day f = Some d"
    and v: "valid_ymd y m d" "1923 \<le> y" "y \<le> 2023"
    and tz: "tz mod 1000 = 0" "\<bar>tz\<bar> \<le> msPerDay"
    and ts: "Timestamp_fromDate (dob_Date tz f) = Inr ts"
  shows "ts = \<lparr>ts_seconds = 86400 * day_of_ymd y m d - tz div 1000, ts_nanos = 0\<rparr>
         \<and> dob_time tz ts = Some (msPerDay * day_of_ymd y m d - 2 * tz)"
proof -
  have ts_eq: "ts = \<lparr>ts_seconds = 86400 * day_of_ymd y m d - tz div 1000, ts_nanos = 0\<rparr>"
    using stored_timestamp[OF f v tz] ts by simp
  have "\<bar>day_of_ymd y m d\<bar> \<le> 700000"
    using day_of_ymd_bounds[OF v] by (simp add: abs_le_iff)
  with ts_eq show ?thesis using read_back_time[OF tz] by simp
qed

lemma year_of_day_above_99:
  assumes "DayFromYear 1922 \<le> n"
  shows "year_from_day n \<notin> {0..99}"
proof
  assume "year_from_day n \<in> {0..99}"
  then have "year_from_day n + 1 \<le> 100" by simp
  then have "DayFromYear (year_from_day n + 1) \<le> DayFromYear 100" by (rule DayFromYear_mono)
  moreover have "DayFromYear 100 < DayFromYear 1922" by (simp add: DayFromYear_def)
  ultimately show False using assms year_from_day_bounds[of n] by linarith
qed

lemma updateModal_v2_date:
  "f_year (updateModal_v2 tz r g) = f_year (prefill_date tz (row_time r) g)"
  "f_month (updateModal_v2 tz r g) = f_month (prefill_date tz (row_time r) g)"
  "f_day (updateModal_v2 tz r g) = f_day (prefill_date tz (row_time r) g)"
  by (simp_all add: updateModal_v2_def prefill_date_def)

lemma dob_Date_cong:
  "f_year f = f_year g \<Longrightarrow> f_month f = f_month g \<Longrightarrow> f_day f = f_day g
   \<Longrightarrow> dob_Date tz f = dob_Date tz g"
  by (simp add: dob_Date_def)

lemma DayFromYear_le_day_of_ymd:
  assumes "valid_ymd y m d" "1923 \<le> y"
  shows "DayFromYear 1923 \<le> day_of_ymd y m d"
proof -
  have "0 \<le> month_start (leap_of y) (m - 1)"
    using month_start_range(1)[OF leap_of_cases, of "m - 1" y] assms(1) by (simp add: valid_ymd_def)
  moreover have "DayFromYear 1923 \<le> DayFromYear y" using assms(2) by (rule DayFromYear_mono)
  ultimately show ?thesis using assms(1) by (simp add: day_of_ymd_def valid_ymd_def)
qed

lemma Day_shift_bounds:
  assumes "\<bar>tz\<bar> \<le> msPerDay"
  shows "n - 1 \<le> (msPerDay * n - tz) div msPerDay \<and> (msPerDay * n - tz) div msPerDay \<le> n + 1"
proof -
  have p: "0 < msPerDay" by (simp add: msPerDay_def)
  have "(msPerDay * (n - 1)) div msPerDay \<le> (msPerDay * n - tz) div msPerDay"
    using assms p by (intro zdiv_mono1) (simp_all add: algebra_simps abs_le_iff)
  moreover have "(msPerDay * n - tz) div msPerDay \<le> (msPerDay * (n + 1)) div msPerDay"
    using assms p by (intro zdiv_mono1) (simp_all add: algebra_simps abs_le_iff)
  ultimately show ?thesis using p by simp
qed

lemma resubmit_date:
  assumes v: "valid_ymd y m d" "1923 \<le> y" "y \<le> 2023"
    and tz: "tz mod 1000 = 0" "\<bar>tz\<bar> \<le> msPerDay"
  shows "Timestamp_fromDate (dob_Date tz (prefill_date tz (Some (msPerDay * day_of_ymd y m d - 2 * tz)) g)) =
           Inr \<lparr>ts_seconds = 86400 * (day_of_ymd y m d + (- tz) div msPerDay) - tz div 1000,
               ts_nanos = 0\<rparr>"
proof -
  let ?n = "day_of_ymd y m d"
  let ?t = "msPerDay * ?n - 2 * tz"
  let ?n' = "Day (LocalTime tz ?t)"
  have p: "0 < msPerDay" by (simp add: msPerDay_def)
  have loc: "LocalTime tz ?t = msPerDay * ?n - tz" by (simp add: LocalTime_def)
  have day: "?n' = ?n + (- tz) div msPerDay"
    using div_mult_add_int[OF p, of ?n "- tz"] by (simp add: loc Day_def)
  have nb: "?n - 1 \<le> ?n' \<and> ?n' \<le> ?n + 1"
    using Day_shift_bounds[OF tz(2), of ?n] by (simp add: loc Day_def)
  have lo: "DayFromYear 1923 \<le> ?n" by (rule DayFromYear_le_day_of_ymd[OF v(1,2)])
  have "DayFromYear 1922 \<le> ?n'"
    using lo nb DayFromYear_next[of 1922] leap_of_cases[of 1922] by auto
  then have year: "YearFromTime (LocalTime tz ?t) \<notin> {0..99}"
    unfolding YearFromTime_def by (rule year_of_day_above_99)
  have nrange: "\<bar>?n'\<bar> \<le> 700000" using day_of_ymd_bounds[OF v] nb by (simp add: abs_le_iff)
  have "\<bar>msPerDay * ?n' - tz\<bar> \<le> 8640000000000000"
    using nrange tz(2) by (simp add: msPerDay_def abs_le_iff)
  then have "dob_Date tz (prefill_date tz (Some ?t) g) = Some (msPerDay * ?n' - tz)"
    using dob_Date_prefill[OF year] by simp
  then show ?thesis
    using Timestamp_fromDate_whole[OF tz(1) nrange tz(2)] day by simp
qed

lemma label_value_sel [simp]: "label_value (sel_option x y) = Inr (sel_option x y)"
  by (simp add: label_value_def js_get_def sel_option_def)

lemma row_v2_cells:
  "row_v2 tz (k, d) = Inr r \<Longrightarrow>
     row_country r = get_prop (Country d) ''value'' \<and> row_city r = get_prop (City d) ''value''"
  by (auto simp: row_v2_def js_get_def split: sum.splits if_splits)

lemma row_v1_cells:
  "row_v1 tz (k, d) = Inr r \<Longrightarrow> row_country r = Country d \<and> row_city r = City d"
  by (auto simp: row_v1_def split: sum.splits)

text \<open>
  C1. West of UTC and at UTC (an offset in \<open>(-12h, 0]\<close>, in whole seconds), a date of
  birth entered in the form is stored as a timestamp of whole seconds, and the table
  shows that timestamp as the same calendar date, \<open>YYYY-MM-DD\<close>.
\<close>

theorem dob_display_west:
  assumes "f_year f = Some y" "f_month f = Some m" "f_day f = Some d"
    and "valid_ymd y m d" "1923 \<le> y" "y \<le> 2023"
    and "tz mod 1000 = 0" "- 43200000 < tz" "tz \<le> 0"
  shows "\<exists>ts. Timestamp_fromDate (dob_Date tz f) = Inr ts \<and> ts_nanos ts = 0
              \<and> dob_cell tz ts = Inr (iso_ymd y m d)"
proof -
  have tz: "\<bar>tz\<bar> \<le> msPerDay" using assms(8,9) by (simp add: msPerDay_def)
  obtain ts where ts: "Timestamp_fromDate (dob_Date tz f) = Inr ts"
    using stored_timestamp[OF assms(1-7) tz] by simp
  note sr = stored_then_read[OF assms(1-7) tz ts]
  have "date_fields (msPerDay * day_of_ymd y m d - 2 * tz) = (y, m - 1, d)"
    using shown_fields_west[OF assms(4,8,9)] .
  then have "dob_cell tz ts = Inr (iso_ymd y m d)"
    using sr dob_cell_time iso_date_fields by fastforce
  with ts sr show ?thesis by auto
qed

theorem dob_display_west_witness:
  "valid_ymd 1990 5 14 \<and>
   (\<exists>ts. Timestamp_fromDate (dob_Date (-18000000)
            \<lparr>f_id = None, f_name = ''Bob Smith'', f_year = Some 1990, f_month = Some 5,
             f_day = Some 14, f_country = opt ''Canada'', f_city = opt ''Ottawa''\<rparr>) = Inr ts
         \<and> ts_nanos ts = 0 \<and> dob_cell (-18000000) ts = Inr ''1990-05-14'')"
proof -
  have v: "valid_ymd 1990 5 14"
    by (simp add: valid_ymd_def days_in_month_def month_start_def leap_of_def DaysInYear_def)
  have iso: "iso_ymd 1990 5 14 = ''1990-05-14''"
    by (simp add: iso_ymd_def iso_year_def two_digits_def pad_zeros_def nat_str.simps digit_char_def)
  show ?thesis
    using dob_display_west[of "\<lparr>f_id = None, f_name = ''Bob Smith'', f_year = Some 1990,
          f_month = Some 5, f_day = Some 14, f_country = opt ''Canada'', f_city = opt ''Ottawa''\<rparr>"
          1990 5 14 "-18000000"] v iso
    by simp
qed

text \<open>
  C2. East of UTC (an offset in \<open>(0, 12h]\<close>), the table shows the calendar date of
  the day before the date entered: the stored instant is read back with the zone
  offset applied twice.
\<close>

theorem dob_display_east:
  assumes "f_year f = Some y" "f_month f = Some m" "f_day f = Some d"
    and "valid_ymd y m d" "1923 \<le> y" "y \<le> 2023"
    and "tz mod 1000 = 0" "0 < tz" "tz \<le> 43200000"
  shows "\<exists>ts. Timestamp_fromDate (dob_Date tz f) = Inr ts
              \<and> dob_cell tz ts = Inr (iso_date (msPerDay * (MakeDay y (m - 1) d - 1)))"
proof -
  have tz: "\<bar>tz\<bar> \<le> msPerDay" using assms(8,9) by (simp add: msPerDay_def)
  obtain ts where ts: "Timestamp_fromDate (dob_Date tz f) = Inr ts"
    using stored_timestamp[OF assms(1-7) tz] by simp
  note sr = stored_then_read[OF assms(1-7) tz ts]
  have m: "1 \<le> m" "m \<le> 12" using assms(4) by (simp_all add: valid_ymd_def)
  have "date_fields (msPerDay * day_of_ymd y m d - 2 * tz)
        = date_fields (msPerDay * (MakeDay y (m - 1) d - 1))"
    using shown_fields_east[OF assms(8,9)] MakeDay_valid[OF m] by (simp add: day_of_ymd_def)
  then have "iso_date (msPerDay * day_of_ymd y m d - 2 * tz) = iso_date (msPerDay * (MakeDay y (m - 1) d - 1))"
    by (simp add: iso_date_def date_fields_def)
  with ts sr show ?thesis using dob_cell_time by fastforce
qed

theorem dob_display_east_witness:
  "valid_ymd 1990 5 14 \<and>
   (\<exists>ts. Timestamp_fromDate (dob_Date 3600000
            \<lparr>f_id = None, f_name = ''Bob Smith'', f_year = Some 1990, f_month = Some 5,
             f_day = Some 14, f_country = opt ''Canada'', f_city = opt ''Ottawa''\<rparr>) = Inr ts
         \<and> dob_cell 3600000 ts = Inr ''1990-05-13'')"
proof -
  have v: "valid_ymd 1990 5 14"
    by (simp add: valid_ymd_def days_in_month_def month_start_def leap_of_def DaysInYear_def)
  have iso: "iso_date (msPerDay * (MakeDay 1990 (5 - 1) 14 - 1)) = ''1990-05-13''"
    by code_simp
  show ?thesis
    using dob_display_east[of "\<lparr>f_id = None, f_name = ''Bob Smith'', f_year = Some 1990,
          f_month = Some 5, f_day = Some 14, f_country = opt ''Canada'', f_city = opt ''Ottawa''\<rparr>"
          1990 5 14 3600000] v iso
    by simp
qed

text \<open>
  C3. Opening a stored record with the edit button and submitting the form unchanged
  stores its date of birth again shifted by \<open>(-tz) div msPerDay\<close> days: unchanged
  west of UTC, one day earlier east of UTC, so that in the east every edit moves the
  date of birth back by a day.
\<close>

theorem edit_resubmit_shift:
  assumes "f_year f = Some y" "f_month f = Some m" "f_day f = Some d"
    and "valid_ymd y m d" "1923 \<le> y" "y \<le> 2023"
    and "tz mod 1000 = 0" "\<bar>tz\<bar> \<le> msPerDay"
    and "Timestamp_fromDate (dob_Date tz f) = Inr (DateOfBirth doc)"
    and "row_v2 tz (k, doc) = Inr r"
  shows "Timestamp_fromDate (dob_Date tz (updateModal_v2 tz r g)) =
           Inr \<lparr>ts_seconds = ts_seconds (DateOfBirth doc) + 86400 * ((- tz) div msPerDay),
               ts_nanos = 0\<rparr>"
proof -
  note sr = stored_then_read[OF assms(1-8,9)]
  have rt: "row_time r = Some (msPerDay * day_of_ymd y m d - 2 * tz)"
    using row_v2_Inr[OF assms(10)] conjunct2[OF sr] by simp
  have "dob_Date tz (updateModal_v2 tz r g) = dob_Date tz (prefill_date tz (row_time r) g)"
    by (rule dob_Date_cong) (simp_all add: updateModal_v2_date)
  then show ?thesis
    using resubmit_date[OF assms(4-8), of g] rt conjunct1[OF sr] by (simp add: algebra_simps)
qed

theorem edit_resubmit_shift_witness:
  "Timestamp_fromDate (dob_Date 3600000
      \<lparr>f_id = None, f_name = ''Bob Smith'', f_year = Some 1990, f_month = Some 5, f_day = Some 14,
       f_country = opt ''Canada'', f_city = opt ''Ottawa''\<rparr>)
     = Inr \<lparr>ts_seconds = 642639600, ts_nanos = 0\<rparr>
   \<and> Timestamp_fromDate (dob_Date 3600000 (updateModal_v2 3600000
        \<lparr>row_name = ''Bob Smith'', row_dob = ''1990-05-13'', row_country = JStr ''Canada'',
         row_city = JStr ''Ottawa'', row_id = 0,
         row_data = \<lparr>City = opt ''Ottawa'', Country = opt ''Canada'',
                      DateOfBirth = \<lparr>ts_seconds = 642639600, ts_nanos = 0\<rparr>, Name = ''Bob Smith''\<rparr>,
         row_time = Some 642636000000\<rparr> empty_form))
     = Inr \<lparr>ts_seconds = 642553200, ts_nanos = 0\<rparr>"
proof -
  let ?f = "\<lparr>f_id = None, f_name = ''Bob Smith'', f_year = Some 1990, f_month = Some 5, f_day = Some 14,
       f_country = opt ''Canada'', f_city = opt ''Ottawa''\<rparr>"
  let ?doc = "\<lparr>City = opt ''Ottawa'', Country = opt ''Canada'',
                 DateOfBirth = \<lparr>ts_seconds = 642639600, ts_nanos = 0\<rparr>, Name = ''Bob Smith''\<rparr>"
  let ?r = "\<lparr>row_name = ''Bob Smith'', row_dob = ''1990-05-13'', row_country = JStr ''Canada'',
         row_city = JStr ''Ottawa'', row_id = 0, row_data = ?doc, row_time = Some 642636000000\<rparr>"
  have v: "valid_ymd 1990 5 14"
    by (simp add: valid_ymd_def days_in_month_def month_start_def leap_of_def DaysInYear_def)
  have ts: "Timestamp_fromDate (dob_Date 3600000 ?f) = Inr (DateOfBirth ?doc)"
    by code_simp
  have row: "row_v2 3600000 (0, ?doc) = Inr ?r"
    by code_simp
  have "Timestamp_fromDate (dob_Date 3600000 (updateModal_v2 3600000 ?r empty_form)) =
          Inr \<lparr>ts_seconds = ts_seconds (DateOfBirth ?doc) + 86400 * ((- 3600000) div msPerDay),
              ts_nanos = 0\<rparr>"
    by (rule edit_resubmit_shift[of ?f 1990 5 14 3600000 ?doc 0 ?r]) (simp_all add: v ts row msPerDay_def)
  then show ?thesis using ts by (simp add: msPerDay_def)
qed

text \<open>
  C4. West of UTC and at UTC (offset in \<open>(-24h, 0]\<close>), the edit dialog opened on a
  stored record shows the year, month and day that were entered when it was saved.
\<close>

theorem prefill_west:
  assumes "f_year f = Some y" "f_month f = Some m" "f_day f = Some d"
    and "valid_ymd y m d" "1923 \<le> y" "y \<le> 2023"
    and "tz mod 1000 = 0" "- msPerDay < tz" "tz \<le> 0"
    and "Timestamp_fromDate (dob_Date tz f) = Inr (DateOfBirth doc)"
    and "row_v2 tz (k, doc) = Inr r"
  shows "f_year (updateModal_v2 tz r g) = Some y \<and> f_month (updateModal_v2 tz r g) = Some m
         \<and> f_day (updateModal_v2 tz r g) = Some d"
proof -
  have tz: "\<bar>tz\<bar> \<le> msPerDay" using assms(8,9) by (simp add: msPerDay_def)
  note sr = stored_then_read[OF assms(1-7) tz assms(10)]
  have rt: "row_time r = Some (msPerDay * day_of_ymd y m d - 2 * tz)"
    using row_v2_Inr[OF assms(11)] conjunct2[OF sr] by simp
  have "date_fields (LocalTime tz (msPerDay * day_of_ymd y m d - 2 * tz)) = (y, m - 1, d)"
    by (rule local_fields_west[OF assms(4,8,9)])
  from prefill_date_fields[OF this, of g] rt show ?thesis
    by (simp add: updateModal_v2_date)
qed

theorem prefill_west_witness:
  "f_year (updateModal_v2 (-18000000)
        \<lparr>row_name = ''Bob Smith'', row_dob = ''1990-05-14'', row_country = JStr ''Canada'',
         row_city = JStr ''Ottawa'', row_id = 0,
         row_data = \<lparr>City = opt ''Ottawa'', Country = opt ''Canada'',
                      DateOfBirth = \<lparr>ts_seconds = 642661200, ts_nanos = 0\<rparr>, Name = ''Bob Smith''\<rparr>,
         row_time = Some 642679200000\<rparr> empty_form) = Some 1990
   \<and> f_day (updateModal_v2 (-18000000)
        \<lparr>row_name = ''Bob Smith'', row_dob = ''1990-05-14'', row_country = JStr ''Canada'',
         row_city = JStr ''Ottawa'', row_id = 0,
         row_data = \<lparr>City = opt ''Ottawa'', Country = opt ''Canada'',
                      DateOfBirth = \<lparr>ts_seconds = 642661200, ts_nanos = 0\<rparr>, Name = ''Bob Smith''\<rparr>,
         row_time = Some 642679200000\<rparr> empty_form) = Some 14"
proof -
  let ?f = "\<lparr>f_id = None, f_name = ''Bob Smith'', f_year = Some 1990, f_month = Some 5, f_day = Some 14,
       f_country = opt ''Canada'', f_city = opt ''Ottawa''\<rparr>"
  let ?doc = "\<lparr>City = opt ''Ottawa'', Country = opt ''Canada'',
                 DateOfBirth = \<lparr>ts_seconds = 642661200, ts_nanos = 0\<rparr>, Name = ''Bob Smith''\<rparr>"
  let ?r = "\<lparr>row_name = ''Bob Smith'', row_dob = ''1990-05-14'', row_country = JStr ''Canada'',
         row_city = JStr ''Ottawa'', row_id = 0, row_data = ?doc, row_time = Some 642679200000\<rparr>"
  have v: "valid_ymd 1990 5 14"
    by (simp add: valid_ymd_def days_in_month_def month_start_def leap_of_def DaysInYear_def)
  have ts: "Timestamp_fromDate (dob_Date (-18000000) ?f) = Inr (DateOfBirth ?doc)"
    by code_simp
  have row: "row_v2 (-18000000) (0, ?doc) = Inr ?r"
    by code_simp
  show ?thesis
    using prefill_west[of ?f 1990 5 14 "-18000000" ?doc 0 ?r empty_form] v ts row
    by (simp add: msPerDay_def)
qed

text \<open>
  C6. The year rule accepts exactly 1923..2023 at its boundaries: in a form that passes
  validation, year 1923 or 2023 still passes, and year 1922 or 2024 fails with exactly
  one error, on the year field.
\<close>

theorem year_boundaries:
  assumes "form_errors f = []"
  shows "form_errors (f\<lparr>f_year := Some 1923\<rparr>) = [] \<and> form_errors (f\<lparr>f_year := Some 2023\<rparr>) = []
         \<and> form_errors (f\<lparr>f_year := Some 1922\<rparr>) = [FYear]
         \<and> form_errors (f\<lparr>f_year := Some 2024\<rparr>) = [FYear]"
  using assms by (simp add: form_errors_def num_rule_ok_def split: if_splits)

theorem year_boundaries_witness:
  "form_errors \<lparr>f_id = None, f_name = ''Bob Smith'', f_year = Some 1990, f_month = Some 5,
       f_day = Some 14, f_country = opt ''Canada'', f_city = opt ''Ottawa''\<rparr> = []
   \<and> form_errors \<lparr>f_id = None, f_name = ''Bob Smith'', f_year = Some 2024, f_month = Some 5,
       f_day = Some 14, f_country = opt ''Canada'', f_city = opt ''Ottawa''\<rparr> = [FYear]"
proof -
  let ?f = "\<lparr>f_id = None, f_name = ''Bob Smith'', f_year = Some 1990, f_month = Some 5,
       f_day = Some 14, f_country = opt ''Canada'', f_city = opt ''Ottawa''\<rparr>"
  have ok: "form_errors ?f = []"
    by (simp add: form_errors_def num_rule_ok_def required_ok_def opt_def sel_option_def)
  show ?thesis using year_boundaries[OF ok] ok by simp
qed

text \<open>
  C17. The day rule only bounds the day by 31, so a day past the end of its month passes
  validation, and \<open>new Date(year, month - 1, day)\<close> carries it into the next month:
  the record is stored as that day of the following month (30 April becomes 1 May).
\<close>

theorem day_overflow_next_month:
  assumes "f_year f = Some y" "f_month f = Some m" "f_day f = Some d"
    and "1 \<le> m" "m \<le> 12" "days_in_month y m < d" "d \<le> 31" "1923 \<le> y"
  shows "FDay \<notin> set (form_errors f) \<and> dob_Date tz f = Date_ymd tz y m (d - days_in_month y m)"
proof -
  have "1 \<le> days_in_month y m" using assms(4,5) by (rule days_in_month_pos)
  then have "FDay \<notin> set (form_errors f)"
    using assms(3,6,7) by (simp add: form_errors_def num_rule_ok_def)
  moreover have "MakeFullYear y = y" using assms(8) by (simp add: MakeFullYear_def)
  ultimately show ?thesis
    using assms(1-3) MakeDay_overflow[OF assms(4,5), of y d]
    by (simp add: dob_Date_def input_num_def Date_ymd_def)
qed

theorem day_overflow_next_month_witness:
  "FDay \<notin> set (form_errors \<lparr>f_id = None, f_name = ''Al'', f_year = Some 2023, f_month = Some 4,
       f_day = Some 31, f_country = opt ''USA'', f_city = opt ''Chicago''\<rparr>)
   \<and> Date_toISOString (dob_Date 0 \<lparr>f_id = None, f_name = ''Al'', f_year = Some 2023, f_month = Some 4,
       f_day = Some 31, f_country = opt ''USA'', f_city = opt ''Chicago''\<rparr>)
       = Inr ''2023-05-01T00:00:00.000Z''"
proof -
  let ?f = "\<lparr>f_id = None, f_name = ''Al'', f_year = Some 2023, f_month = Some 4,
       f_day = Some 31, f_country = opt ''USA'', f_city = opt ''Chicago''\<rparr>"
  have dim: "days_in_month 2023 4 = 30"
    by (simp add: days_in_month_def month_start_def leap_of_def DaysInYear_def)
  have iso: "Date_toISOString (Date_ymd 0 2023 4 1) = Inr ''2023-05-01T00:00:00.000Z''"
    by code_simp
  show ?thesis
    using day_overflow_next_month[of ?f 2023 4 31 0] dim iso by simp
qed

text \<open>
  C18. The two versions disagree on the stored shape of country and city. v2 reads a
  record written by v1 (plain strings) with \<open>.value\<close>: the table shows an empty
  country, and submitting the edit dialog opened on it without choosing the country
  again sends \<open>undefined\<close> values, which the store refuses.
\<close>

theorem legacy_record_edit_rejected:
  assumes "Country doc = JStr c" "row_v2 tz (k, doc) = Inr r"
  shows "row_country r = JUndef
         \<and> (\<exists>w. payload_v2 tz (updateModal_v2 tz r g) = Inr w \<and> to_document w = Inl InvalidArgument)"
proof -
  have rd: "row_data r = doc" using row_v2_Inr[OF assms(2)] by simp
  have "row_country r = JUndef" using row_v2_cells[OF assms(2)] assms(1) by simp
  moreover have "f_country (updateModal_v2 tz r g) = sel_option JUndef JUndef"
    using rd assms(1) by (simp add: updateModal_v2_def prefill_date_def)
  ultimately show ?thesis
    by (auto simp: payload_v2_def updateModal_v2_def prefill_date_def to_document_def)
qed

theorem legacy_record_edit_rejected_witness:
  "row_country \<lparr>row_name = ''Bob Smith'', row_dob = ''1990-05-14'', row_country = JUndef,
      row_city = JUndef, row_id = 0,
      row_data = \<lparr>City = JStr ''Ottawa'', Country = JStr ''Canada'',
                   DateOfBirth = \<lparr>ts_seconds = 642661200, ts_nanos = 0\<rparr>, Name = ''Bob Smith''\<rparr>,
      row_time = Some 642679200000\<rparr> = JUndef
   \<and> (\<exists>w. payload_v2 (-18000000) (updateModal_v2 (-18000000)
      \<lparr>row_name = ''Bob Smith'', row_dob = ''1990-05-14'', row_country = JUndef,
       row_city = JUndef, row_id = 0,
       row_data = \<lparr>City = JStr ''Ottawa'', Country = JStr ''Canada'',
                    DateOfBirth = \<lparr>ts_seconds = 642661200, ts_nanos = 0\<rparr>, Name = ''Bob Smith''\<rparr>,
       row_time = Some 642679200000\<rparr> empty_form) = Inr w \<and> to_document w = Inl InvalidArgument)"
proof -
  let ?doc = "\<lparr>City = JStr ''Ottawa'', Country = JStr ''Canada'',
                 DateOfBirth = \<lparr>ts_seconds = 642661200, ts_nanos = 0\<rparr>, Name = ''Bob Smith''\<rparr>"
  let ?r = "\<lparr>row_name = ''Bob Smith'', row_dob = ''1990-05-14'', row_country = JUndef,
      row_city = JUndef, row_id = 0, row_data = ?doc, row_time = Some 642679200000\<rparr>"
  have row: "row_v2 (-18000000) (0, ?doc) = Inr ?r"
    by code_simp
  show ?thesis
    using legacy_record_edit_rejected[of ?doc "''Canada''" "-18000000" 0 ?r empty_form] row by simp
qed

text \<open>
  C19. Conversely, v1 renders \<open>doc.data().Country\<close> directly, so a record written by
  v2 (an object \<open>{value, label}\<close>) makes rendering its row throw.
\<close>

theorem v1_render_v2_record_throws:
  assumes "Country doc = sel_option v l" "row_v1 tz (k, doc) = Inr r"
  shows "render_row r = Inl TypeError"
proof -
  have "row_country r = Country doc" using row_v1_cells[OF assms(2)] by simp
  then show ?thesis
    using assms(1) by (simp add: render_row_def columns_def cell_def sel_option_def)
qed

theorem v1_render_v2_record_throws_witness:
  "render_row \<lparr>row_name = ''Bob Smith'', row_dob = ''1990-05-14'', row_country = opt ''Canada'',
      row_city = opt ''Ottawa'', row_id = 0,
      row_data = \<lparr>City = opt ''Ottawa'', Country = opt ''Canada'',
                   DateOfBirth = \<lparr>ts_seconds = 642661200, ts_nanos = 0\<rparr>, Name = ''Bob Smith''\<rparr>,
      row_time = Some 642679200000\<rparr> = Inl TypeError"
proof -
  let ?doc = "\<lparr>City = opt ''Ottawa'', Country = opt ''Canada'',
                 DateOfBirth = \<lparr>ts_seconds = 642661200, ts_nanos = 0\<rparr>, Name = ''Bob Smith''\<rparr>"
  let ?r = "\<lparr>row_name = ''Bob Smith'', row_dob = ''1990-05-14'', row_country = opt ''Canada'',
      row_city = opt ''Ottawa'', row_id = 0, row_data = ?doc, row_time = Some 642679200000\<rparr>"
  have row: "row_v1 (-18000000) (0, ?doc) = Inr ?r"
    by code_simp
  show ?thesis
    using v1_render_v2_record_throws[of ?doc "JStr ''Canada''" "JStr ''Canada''" "-18000000" 0 ?r] row
    by (simp add: opt_def)
qed

text \<open>
  C16. The date built on submit reads back as entered in the browser's zone: for valid
  form values, \<open>new Date(year, month - 1, day)\<close> is a valid date whose local year,
  month and day (\<open>getFullYear\<close>, \<open>getMonth\<close>, \<open>getDate\<close>) are the year, the
  zero-based month and the day of the form.
\<close>

theorem form_date_roundtrip:
  assumes "f_year f = Some y" "f_month f = Some m" "f_day f = Some d"
    and "valid_ymd y m d" "1923 \<le> y" "y \<le> 2023" "\<bar>tz\<bar> \<le> msPerDay"
  shows "Date_getFullYear tz (dob_Date tz f) = Some y \<and> Date_getMonth tz (dob_Date tz f) = Some (m - 1)
         \<and> Date_getDate tz (dob_Date tz f) = Some d"
proof -
  have t: "dob_Date tz f = Some (msPerDay * day_of_ymd y m d - tz)"
    using assms(1-3) Date_ymd_valid[OF assms(4-7)] by (simp add: dob_Date_def input_num_def)
  have "1 \<le> m" "m \<le> 12" using assms(4) by (simp_all add: valid_ymd_def)
  then have "date_fields (LocalTime tz (msPerDay * day_of_ymd y m d - tz)) = (y, m - 1, d)"
    using ymd_roundtrip[OF assms(4), of 0]
    by (simp add: LocalTime_def MakeDate_def MakeDay_valid day_of_ymd_def msPerDay_def algebra_simps)
  then show ?thesis
    using t by (simp add: Date_getFullYear_def Date_getMonth_def Date_getDate_def date_fields_def)
qed

theorem form_date_roundtrip_witness:
  "Date_getDate 3600000 (dob_Date 3600000 \<lparr>f_id = None, f_name = ''Bob Smith'',
      f_year = Some 1990, f_month = Some 5, f_day = Some 14,
      f_country = opt ''Canada'', f_city = opt ''Ottawa''\<rparr>) = Some 14"
proof -
  have v: "valid_ymd 1990 5 14"
    by (simp add: valid_ymd_def days_in_month_def month_start_def leap_of_def DaysInYear_def)
  show ?thesis
    using form_date_roundtrip[of _ 1990 5 14 3600000] v by (force simp: msPerDay_def)
qed

end
