(* ===== verification/Session.thy ===== *)
theory Session
  imports Form
begin

text \<open>
  The page as a state machine: the React state of \<open>App\<close> (modal visibility and type,
  the selected country and its city options, the table items), the form state held by
  react-hook-form, the store, and the messages written with \<open>console.error\<close>. Each
  user action is an event; \<open>step\<close> runs its handler and the effects React runs after
  it (the \<open>[visible]\<close> effect that reloads the table, the \<open>[country]\<close> effect that
  sets the city options). A flag \<open>ok\<close> per step says whether the store accepts the
  calls made in it. Asynchronous calls complete within the step that makes them.

  The handlers of the two versions differ where the code differs: the payload
  (\<open>payload_v1\<close>/\<open>payload_v2\<close>), the rows (\<open>row_v1\<close>/\<open>row_v2\<close>), \<open>updateModal\<close>
  and \<open>resetValues\<close>.
\<close>

datatype version = V1 | V2

record app_state =
  visible :: bool
  modalType :: string
  form :: form_values
  errors :: "field list"
  country_st :: jsv
  city_options :: "jsv list"
  items :: "row list"
  db :: firestore
  console :: "string list"

text \<open>The initial state of \<open>App\<close> before its first effect.\<close>

definition init_state :: "firestore \<Rightarrow> app_state" where
  "init_state st =
     \<lparr>visible = False, modalType = [], form = empty_form, errors = [], country_st = JStr [],
      city_options = [], items = [], db = st, console = []\<rparr>"

section \<open>Form library operations\<close>

text \<open>
  react-hook-form's \<open>reset()\<close> as this page experiences it: the text and number inputs
  and the two selects return to their empty defaults and the errors are cleared, but
  the hidden \<open>id\<close> input keeps its value (a form reset does not change a hidden input,
  and the library reads the field back from the element). \<open>reset({ city: "" })\<close> on a
  country change leaves the uncontrolled inputs as they are and empties the city.
\<close>

definition rhf_reset :: "form_values \<Rightarrow> form_values" where
  "rhf_reset f = empty_form\<lparr>f_id := f_id f\<rparr>"

section \<open>The handlers\<close>

text \<open>\<open>getInfo\<close>: list the documents and rebuild the items. It has no \<open>catch\<close>: a
  rejected call or an exception while building a row leaves the items as they were.\<close>

definition row_of :: "version \<Rightarrow> int \<Rightarrow> doc_id \<times> user_doc \<Rightarrow> js_error + row" where
  "row_of v tz = (case v of V1 \<Rightarrow> row_v1 tz | V2 \<Rightarrow> row_v2 tz)"

definition getInfo :: "version \<Rightarrow> int \<Rightarrow> bool \<Rightarrow> app_state \<Rightarrow> app_state" where
  "getInfo v tz ok s =
     (case getDocs ok (db s) of
        Inl _ \<Rightarrow> s
      | Inr ds \<Rightarrow> (case rows_of (row_of v tz) ds of Inl _ \<Rightarrow> s | Inr rs \<Rightarrow> s\<lparr>items := rs\<rparr>))"

definition log_error :: "string \<Rightarrow> app_state \<Rightarrow> app_state" where
  "log_error msg s = s\<lparr>console := console s @ [msg]\<rparr>"

text \<open>\<open>deleteInfo(id)\<close>: delete, then reload; a failure is logged.\<close>

definition deleteInfo :: "version \<Rightarrow> int \<Rightarrow> bool \<Rightarrow> doc_id \<Rightarrow> app_state \<Rightarrow> app_state" where
  "deleteInfo v tz ok k s =
     (case deleteDoc ok k (db s) of
        Inl _ \<Rightarrow> log_error ''Error deleting document: '' s
      | Inr st' \<Rightarrow> getInfo v tz ok (s\<lparr>db := st'\<rparr>))"

definition setModalValueType :: "string \<Rightarrow> app_state \<Rightarrow> app_state" where
  "setModalValueType t s = s\<lparr>modalType := t, visible := True\<rparr>"

text \<open>v1 (\<open>src/App.jsx\<close>): \<open>setVisible(false); reset()\<close>.\<close>

definition resetValues_v1 :: "app_state \<Rightarrow> app_state" where
  "resetValues_v1 s = s\<lparr>visible := False, form := rhf_reset (form s), errors := []\<rparr>"

text \<open>v2 (\<open>Modal.jsx\<close>): also \<open>setValue('id', "")\<close>, \<open>setValue('country', "")\<close>,
  \<open>setValue('city', "")\<close>.\<close>

definition resetValues_v2 :: "app_state \<Rightarrow> app_state" where
  "resetValues_v2 s =
     s\<lparr>visible := False, errors := [],
       form := (rhf_reset (form s))\<lparr>f_id := None, f_country := JStr [], f_city := JStr []\<rparr>\<rparr>"

definition resetValues :: "version \<Rightarrow> app_state \<Rightarrow> app_state" where
  "resetValues v = (case v of V1 \<Rightarrow> resetValues_v1 | V2 \<Rightarrow> resetValues_v2)"

definition payload :: "version \<Rightarrow> int \<Rightarrow> form_values \<Rightarrow> js_error + write_data" where
  "payload v = (case v of V1 \<Rightarrow> payload_v1 | V2 \<Rightarrow> payload_v2)"

text \<open>\<open>onSubmit(data)\<close>: \<open>setDoc\<close> when the hidden id is set, \<open>addDoc\<close> otherwise, then
  \<open>resetValues()\<close>; any exception is caught and logged and the modal stays open.\<close>

definition onSubmit :: "version \<Rightarrow> int \<Rightarrow> bool \<Rightarrow> app_state \<Rightarrow> app_state" where
  "onSubmit v tz ok s =
     (let fail = log_error ''Error adding/updating document: '' s in
      case payload v tz (form s) of
        Inl _ \<Rightarrow> fail
      | Inr w \<Rightarrow>
          (case f_id (form s) of
             Some k \<Rightarrow> (case setDoc ok k w (db s) of
                          Inl _ \<Rightarrow> fail
                        | Inr st' \<Rightarrow> resetValues v (s\<lparr>db := st'\<rparr>))
           | None \<Rightarrow> (case addDoc ok w (db s) of
                        Inl _ \<Rightarrow> fail
                      | Inr (_, st') \<Rightarrow> resetValues v (s\<lparr>db := st'\<rparr>))))"

text \<open>\<open>handleSubmit(onSubmit)\<close>: validate, record the errors, call \<open>onSubmit\<close> only
  when there are none.\<close>

definition handleSubmit :: "version \<Rightarrow> int \<Rightarrow> bool \<Rightarrow> app_state \<Rightarrow> app_state" where
  "handleSubmit v tz ok s =
     (if form_errors (form s) \<noteq> [] then s\<lparr>errors := form_errors (form s)\<rparr>
      else onSubmit v tz ok (s\<lparr>errors := []\<rparr>))"

text \<open>The country select's \<open>onChange\<close>: \<open>reset({ 'city': "" }); setValue('country', e);
  setCountry(e.value)\<close>, then the \<open>[country]\<close> effect.\<close>

definition country_onChange :: "jsv \<Rightarrow> app_state \<Rightarrow> app_state" where
  "country_onChange e s =
     (let c = get_prop e ''value'' in
      s\<lparr>form := (form s)\<lparr>f_city := JStr [], f_country := e\<rparr>, errors := [], country_st := c,
        city_options := city_options_effect c (city_options s)\<rparr>)"

definition updateModal :: "version \<Rightarrow> int \<Rightarrow> row \<Rightarrow> form_values \<Rightarrow> form_values" where
  "updateModal v = (case v of V1 \<Rightarrow> updateModal_v1 | V2 \<Rightarrow> updateModal_v2)"

section \<open>Events and steps\<close>

datatype event =
    ClickAdd
  | ClickEdit nat
  | ClickDelete nat
  | TypeName string
  | TypeYear "int option"
  | TypeMonth "int option"
  | TypeDay "int option"
  | PickCountry nat
  | PickCity nat
  | SubmitForm
  | CloseModal
  | RemoteDelete doc_id

text \<open>The \<open>[visible]\<close> effect: whenever a handler changed the visibility, \<open>getInfo\<close> runs.\<close>

definition visible_effect :: "version \<Rightarrow> int \<Rightarrow> bool \<Rightarrow> app_state \<Rightarrow> app_state \<Rightarrow> app_state" where
  "visible_effect v tz ok s s' = (if visible s' \<noteq> visible s then getInfo v tz ok s' else s')"

text \<open>
  The page's buttons are covered by the modal while it is open (\<open>backdrop="static"\<close>),
  the form's controls exist only while it is open, and a row or option index must
  exist; an event that is not possible leaves the state unchanged.
\<close>

fun handle :: "version \<Rightarrow> int \<Rightarrow> bool \<Rightarrow> event \<Rightarrow> app_state \<Rightarrow> app_state" where
  "handle v tz ok ClickAdd s =
     (if visible s then s else setModalValueType ''Add'' s)"
| "handle v tz ok (ClickEdit i) s =
     (if visible s \<or> length (items s) \<le> i then s
      else setModalValueType ''Edit'' (s\<lparr>form := updateModal v tz (items s ! i) (form s)\<rparr>))"
| "handle v tz ok (ClickDelete i) s =
     (if visible s \<or> length (items s) \<le> i then s else deleteInfo v tz ok (row_id (items s ! i)) s)"
| "handle v tz ok (TypeName x) s =
     (if visible s then s\<lparr>form := (form s)\<lparr>f_name := x\<rparr>\<rparr> else s)"
| "handle v tz ok (TypeYear x) s =
     (if visible s then s\<lparr>form := (form s)\<lparr>f_year := x\<rparr>\<rparr> else s)"
| "handle v tz ok (TypeMonth x) s =
     (if visible s then s\<lparr>form := (form s)\<lparr>f_month := x\<rparr>\<rparr> else s)"
| "handle v tz ok (TypeDay x) s =
     (if visible s then s\<lparr>form := (form s)\<lparr>f_day := x\<rparr>\<rparr> else s)"
| "handle v tz ok (PickCountry i) s =
     (if \<not> visible s \<or> length optionsCountry \<le> i then s
      else country_onChange (optionsCountry ! i) s)"
| "handle v tz ok (PickCity i) s =
     (if \<not> visible s \<or> length (city_options s) \<le> i then s
      else s\<lparr>form := (form s)\<lparr>f_city := city_options s ! i\<rparr>\<rparr>)"
| "handle v tz ok SubmitForm s =
     (if visible s then handleSubmit v tz ok s else s)"
| "handle v tz ok CloseModal s =
     (if visible s then resetValues v s else s)"
| "handle v tz ok (RemoteDelete k) s =
     s\<lparr>db := (db s)\<lparr>docs := del_docs k (docs (db s))\<rparr>\<rparr>"

definition step :: "version \<Rightarrow> int \<Rightarrow> bool \<Rightarrow> event \<Rightarrow> app_state \<Rightarrow> app_state" where
  "step v tz ok e s = visible_effect v tz ok s (handle v tz ok e s)"

text \<open>Mounting \<open>App\<close> runs the \<open>[visible]\<close> effect once.\<close>

definition mount :: "version \<Rightarrow> int \<Rightarrow> bool \<Rightarrow> firestore \<Rightarrow> app_state" where
  "mount v tz ok st = getInfo v tz ok (init_state st)"

fun run :: "version \<Rightarrow> int \<Rightarrow> (bool \<times> event) list \<Rightarrow> app_state \<Rightarrow> app_state" where
  "run v tz [] s = s"
| "run v tz ((ok, e) # es) s = run v tz es (step v tz ok e s)"

inductive reachable :: "version \<Rightarrow> int \<Rightarrow> firestore \<Rightarrow> app_state \<Rightarrow> bool" where
  start: "reachable v tz st0 (mount v tz ok st0)"
| step: "reachable v tz st0 s \<Longrightarrow> reachable v tz st0 (step v tz ok e s)"

section \<open>Invariants\<close>

text \<open>Identifiers: the store is well formed and every id the page holds (the hidden
  input, the rows' buttons) was issued by it.\<close>

definition ids_ok :: "app_state \<Rightarrow> bool" where
  "ids_ok s \<longleftrightarrow> store_inv (db s) \<and> (\<forall>k. f_id (form s) = Some k \<longrightarrow> k < next_id (db s))
                 \<and> (\<forall>r \<in> set (items s). row_id r < next_id (db s))"

text \<open>v2's add dialog: a closed modal, and an open \<open>Add\<close> dialog, hold no hidden id.\<close>

definition add_form_clean :: "app_state \<Rightarrow> bool" where
  "add_form_clean s \<longleftrightarrow>
     (\<not> visible s \<longrightarrow> f_id (form s) = None) \<and> (modalType s = ''Add'' \<longrightarrow> f_id (form s) = None)"

text \<open>The city options are those the \<open>[country]\<close> effect computes from the country state,
  which is empty or a country of the catalogue.\<close>

definition options_ok :: "app_state \<Rightarrow> bool" where
  "options_ok s \<longleftrightarrow>
     city_options s = city_options_effect (country_st s) []
     \<and> country_st s \<in> set [JStr [], JStr ''Canada'', JStr ''USA'']"

section \<open>Lemmas: rows and reloading\<close>

lemma rows_of_Inr: "rows_of mk xs = Inr rs \<Longrightarrow> r \<in> set rs \<Longrightarrow> \<exists>x \<in> set xs. mk x = Inr r"
proof (induction xs arbitrary: rs)
  case Nil
  then show ?case by simp
next
  case (Cons x xs)
  then obtain r0 rs' where "mk x = Inr r0" "rows_of mk xs = Inr rs'" "rs = r0 # rs'"
    by (auto split: sum.splits)
  with Cons show ?case by auto
qed

lemma row_of_Inr:
  "row_of v tz (k, d) = Inr r \<Longrightarrow>
     row_id r = k \<and> row_data r = d \<and> row_time r = dob_time tz (DateOfBirth d)"
  by (cases v) (simp_all add: row_of_def row_v1_Inr row_v2_Inr)

lemma rows_of_row_of:
  assumes "rows_of (row_of v tz) ds = Inr rs" "r \<in> set rs"
  shows "(row_id r, row_data r) \<in> set ds \<and> row_time r = dob_time tz (DateOfBirth (row_data r))"
proof -
  obtain k d where "(k, d) \<in> set ds" "row_of v tz (k, d) = Inr r"
    using rows_of_Inr[OF assms] by auto
  then show ?thesis using row_of_Inr by fastforce
qed

lemma getInfo_cases:
  "getInfo v tz ok s = s \<or>
   (\<exists>rs. getInfo v tz ok s = s\<lparr>items := rs\<rparr> \<and> rows_of (row_of v tz) (docs (db s)) = Inr rs)"
  by (auto simp: getInfo_def getDocs_def split: sum.splits)

lemma getInfo_fields [simp]:
  "db (getInfo v tz ok s) = db s" "form (getInfo v tz ok s) = form s"
  "visible (getInfo v tz ok s) = visible s" "modalType (getInfo v tz ok s) = modalType s"
  "country_st (getInfo v tz ok s) = country_st s" "city_options (getInfo v tz ok s) = city_options s"
  "errors (getInfo v tz ok s) = errors s" "console (getInfo v tz ok s) = console s"
  by (auto simp: getInfo_def split: sum.splits)

lemma visible_effect_cases:
  "visible_effect v tz ok s s' = s' \<or> visible_effect v tz ok s s' = getInfo v tz ok s'"
  by (simp add: visible_effect_def)

section \<open>Lemmas: identifiers\<close>

lemma store_inv_del_docs: "store_inv st \<Longrightarrow> store_inv (st\<lparr>docs := del_docs k (docs st)\<rparr>)"
  using deleteDoc_inv[of st True k] by (simp add: deleteDoc_def)

lemma getInfo_ids_ok: "ids_ok s \<Longrightarrow> ids_ok (getInfo v tz ok s)"
  using getInfo_cases[of v tz ok s]
  by (auto simp: ids_ok_def store_inv_def dest!: rows_of_row_of)

lemma visible_effect_ids_ok: "ids_ok s' \<Longrightarrow> ids_ok (visible_effect v tz ok s s')"
  using visible_effect_cases[of v tz ok s s'] getInfo_ids_ok by metis

lemma resetValues_ids_ok: "ids_ok s \<Longrightarrow> ids_ok (resetValues v s)"
  by (cases v) (simp_all add: resetValues_def resetValues_v1_def resetValues_v2_def ids_ok_def
                             rhf_reset_def)

lemma resetValues_db [simp]: "db (resetValues v s) = db s"
  by (cases v) (simp_all add: resetValues_def resetValues_v1_def resetValues_v2_def)

lemma onSubmit_ids_ok: "ids_ok s \<Longrightarrow> ids_ok (onSubmit v tz ok s)"
proof -
  assume inv: "ids_ok s"
  have log: "ids_ok (log_error m s)" for m using inv by (simp add: log_error_def ids_ok_def)
  have set: "ids_ok (resetValues v (s\<lparr>db := st'\<rparr>))"
    if "f_id (form s) = Some k" "setDoc ok k w (db s) = Inr st'" for k w st'
  proof -
    have "store_inv st'" using inv that setDoc_inv by (auto simp: ids_ok_def)
    moreover have "next_id st' = next_id (db s)" using that(2) by (rule next_id_mono_setDoc)
    ultimately show ?thesis using inv by (intro resetValues_ids_ok) (simp add: ids_ok_def)
  qed
  have add: "ids_ok (resetValues v (s\<lparr>db := st'\<rparr>))"
    if "addDoc ok w (db s) = Inr (k, st')" for k w st'
  proof -
    have "store_inv st'" using inv that addDoc_inv by (auto simp: ids_ok_def)
    moreover have "next_id st' = Suc (next_id (db s))" using that by (auto simp: addDoc_Inr)
    ultimately show ?thesis using inv by (intro resetValues_ids_ok) (auto simp: ids_ok_def)
  qed
  show ?thesis
    using log set add unfolding onSubmit_def Let_def
    by (auto split: sum.splits option.splits prod.splits)
qed

lemma handleSubmit_ids_ok: "ids_ok s \<Longrightarrow> ids_ok (handleSubmit v tz ok s)"
  using onSubmit_ids_ok[of "s\<lparr>errors := []\<rparr>"] by (simp add: handleSubmit_def ids_ok_def)

lemma deleteInfo_ids_ok:
  assumes "ids_ok s"
  shows "ids_ok (deleteInfo v tz ok k s)"
proof (cases "deleteDoc ok k (db s)")
  case (Inl e)
  with assms show ?thesis by (simp add: deleteInfo_def log_error_def ids_ok_def)
next
  case (Inr st')
  then have "store_inv st'" "next_id st' = next_id (db s)"
    using assms deleteDoc_inv next_id_mono_deleteDoc by (auto simp: ids_ok_def)
  with assms have "ids_ok (s\<lparr>db := st'\<rparr>)" by (simp add: ids_ok_def)
  with Inr show ?thesis by (simp add: deleteInfo_def getInfo_ids_ok)
qed

lemma updateModal_id:
  "f_id (updateModal v tz r f) = Some (row_id r)"
  by (cases v) (simp_all add: updateModal_def updateModal_v1_def updateModal_v2_def prefill_date_def)

lemma handle_ids_ok:
  assumes "ids_ok s"
  shows "ids_ok (handle v tz ok e s)"
proof (cases e)
  case (ClickEdit i)
  with assms show ?thesis by (auto simp: ids_ok_def setModalValueType_def updateModal_id)
next
  case (ClickDelete i)
  with assms show ?thesis by (simp add: deleteInfo_ids_ok)
next
  case SubmitForm
  with assms show ?thesis by (simp add: handleSubmit_ids_ok)
next
  case CloseModal
  with assms show ?thesis by (simp add: resetValues_ids_ok)
next
  case (RemoteDelete k)
  with assms show ?thesis by (auto simp: ids_ok_def store_inv_del_docs)
qed (use assms in \<open>auto simp: ids_ok_def setModalValueType_def country_onChange_def Let_def\<close>)

lemma step_ids_ok: "ids_ok s \<Longrightarrow> ids_ok (step v tz ok e s)"
  unfolding step_def by (intro visible_effect_ids_ok handle_ids_ok)

lemma mount_ids_ok: "store_inv st \<Longrightarrow> ids_ok (mount v tz ok st)"
  unfolding mount_def
  by (rule getInfo_ids_ok) (simp add: ids_ok_def init_state_def empty_form_def)

lemma reachable_ids_ok: "reachable v tz st0 s \<Longrightarrow> store_inv st0 \<Longrightarrow> ids_ok s"
  by (induction rule: reachable.induct) (simp_all add: mount_ids_ok step_ids_ok)

section \<open>Lemmas: the handlers' effect on the rest of the state\<close>

lemma resetValues_fields [simp]:
  "visible (resetValues v s) = False" "modalType (resetValues v s) = modalType s"
  "country_st (resetValues v s) = country_st s" "city_options (resetValues v s) = city_options s"
  "items (resetValues v s) = items s" "console (resetValues v s) = console s"
  by (cases v; simp add: resetValues_def resetValues_v1_def resetValues_v2_def)+

lemma log_error_fields [simp]:
  "db (log_error m s) = db s" "form (log_error m s) = form s" "visible (log_error m s) = visible s"
  "modalType (log_error m s) = modalType s" "country_st (log_error m s) = country_st s"
  "city_options (log_error m s) = city_options s" "items (log_error m s) = items s"
  by (simp_all add: log_error_def)

lemma deleteInfo_fields [simp]:
  "form (deleteInfo v tz ok k s) = form s" "visible (deleteInfo v tz ok k s) = visible s"
  "modalType (deleteInfo v tz ok k s) = modalType s"
  "country_st (deleteInfo v tz ok k s) = country_st s"
  "city_options (deleteInfo v tz ok k s) = city_options s"
  by (auto simp: deleteInfo_def split: sum.splits)

lemma onSubmit_cases:
  "onSubmit v tz ok s = log_error ''Error adding/updating document: '' s
   \<or> (\<exists>st'. onSubmit v tz ok s = resetValues v (s\<lparr>db := st'\<rparr>))"
  by (auto simp: onSubmit_def Let_def split: sum.splits option.splits prod.splits)

lemma step_same_visible:
  "visible (handle v tz ok e s) = visible s \<Longrightarrow> step v tz ok e s = handle v tz ok e s"
  by (simp add: step_def visible_effect_def)

lemma reachable_run: "reachable v tz st0 s \<Longrightarrow> reachable v tz st0 (run v tz es s)"
  by (induction v tz es s rule: run.induct) (auto intro: reachable.step)

lemmas state_field_simps = getInfo_fields resetValues_fields log_error_fields deleteInfo_fields

section \<open>Lemmas: the add dialog of v2\<close>

lemma onSubmit_v2_clean: "add_form_clean s \<Longrightarrow> add_form_clean (onSubmit V2 tz ok s)"
  using onSubmit_cases[of V2 tz ok s]
  by (auto simp: add_form_clean_def resetValues_def resetValues_v2_def)

lemma handle_v2_clean:
  assumes "add_form_clean s"
  shows "add_form_clean (handle V2 tz ok e s)"
proof (cases e)
  case SubmitForm
  then show ?thesis
    using assms onSubmit_v2_clean[of "s\<lparr>errors := []\<rparr>" tz ok]
    by (auto simp: handleSubmit_def add_form_clean_def)
next
  case CloseModal
  then show ?thesis
    using assms by (simp add: add_form_clean_def resetValues_def resetValues_v2_def)
qed (use assms in \<open>auto simp: add_form_clean_def setModalValueType_def country_onChange_def Let_def\<close>)

lemma step_v2_clean: "add_form_clean s \<Longrightarrow> add_form_clean (step V2 tz ok e s)"
  using visible_effect_cases[of V2 tz ok s "handle V2 tz ok e s"] handle_v2_clean[of s tz ok e]
  by (auto simp: step_def add_form_clean_def)

lemma reachable_v2_clean: "reachable v tz st0 s \<Longrightarrow> v = V2 \<Longrightarrow> add_form_clean s"
proof (induction rule: reachable.induct)
  case start
  then show ?case by (simp add: mount_def add_form_clean_def init_state_def empty_form_def)
next
  case step
  then show ?case by (simp add: step_v2_clean)
qed

section \<open>Lemmas: city options\<close>

lemma optionsCountry_cases:
  "i < length optionsCountry \<Longrightarrow> optionsCountry ! i = opt ''Canada'' \<or> optionsCountry ! i = opt ''USA''"
  by (auto simp: optionsCountry_def less_Suc_eq nth_Cons')

lemma country_onChange_options_ok:
  "i < length optionsCountry \<Longrightarrow> options_ok (country_onChange (optionsCountry ! i) s)"
  using optionsCountry_cases[of i]
  by (auto simp: options_ok_def country_onChange_def Let_def city_options_effect_def opt_def)

lemma onSubmit_options_ok: "options_ok s \<Longrightarrow> options_ok (onSubmit v tz ok s)"
  using onSubmit_cases[of v tz ok s] by (auto simp: options_ok_def)

lemma handle_options_ok:
  assumes "options_ok s"
  shows "options_ok (handle v tz ok e s)"
proof (cases e)
  case (PickCountry i)
  then show ?thesis using assms country_onChange_options_ok[of i s] by simp
next
  case SubmitForm
  then show ?thesis
    using assms onSubmit_options_ok[of "s\<lparr>errors := []\<rparr>" v tz ok]
    by (auto simp: handleSubmit_def options_ok_def)
qed (use assms in \<open>auto simp: options_ok_def setModalValueType_def\<close>)

lemma step_options_ok: "options_ok s \<Longrightarrow> options_ok (step v tz ok e s)"
  using visible_effect_cases[of v tz ok s "handle v tz ok e s"] handle_options_ok[of s v tz ok e]
  by (auto simp: step_def options_ok_def)

lemma reachable_options_ok: "reachable v tz st0 s \<Longrightarrow> options_ok s"
proof (induction rule: reachable.induct)
  case start
  then show ?case by (simp add: mount_def options_ok_def init_state_def city_options_effect_def)
next
  case step
  then show ?case by (simp add: step_options_ok)
qed

section \<open>Lemmas: a refusing store\<close>

lemma setDoc_refused: "setDoc False k w st = Inl (case to_document w of Inl e \<Rightarrow> e | Inr _ \<Rightarrow> Unavailable)"
  by (simp add: setDoc_def split: sum.split)

lemma addDoc_refused: "addDoc False w st = Inl (case to_document w of Inl e \<Rightarrow> e | Inr _ \<Rightarrow> Unavailable)"
  by (simp add: addDoc_def split: sum.split)

lemma onSubmit_refused: "onSubmit v tz False s = log_error ''Error adding/updating document: '' s"
  by (simp add: onSubmit_def Let_def setDoc_refused addDoc_refused split: sum.split option.split)

section \<open>Lemmas: reload and edit\<close>

lemma rows_of_row_of_list:
  "rows_of (row_of v tz) ds = Inr rs \<Longrightarrow> map (\<lambda>r. (row_id r, row_data r)) rs = ds"
proof (induction ds arbitrary: rs)
  case Nil
  then show ?case by simp
next
  case (Cons x ds)
  obtain k d where x: "x = (k, d)" by (cases x)
  from Cons.prems obtain r rs' where "row_of v tz (k, d) = Inr r" "rows_of (row_of v tz) ds = Inr rs'"
    "rs = r # rs'"
    unfolding x by (auto split: sum.splits)
  with Cons.IH x show ?case by (simp add: row_of_Inr)
qed

lemma submit_edit:
  assumes "visible s" "f_id (form s) = Some k" "form_errors (form s) = []"
    and "payload v tz (form s) = Inr w" "to_document w = Inr d"
  shows "step v tz True SubmitForm s
         = getInfo v tz True (resetValues v (s\<lparr>errors := [], db := (db s)\<lparr>docs := upd_docs k d (docs (db s))\<rparr>\<rparr>))"
proof -
  have "setDoc True k w (db s) = Inr ((db s)\<lparr>docs := upd_docs k d (docs (db s))\<rparr>)"
    using assms(5) by (simp add: setDoc_def)
  then show ?thesis
    using assms(1-4) by (simp add: step_def visible_effect_def handleSubmit_def onSubmit_def)
qed

section \<open>Properties of the page\<close>

text \<open>
  C5. Submitting a form that fails validation makes no store call and does not close the
  dialog: the state is unchanged except that the errors shown are those of the failed
  rules, in the order of the fields.
\<close>

theorem submit_invalid_no_store:
  assumes "visible s" "form_errors (form s) \<noteq> []"
  shows "step v tz ok SubmitForm s = s\<lparr>errors := form_errors (form s)\<rparr>"
  using assms by (simp add: step_def visible_effect_def handleSubmit_def)

theorem submit_invalid_no_store_witness:
  "step V2 0 True SubmitForm (setModalValueType ''Add'' (init_state empty_store))
   = (setModalValueType ''Add'' (init_state empty_store))
       \<lparr>errors := [FName, FYear, FMonth, FDay, FCountry, FCity]\<rparr>"
proof -
  have e: "form_errors (form (setModalValueType ''Add'' (init_state empty_store)))
           = [FName, FYear, FMonth, FDay, FCountry, FCity]"
    by (simp add: setModalValueType_def init_state_def empty_form_def form_errors_def
                  num_rule_ok_def required_ok_def)
  show ?thesis
    using submit_invalid_no_store[of "setModalValueType ''Add'' (init_state empty_store)" V2 0 True] e
    by (simp add: setModalValueType_def)
qed

text \<open>
  C7. A valid submission of the add dialog, when the store accepts it, creates exactly one
  record, under an id not in use, holding the converted payload, and closes the dialog.
\<close>

theorem add_creates_one:
  assumes "visible s" "f_id (form s) = None" "form_errors (form s) = []" "store_inv (db s)"
    and "payload v tz (form s) = Inr w" "to_document w = Inr d"
  shows "lookup (db s) (next_id (db s)) = None
         \<and> lookup (db (step v tz True SubmitForm s)) = (lookup (db s))(next_id (db s) \<mapsto> d)
         \<and> \<not> visible (step v tz True SubmitForm s)"
proof -
  let ?st' = "(db s)\<lparr>docs := docs (db s) @ [(next_id (db s), d)], next_id := Suc (next_id (db s))\<rparr>"
  have add: "addDoc True w (db s) = Inr (next_id (db s), ?st')"
    using assms(6) by (simp add: addDoc_def)
  have h: "handle v tz True SubmitForm s = resetValues v (s\<lparr>errors := [], db := ?st'\<rparr>)"
    using assms(1,2,3,5) add by (simp add: handleSubmit_def onSubmit_def)
  then have "db (step v tz True SubmitForm s) = ?st'" "\<not> visible (step v tz True SubmitForm s)"
    using assms(1) by (simp_all add: step_def visible_effect_def)
  then show ?thesis using lookup_addDoc[OF assms(4) add assms(6)] by simp
qed

theorem add_creates_one_witness:
  "lookup (db (step V2 (-18000000) True SubmitForm
      ((setModalValueType ''Add'' (init_state empty_store))\<lparr>form :=
         \<lparr>f_id = None, f_name = ''Bob Smith'', f_year = Some 1990, f_month = Some 5, f_day = Some 14,
          f_country = opt ''Canada'', f_city = opt ''Ottawa''\<rparr>\<rparr>))) 0
   = Some \<lparr>City = opt ''Ottawa'', Country = opt ''Canada'',
           DateOfBirth = \<lparr>ts_seconds = 642661200, ts_nanos = 0\<rparr>, Name = ''Bob Smith''\<rparr>"
proof -
  let ?f = "\<lparr>f_id = None, f_name = ''Bob Smith'', f_year = Some 1990, f_month = Some 5, f_day = Some 14,
          f_country = opt ''Canada'', f_city = opt ''Ottawa''\<rparr>"
  let ?s = "(setModalValueType ''Add'' (init_state empty_store))\<lparr>form := ?f\<rparr>"
  let ?w = "\<lparr>wd_City = opt ''Ottawa'', wd_Country = opt ''Canada'',
             wd_DateOfBirth = Some 642661200000, wd_Name = ''Bob Smith''\<rparr>"
  let ?d = "\<lparr>City = opt ''Ottawa'', Country = opt ''Canada'',
           DateOfBirth = \<lparr>ts_seconds = 642661200, ts_nanos = 0\<rparr>, Name = ''Bob Smith''\<rparr>"
  have v: "form_errors ?f = []"
    by (simp add: form_errors_def num_rule_ok_def required_ok_def opt_def sel_option_def)
  have p: "payload V2 (-18000000) ?f = Inr ?w"
    by code_simp
  have t: "to_document ?w = Inr ?d"
    by (simp add: to_document_def Timestamp_fromDate_def opt_def)
  have i: "store_inv (db ?s)"
    using store_inv_empty by (simp add: setModalValueType_def init_state_def)
  show ?thesis
    using add_creates_one[of ?s V2 "-18000000" ?w ?d] v p t i
    by (simp add: setModalValueType_def init_state_def empty_store_def lookup_def)
qed

text \<open>
  C8. In v2 the hidden id is cleared whenever the dialog closes, so in every reachable
  state an open add dialog holds no id: a submission from it always creates a record
  (\<open>addDoc\<close>) and never overwrites one.
\<close>

theorem v2_add_dialog_has_no_id:
  assumes "reachable V2 tz st0 s" "modalType s = ''Add''"
  shows "f_id (form s) = None"
  using reachable_v2_clean[OF assms(1)] assms(2) by (simp add: add_form_clean_def)

theorem v2_add_dialog_has_no_id_witness:
  "f_id (form (step V2 0 True ClickAdd (mount V2 0 True empty_store))) = None"
proof -
  have r: "reachable V2 0 empty_store (step V2 0 True ClickAdd (mount V2 0 True empty_store))"
    by (intro reachable.step reachable.start)
  have m: "modalType (step V2 0 True ClickAdd (mount V2 0 True empty_store)) = ''Add''"
    by (simp add: step_def visible_effect_def mount_def setModalValueType_def init_state_def)
  show ?thesis using v2_add_dialog_has_no_id[OF r m] .
qed

text \<open>
  C10. The city options always offer exactly the catalogue's cities of the chosen country
  (spec \<open>citiesFor\<close>), each once: before any choice there is no country and no option,
  afterwards the country state is Canada or the USA and the options are its cities.
\<close>

theorem city_options_match_country:
  assumes "reachable v tz st0 s"
  shows "(country_st s = JStr [] \<and> city_options s = [])
         \<or> (\<exists>c. country_st s = JStr c \<and> cities_for c \<noteq> {} \<and> distinct (city_options s)
               \<and> set (city_options s) = opt ` cities_for c)"
  using reachable_options_ok[OF assms]
  by (auto simp: options_ok_def city_options_effect_def cities_for_def opt_def sel_option_def)

theorem city_options_match_country_witness:
  "set (city_options (step V1 0 True (PickCountry 1) (step V1 0 True ClickAdd (mount V1 0 True empty_store))))
   = opt ` cities_for ''USA''"
proof -
  let ?s = "step V1 0 True (PickCountry 1) (step V1 0 True ClickAdd (mount V1 0 True empty_store))"
  have r: "reachable V1 0 empty_store ?s"
    by (intro reachable.step reachable.start)
  have c: "country_st ?s = JStr ''USA''"
    by (simp add: step_def visible_effect_def mount_def setModalValueType_def init_state_def
                  country_onChange_def Let_def optionsCountry_def opt_def)
  show ?thesis
    using city_options_match_country[OF r] c by auto
qed

text \<open>
  C11. Opening the edit dialog does not refresh the city options: \<open>updateModal\<close> sets the
  country field from the record but not the country state the \<open>[country]\<close> effect
  watches. So in every reachable v2 state whose country state differs from a row's
  country, the edit dialog of that row shows the record's country while offering none of
  that country's cities; a city picked there is a city of another country.
\<close>

theorem edit_keeps_stale_cities:
  assumes "reachable V2 tz st0 s" "\<not> visible s" "i < length (items s)"
    and "get_prop (Country (row_data (items s ! i))) ''value'' = JStr c" "country_st s \<noteq> JStr c"
  shows "get_prop (f_country (form (step V2 tz ok (ClickEdit i) s))) ''value'' = JStr c
         \<and> (\<forall>x \<in> set (city_options (step V2 tz ok (ClickEdit i) s)). \<forall>k \<in> cities_for c. x \<noteq> opt k)"
proof -
  have o: "options_ok s" by (rule reachable_options_ok[OF assms(1)])
  have st: "city_options (step V2 tz ok (ClickEdit i) s) = city_options s"
    "form (step V2 tz ok (ClickEdit i) s) = updateModal V2 tz (items s ! i) (form s)"
    using assms(2,3) by (simp_all add: step_def visible_effect_def setModalValueType_def)
  have "\<forall>x \<in> set (city_options s). \<forall>k \<in> cities_for c. x \<noteq> opt k"
    using o assms(5)
    by (auto simp: options_ok_def city_options_effect_def cities_for_def opt_def sel_option_def)
  then show ?thesis
    using st assms(4)
    by (simp add: updateModal_def updateModal_v2_def prefill_date_def)
qed

theorem edit_keeps_stale_cities_witness:
  "get_prop (f_country (form (step V2 0 True (ClickEdit 0) (mount V2 0 True
      \<lparr>docs = [(0, \<lparr>City = opt ''Ottawa'', Country = opt ''Canada'',
           DateOfBirth = \<lparr>ts_seconds = 642661200, ts_nanos = 0\<rparr>, Name = ''Bob''\<rparr>)],
       next_id = 1\<rparr>)))) ''value'' = JStr ''Canada''"
proof -
  let ?st = "\<lparr>docs = [(0, \<lparr>City = opt ''Ottawa'', Country = opt ''Canada'',
           DateOfBirth = \<lparr>ts_seconds = 642661200, ts_nanos = 0\<rparr>, Name = ''Bob''\<rparr>)],
       next_id = 1\<rparr>"
  let ?s = "mount V2 0 True ?st"
  have r: "reachable V2 0 ?st ?s" by (rule reachable.start)
  have n: "\<not> visible ?s" "0 < length (items ?s)"
    "get_prop (Country (row_data (items ?s ! 0))) ''value'' = JStr ''Canada''"
    "country_st ?s \<noteq> JStr ''Canada''"
    by code_simp+
  show ?thesis using edit_keeps_stale_cities[OF r n, of True] by (rule conjunct1)
qed

text \<open>
  C12. The edit button of a row opens the dialog on that row's record: the dialog is an
  open \<open>Edit\<close> dialog whose hidden id is the row's document id and whose name, country
  and city fields hold that record's values (v1 wraps the stored strings as
  \<open>{ value, label }\<close>, v2 copies the stored \<open>value\<close> and \<open>label\<close>); the store is
  unchanged.
\<close>

theorem edit_opens_row:
  assumes "\<not> visible s" "i < length (items s)"
  shows "visible (step v tz ok (ClickEdit i) s) \<and> modalType (step v tz ok (ClickEdit i) s) = ''Edit''
         \<and> f_id (form (step v tz ok (ClickEdit i) s)) = Some (row_id (items s ! i))
         \<and> f_name (form (step v tz ok (ClickEdit i) s)) = Name (row_data (items s ! i))
         \<and> f_country (form (step v tz ok (ClickEdit i) s))
             = (case v of V1 \<Rightarrow> sel_option (Country (row_data (items s ! i))) (Country (row_data (items s ! i)))
                | V2 \<Rightarrow> sel_option (get_prop (Country (row_data (items s ! i))) ''value'')
                                   (get_prop (Country (row_data (items s ! i))) ''label''))
         \<and> f_city (form (step v tz ok (ClickEdit i) s))
             = (case v of V1 \<Rightarrow> sel_option (City (row_data (items s ! i))) (City (row_data (items s ! i)))
                | V2 \<Rightarrow> sel_option (get_prop (City (row_data (items s ! i))) ''value'')
                                   (get_prop (City (row_data (items s ! i))) ''label''))
         \<and> db (step v tz ok (ClickEdit i) s) = db s"
  using assms
  by (cases v)
     (simp_all add: step_def visible_effect_def setModalValueType_def updateModal_def
                    updateModal_v1_def updateModal_v2_def prefill_date_def)

theorem edit_opens_row_witness:
  "f_id (form (step V2 0 True (ClickEdit 1) ((init_state empty_store)\<lparr>items :=
     [\<lparr>row_name = ''Bob'', row_dob = ''1990-05-14'', row_country = JStr ''Canada'',
       row_city = JStr ''Ottawa'', row_id = 0,
       row_data = \<lparr>City = opt ''Ottawa'', Country = opt ''Canada'',
                   DateOfBirth = \<lparr>ts_seconds = 0, ts_nanos = 0\<rparr>, Name = ''Bob''\<rparr>, row_time = Some 0\<rparr>,
      \<lparr>row_name = ''Al'', row_dob = ''1980-01-02'', row_country = JStr ''USA'',
       row_city = JStr ''Chicago'', row_id = 5,
       row_data = \<lparr>City = opt ''Chicago'', Country = opt ''USA'',
                   DateOfBirth = \<lparr>ts_seconds = 0, ts_nanos = 0\<rparr>, Name = ''Al''\<rparr>, row_time = Some 0\<rparr>]\<rparr>)))
   = Some 5"
  using edit_opens_row[of "(init_state empty_store)\<lparr>items :=
     [\<lparr>row_name = ''Bob'', row_dob = ''1990-05-14'', row_country = JStr ''Canada'',
       row_city = JStr ''Ottawa'', row_id = 0,
       row_data = \<lparr>City = opt ''Ottawa'', Country = opt ''Canada'',
                   DateOfBirth = \<lparr>ts_seconds = 0, ts_nanos = 0\<rparr>, Name = ''Bob''\<rparr>, row_time = Some 0\<rparr>,
      \<lparr>row_name = ''Al'', row_dob = ''1980-01-02'', row_country = JStr ''USA'',
       row_city = JStr ''Chicago'', row_id = 5,
       row_data = \<lparr>City = opt ''Chicago'', Country = opt ''USA'',
                   DateOfBirth = \<lparr>ts_seconds = 0, ts_nanos = 0\<rparr>, Name = ''Al''\<rparr>, row_time = Some 0\<rparr>]\<rparr>"
     1 V2 0 True]
  by (simp add: init_state_def)

text \<open>
  C13. Deleting a row, when the store accepts it, removes exactly that record, and the
  table is then reloaded from the store: it shows the rows built from the remaining
  documents, none of which has the deleted id, or, when a row cannot be built, is left
  as it was (\<open>getInfo\<close> has no \<open>catch\<close>).
\<close>

theorem delete_removes:
  assumes "\<not> visible s" "i < length (items s)" "store_inv (db s)"
  shows "lookup (db (step v tz True (ClickDelete i) s)) = (lookup (db s))(row_id (items s ! i) := None)
         \<and> items (step v tz True (ClickDelete i) s)
             = (case rows_of (row_of v tz) (del_docs (row_id (items s ! i)) (docs (db s))) of
                  Inl _ \<Rightarrow> items s | Inr rs \<Rightarrow> rs)
         \<and> (\<forall>rs. rows_of (row_of v tz) (del_docs (row_id (items s ! i)) (docs (db s))) = Inr rs
                 \<longrightarrow> (\<forall>r \<in> set rs. row_id r \<noteq> row_id (items s ! i)))"
proof -
  let ?k = "row_id (items s ! i)"
  let ?st' = "(db s)\<lparr>docs := del_docs ?k (docs (db s))\<rparr>"
  have del: "deleteDoc True ?k (db s) = Inr ?st'" by (simp add: deleteDoc_def)
  have lk: "lookup ?st' = (lookup (db s))(?k := None)"
    by (rule lookup_deleteDoc[OF assms(3) del])
  have st: "step v tz True (ClickDelete i) s = getInfo v tz True (s\<lparr>db := ?st'\<rparr>)"
    using assms(1,2) del by (simp add: step_same_visible deleteInfo_def)
  have gone: "row_id r \<noteq> ?k" if rs: "rows_of (row_of v tz) (docs ?st') = Inr rs" "r \<in> set rs" for rs r
  proof
    assume "row_id r = ?k"
    moreover have "(row_id r, row_data r) \<in> set (docs ?st')"
      using rows_of_row_of[OF rs] by simp
    ultimately have "lookup ?st' ?k \<noteq> None"
      unfolding lookup_def by (metis option.distinct(1) weak_map_of_SomeI)
    with lk show False by simp
  qed
  have "items (getInfo v tz True (s\<lparr>db := ?st'\<rparr>))
        = (case rows_of (row_of v tz) (docs ?st') of Inl _ \<Rightarrow> items s | Inr rs \<Rightarrow> rs)"
    by (simp add: getInfo_def getDocs_def split: sum.split)
  with st lk gone show ?thesis by simp
qed

theorem delete_removes_witness:
  "lookup (db (step V2 0 True (ClickDelete 0)
      (mount V2 0 True \<lparr>docs = [(0, \<lparr>City = opt ''Ottawa'', Country = opt ''Canada'',
           DateOfBirth = \<lparr>ts_seconds = 642661200, ts_nanos = 0\<rparr>, Name = ''Bob Smith''\<rparr>)],
         next_id = 1\<rparr>))) 0 = None"
proof -
  let ?st = "\<lparr>docs = [(0, \<lparr>City = opt ''Ottawa'', Country = opt ''Canada'',
           DateOfBirth = \<lparr>ts_seconds = 642661200, ts_nanos = 0\<rparr>, Name = ''Bob Smith''\<rparr>)],
         next_id = 1\<rparr>"
  let ?s = "mount V2 0 True ?st"
  have n: "0 < length (items ?s)" "row_id (items ?s ! 0) = 0" "\<not> visible ?s"
    by code_simp+
  have i: "store_inv (db ?s)"
    by (simp add: mount_def init_state_def store_inv_def)
  have "lookup (db (step V2 0 True (ClickDelete 0) ?s)) = (lookup (db ?s))(row_id (items ?s ! 0) := None)"
    using delete_removes[OF n(3) n(1) i] by (rule conjunct1)
  then show ?thesis by (simp only: n(2) fun_upd_same)
qed

text \<open>
  C14. When the store refuses a valid submission (unavailable, or an invalid document),
  \<open>onSubmit\<close> catches the error: nothing is written, the dialog stays open with the
  values entered, and one message is logged.
\<close>

theorem store_failure_keeps_dialog:
  assumes "visible s" "form_errors (form s) = []"
  shows "step v tz False SubmitForm s = log_error ''Error adding/updating document: '' (s\<lparr>errors := []\<rparr>)"
proof -
  have "visible (log_error ''Error adding/updating document: '' (s\<lparr>errors := []\<rparr>))"
    using assms(1) by simp
  then show ?thesis
    using assms by (simp add: step_same_visible handleSubmit_def onSubmit_refused)
qed

theorem store_failure_keeps_dialog_witness:
  "console (step V1 0 False SubmitForm
      ((setModalValueType ''Add'' (init_state empty_store))\<lparr>form :=
         \<lparr>f_id = None, f_name = ''Al'', f_year = Some 2000, f_month = Some 1, f_day = Some 2,
          f_country = opt ''USA'', f_city = opt ''Chicago''\<rparr>\<rparr>))
   = [''Error adding/updating document: '']"
proof -
  let ?f = "\<lparr>f_id = None, f_name = ''Al'', f_year = Some 2000, f_month = Some 1, f_day = Some 2,
          f_country = opt ''USA'', f_city = opt ''Chicago''\<rparr>"
  have v: "form_errors ?f = []"
    by (simp add: form_errors_def num_rule_ok_def required_ok_def opt_def sel_option_def)
  show ?thesis
    using store_failure_keeps_dialog[of "(setModalValueType ''Add'' (init_state empty_store))\<lparr>form := ?f\<rparr>" V1 0] v
    by (simp add: setModalValueType_def init_state_def log_error_def)
qed

text \<open>
  C20. Choosing a country in the dialog empties the city field, sets the country field to
  the chosen option, and offers exactly the cities of that country in the catalogue.
\<close>

theorem country_change_clears_city:
  assumes "visible s" "i < length optionsCountry"
  shows "f_city (form (step v tz ok (PickCountry i) s)) = JStr []
         \<and> f_country (form (step v tz ok (PickCountry i) s)) = optionsCountry ! i
         \<and> (\<exists>c. optionsCountry ! i = opt c
               \<and> set (city_options (step v tz ok (PickCountry i) s)) = opt ` cities_for c)"
proof -
  have st: "step v tz ok (PickCountry i) s = country_onChange (optionsCountry ! i) s"
    using assms by (simp add: step_same_visible country_onChange_def Let_def)
  show ?thesis
  proof (cases "optionsCountry ! i = opt ''Canada''")
    case True
    then show ?thesis
      by (intro conjI exI[where x="''Canada''"];
          simp add: st country_onChange_def Let_def city_options_effect_def cities_for_def opt_def)
  next
    case False
    then have "optionsCountry ! i = opt ''USA''" using optionsCountry_cases[OF assms(2)] by simp
    then show ?thesis
      by (intro conjI exI[where x="''USA''"];
          simp add: st country_onChange_def Let_def city_options_effect_def cities_for_def opt_def)
  qed
qed

theorem country_change_clears_city_witness:
  "f_city (form (step V2 0 True (PickCountry 0)
      ((setModalValueType ''Edit'' (init_state empty_store))\<lparr>form := empty_form\<lparr>f_city := opt ''Chicago''\<rparr>\<rparr>)))
   = JStr []"
  using country_change_clears_city[of "(setModalValueType ''Edit'' (init_state empty_store))\<lparr>form := empty_form\<lparr>f_city := opt ''Chicago''\<rparr>\<rparr>" 0 V2 0 True]
  by (simp add: setModalValueType_def init_state_def optionsCountry_def)

text \<open>
  C15. Saving a valid edit dialog, when the store accepts it, replaces the record of the
  dialog's id with the converted payload, changes no other record, and closes the dialog.
\<close>

theorem edit_save_updates:
  assumes "visible s" "f_id (form s) = Some k" "form_errors (form s) = []"
    and "payload v tz (form s) = Inr w" "to_document w = Inr d"
  shows "lookup (db (step v tz True SubmitForm s)) = (lookup (db s))(k \<mapsto> d)
         \<and> \<not> visible (step v tz True SubmitForm s)"
  using submit_edit[OF assms] by (simp add: lookup_def map_of_upd_docs)

theorem edit_save_updates_witness:
  "lookup (db (step V1 0 True SubmitForm
      ((setModalValueType ''Edit'' (init_state
          \<lparr>docs = [(0, \<lparr>City = JStr ''Ottawa'', Country = JStr ''Canada'',
                        DateOfBirth = \<lparr>ts_seconds = 0, ts_nanos = 0\<rparr>, Name = ''Bob''\<rparr>)], next_id = 1\<rparr>))
        \<lparr>form := \<lparr>f_id = Some 0, f_name = ''Bob Smith'', f_year = Some 1990, f_month = Some 5,
                   f_day = Some 14, f_country = opt ''Canada'', f_city = opt ''Ottawa''\<rparr>\<rparr>))) 0
   = Some \<lparr>City = JStr ''Ottawa'', Country = JStr ''Canada'',
           DateOfBirth = \<lparr>ts_seconds = 642643200, ts_nanos = 0\<rparr>, Name = ''Bob Smith''\<rparr>"
proof -
  let ?f = "\<lparr>f_id = Some 0, f_name = ''Bob Smith'', f_year = Some 1990, f_month = Some 5,
                   f_day = Some 14, f_country = opt ''Canada'', f_city = opt ''Ottawa''\<rparr>"
  let ?st = "\<lparr>docs = [(0, \<lparr>City = JStr ''Ottawa'', Country = JStr ''Canada'',
                        DateOfBirth = \<lparr>ts_seconds = 0, ts_nanos = 0\<rparr>, Name = ''Bob''\<rparr>)], next_id = 1\<rparr>"
  let ?s = "(setModalValueType ''Edit'' (init_state ?st))\<lparr>form := ?f\<rparr>"
  let ?w = "\<lparr>wd_City = JStr ''Ottawa'', wd_Country = JStr ''Canada'',
             wd_DateOfBirth = Some 642643200000, wd_Name = ''Bob Smith''\<rparr>"
  let ?d = "\<lparr>City = JStr ''Ottawa'', Country = JStr ''Canada'',
           DateOfBirth = \<lparr>ts_seconds = 642643200, ts_nanos = 0\<rparr>, Name = ''Bob Smith''\<rparr>"
  have v: "form_errors ?f = []"
    by (simp add: form_errors_def num_rule_ok_def required_ok_def opt_def sel_option_def)
  have p: "payload V1 0 ?f = Inr ?w"
    by code_simp
  have t: "to_document ?w = Inr ?d"
    by (simp add: to_document_def Timestamp_fromDate_def)
  show ?thesis
    using edit_save_updates[of ?s 0 V1 0 ?w ?d] v p t by (simp add: setModalValueType_def)
qed

end
