(* ===== verification/Refinement.thy ===== *)
theory Refinement
  imports Session
begin

text \<open>
  The specification's contract for the form session (spec section 4.4) as an abstract
  machine, and the simulation of the page by it. An abstract state is the session
  state, \<open>Closed\<close>, \<open>OpenCreate\<close> or \<open>OpenEdit id\<close>, together with the records of the
  store as a finite map. Each user event of the page is an abstract event; the
  abstraction \<open>abs_of\<close> reads the session from the modal's visibility and the form's
  hidden id, and the records from the store. A concrete step refines the contract
  when the abstract states before and after it are related by \<open>spec_step\<close> for its
  abstract event. Failed or refused operations leave the abstract state unchanged
  (\<open>stutter\<close>); another client's deletion is an environment event.
\<close>

datatype session = Closed | OpenCreate | OpenEdit doc_id

datatype aevent =
    AOpenCreate
  | AOpenEdit doc_id
  | ACancel
  | ASubmit
  | AEditField
  | ADelete doc_id
  | ARemoteDelete doc_id

type_synonym abs_state = "session \<times> (doc_id \<rightharpoonup> user_doc)"

inductive spec_step :: "aevent \<Rightarrow> abs_state \<Rightarrow> abs_state \<Rightarrow> bool" where
  open_create: "spec_step AOpenCreate (Closed, m) (OpenCreate, m)"
| open_edit: "spec_step (AOpenEdit k) (Closed, m) (OpenEdit k, m)"
| cancel: "a \<noteq> Closed \<Longrightarrow> spec_step ACancel (a, m) (Closed, m)"
| create: "m k = None \<Longrightarrow> spec_step ASubmit (OpenCreate, m) (Closed, m(k \<mapsto> d))"
| update: "spec_step ASubmit (OpenEdit k, m) (Closed, m(k \<mapsto> d))"
| delete: "spec_step (ADelete k) (Closed, m) (Closed, m(k := None))"
| remote_delete: "spec_step (ARemoteDelete k) (a, m) (a, m(k := None))"
| stutter: "spec_step e (a, m) (a, m)"

inductive_cases spec_step_open_createE: "spec_step AOpenCreate (a, m) (a', m')"

definition session_of :: "app_state \<Rightarrow> session" where
  "session_of s =
     (if \<not> visible s then Closed
      else case f_id (form s) of None \<Rightarrow> OpenCreate | Some k \<Rightarrow> OpenEdit k)"

definition abs_of :: "app_state \<Rightarrow> abs_state" where
  "abs_of s = (session_of s, lookup (db s))"

fun aevent_of :: "app_state \<Rightarrow> event \<Rightarrow> aevent" where
  "aevent_of s ClickAdd = AOpenCreate"
| "aevent_of s (ClickEdit i) = AOpenEdit (row_id (items s ! i))"
| "aevent_of s (ClickDelete i) = ADelete (row_id (items s ! i))"
| "aevent_of s SubmitForm = ASubmit"
| "aevent_of s CloseModal = ACancel"
| "aevent_of s (RemoteDelete k) = ARemoteDelete k"
| "aevent_of s (TypeName x) = AEditField"
| "aevent_of s (TypeYear x) = AEditField"
| "aevent_of s (TypeMonth x) = AEditField"
| "aevent_of s (TypeDay x) = AEditField"
| "aevent_of s (PickCountry i) = AEditField"
| "aevent_of s (PickCity i) = AEditField"

section \<open>Lemmas: the abstraction\<close>

lemma abs_of_getInfo [simp]: "abs_of (getInfo v tz ok s) = abs_of s"
  by (simp add: abs_of_def session_of_def)

lemma abs_of_log_error [simp]: "abs_of (log_error m s) = abs_of s"
  by (simp add: abs_of_def session_of_def)

lemma abs_of_resetValues [simp]: "abs_of (resetValues v s) = (Closed, lookup (db s))"
  by (simp add: abs_of_def session_of_def)

lemma abs_of_errors [simp]: "abs_of (s\<lparr>errors := x\<rparr>) = abs_of s"
  by (simp add: abs_of_def session_of_def)

lemma abs_of_step: "abs_of (step v tz ok e s) = abs_of (handle v tz ok e s)"
  using visible_effect_cases[of v tz ok s "handle v tz ok e s"] by (auto simp: step_def)

lemma session_of_open: "visible s \<Longrightarrow> session_of s \<noteq> Closed"
  by (simp add: session_of_def split: option.split)

lemma spec_stutter: "abs_of s' = abs_of s \<Longrightarrow> spec_step e (abs_of s) (abs_of s')"
  by (metis prod.collapse spec_step.stutter)

section \<open>Lemmas: each handler refines its abstract event\<close>

lemma onSubmit_refines:
  assumes "visible s" "store_inv (db s)"
  shows "spec_step ASubmit (abs_of s) (abs_of (onSubmit v tz ok s))"
proof (cases "payload v tz (form s)")
  case (Inl e)
  then show ?thesis by (simp add: onSubmit_def spec_stutter)
next
  case (Inr w)
  show ?thesis
  proof (cases "f_id (form s)")
    case None
    show ?thesis
    proof (cases "addDoc ok w (db s)")
      case (Inl e)
      with Inr None show ?thesis by (simp add: onSubmit_def spec_stutter)
    next
      case (Inr r)
      then obtain k st' where add: "addDoc ok w (db s) = Inr (k, st')" by (cases r) auto
      then obtain d where "to_document w = Inr d" by (auto simp: addDoc_Inr)
      with add assms(2) have "lookup (db s) k = None" "lookup st' = (lookup (db s))(k \<mapsto> d)"
        using lookup_addDoc by blast+
      moreover have "abs_of s = (OpenCreate, lookup (db s))"
        using assms(1) None by (simp add: abs_of_def session_of_def)
      ultimately show ?thesis
        using \<open>payload v tz (form s) = Inr w\<close> None add
        by (simp add: onSubmit_def spec_step.create)
    qed
  next
    case (Some k)
    show ?thesis
    proof (cases "setDoc ok k w (db s)")
      case (Inl e)
      with Inr Some show ?thesis by (simp add: onSubmit_def spec_stutter)
    next
      case (Inr st')
      then obtain d where "to_document w = Inr d" by (auto simp: setDoc_Inr)
      with Inr have "lookup st' = (lookup (db s))(k \<mapsto> d)" by (rule lookup_setDoc)
      moreover have "abs_of s = (OpenEdit k, lookup (db s))"
        using assms(1) Some by (simp add: abs_of_def session_of_def)
      ultimately show ?thesis
        using \<open>payload v tz (form s) = Inr w\<close> Some Inr
        by (simp add: onSubmit_def spec_step.update)
    qed
  qed
qed

lemma deleteInfo_refines:
  assumes "\<not> visible s" "store_inv (db s)"
  shows "spec_step (ADelete k) (abs_of s) (abs_of (deleteInfo v tz ok k s))"
proof (cases "deleteDoc ok k (db s)")
  case (Inl e)
  then show ?thesis by (simp add: deleteInfo_def spec_stutter)
next
  case (Inr st')
  then have "lookup st' = (lookup (db s))(k := None)" using assms(2) lookup_deleteDoc by blast
  moreover have "abs_of s = (Closed, lookup (db s))"
    using assms(1) by (simp add: abs_of_def session_of_def)
  ultimately show ?thesis
    using Inr assms(1) by (simp add: deleteInfo_def abs_of_def session_of_def spec_step.delete)
qed

lemma handle_v2_refines:
  assumes "add_form_clean s" "store_inv (db s)"
  shows "spec_step (aevent_of s e) (abs_of s) (abs_of (handle V2 tz ok e s))"
proof (cases e)
  case ClickAdd
  show ?thesis
  proof (cases "visible s")
    case True
    with ClickAdd show ?thesis by (simp add: spec_stutter)
  next
    case False
    then have "abs_of s = (Closed, lookup (db s))"
      "abs_of (handle V2 tz ok e s) = (OpenCreate, lookup (db s))"
      using assms(1) ClickAdd
      by (simp_all add: abs_of_def session_of_def setModalValueType_def add_form_clean_def)
    with ClickAdd show ?thesis by (simp add: spec_step.open_create)
  qed
next
  case (ClickEdit i)
  show ?thesis
  proof (cases "visible s \<or> length (items s) \<le> i")
    case True
    with ClickEdit show ?thesis by (auto simp: spec_stutter)
  next
    case False
    then have "abs_of s = (Closed, lookup (db s))"
      "abs_of (handle V2 tz ok e s) = (OpenEdit (row_id (items s ! i)), lookup (db s))"
      using ClickEdit
      by (simp_all add: abs_of_def session_of_def setModalValueType_def updateModal_id)
    with ClickEdit show ?thesis by (simp add: spec_step.open_edit)
  qed
next
  case (ClickDelete i)
  then show ?thesis
    using deleteInfo_refines[of s] assms(2) by (auto simp: spec_stutter)
next
  case SubmitForm
  then show ?thesis
    using onSubmit_refines[of "s\<lparr>errors := []\<rparr>"] assms(2)
    by (auto simp: handleSubmit_def spec_stutter)
next
  case CloseModal
  show ?thesis
  proof (cases "visible s")
    case True
    then have "abs_of (handle V2 tz ok e s) = (Closed, lookup (db s))" using CloseModal by simp
    moreover have "abs_of s = (session_of s, lookup (db s))" by (simp add: abs_of_def)
    ultimately show ?thesis
      using CloseModal spec_step.cancel[OF session_of_open[OF True]] by simp
  next
    case False
    with CloseModal show ?thesis by (simp add: spec_stutter)
  qed
next
  case (RemoteDelete k)
  have "lookup (db (handle V2 tz ok e s)) = (lookup (db s))(k := None)"
    using RemoteDelete assms(2) by (simp add: lookup_def store_inv_def map_of_del_docs)
  moreover have "session_of (handle V2 tz ok e s) = session_of s"
    using RemoteDelete by (simp add: session_of_def)
  ultimately show ?thesis
    using RemoteDelete spec_step.remote_delete[of k "session_of s" "lookup (db s)"] by (simp add: abs_of_def)
qed (rule spec_stutter; auto simp: abs_of_def session_of_def country_onChange_def Let_def)+

lemma step_v2_refines:
  "add_form_clean s \<Longrightarrow> store_inv (db s)
   \<Longrightarrow> spec_step (aevent_of s e) (abs_of s) (abs_of (step V2 tz ok e s))"
  by (simp add: abs_of_step handle_v2_refines)

section \<open>The simulation\<close>

text \<open>
  C21. v2 implements the form-session contract of the specification: from a well-formed
  store, every step of the page, in every reachable state, is a step of the abstract
  machine for its event. An add opens \<open>OpenCreate\<close> and an edit \<open>OpenEdit id\<close> only
  from \<open>Closed\<close>; a submission from \<open>OpenCreate\<close> inserts a record under a fresh id, one
  from \<open>OpenEdit id\<close> replaces record \<open>id\<close>, and both close the session; a cancel closes
  it; a delete from the table removes its record; every other step, and every refused
  or invalid operation, leaves the session and the records unchanged.
\<close>

theorem v2_refines_session_spec:
  assumes "reachable V2 tz st0 s" "store_inv st0"
  shows "spec_step (aevent_of s e) (abs_of s) (abs_of (step V2 tz ok e s))"
  using step_v2_refines reachable_v2_clean[OF assms(1)] reachable_ids_ok[OF assms]
  by (simp add: ids_ok_def)

theorem v2_refines_session_spec_witness:
  "abs_of (step V2 0 True ClickAdd (mount V2 0 True empty_store)) = (OpenCreate, Map.empty)
   \<and> spec_step AOpenCreate (Closed, Map.empty) (OpenCreate, Map.empty)"
proof -
  have r: "reachable V2 0 empty_store (mount V2 0 True empty_store)"
    by (rule reachable.start)
  have a: "abs_of (mount V2 0 True empty_store) = (Closed, Map.empty)"
    by (simp add: abs_of_def session_of_def mount_def init_state_def lookup_def empty_store_def)
  have b: "abs_of (step V2 0 True ClickAdd (mount V2 0 True empty_store)) = (OpenCreate, Map.empty)"
    unfolding abs_of_step by (simp add: abs_of_def session_of_def setModalValueType_def mount_def
                  init_state_def empty_form_def lookup_def empty_store_def)
  show ?thesis
    using v2_refines_session_spec[OF r store_inv_empty, of ClickAdd True] a b by simp
qed

end
