(* ===== verification/Shapes.thy ===== *)
theory Shapes
  imports Session
begin

text \<open>
  The stored shape of a record's \<open>Country\<close> and \<open>City\<close>, the one typing fact of the data
  the two versions disagree on: v1 writes \<open>data.country.value\<close>, a string, and v2 writes
  \<open>{ value, label }\<close>, a pair of strings. The invariant \<open>shape_ok\<close> says that every stored
  document and every table row has the shape of the version running the page, that the
  cells it shows are strings, and that the form's country and city fields and the city
  options hold no object in their \<open>value\<close> or \<open>label\<close>. Every handler keeps it, so a
  store written only by one version holds only that version's shape, and every row of
  its table renders. The rows are also kept in strictly increasing id order
  (\<open>rows_sorted\<close>), since every reload copies the id-ordered store.
\<close>

fun is_str :: "jsv \<Rightarrow> bool" where
  "is_str (JStr s) = True"
| "is_str v = False"

text \<open>A value a table cell can render: \<open>undefined\<close> or a string.\<close>

fun flat :: "jsv \<Rightarrow> bool" where
  "flat (JObj ps) = False"
| "flat v = True"

definition field_ok :: "jsv \<Rightarrow> bool" where
  "field_ok x \<longleftrightarrow> flat (get_prop x ''value'') \<and> flat (get_prop x ''label'')"

definition stored_shape :: "version \<Rightarrow> jsv \<Rightarrow> bool" where
  "stored_shape v x =
     (case v of
        V1 \<Rightarrow> is_str x
      | V2 \<Rightarrow> x = sel_option (get_prop x ''value'') (get_prop x ''label'')
             \<and> is_str (get_prop x ''value'') \<and> is_str (get_prop x ''label''))"

definition doc_shape :: "version \<Rightarrow> user_doc \<Rightarrow> bool" where
  "doc_shape v d \<longleftrightarrow> stored_shape v (Country d) \<and> stored_shape v (City d)"

definition shape_ok :: "version \<Rightarrow> app_state \<Rightarrow> bool" where
  "shape_ok v s \<longleftrightarrow>
     (\<forall>(k, d) \<in> set (docs (db s)). doc_shape v d)
     \<and> (\<forall>r \<in> set (items s). doc_shape v (row_data r) \<and> flat (row_country r) \<and> flat (row_city r))
     \<and> field_ok (f_country (form s)) \<and> field_ok (f_city (form s))
     \<and> (\<forall>x \<in> set (city_options s). field_ok x)"

text \<open>The table lists its rows in increasing id order, each id once.\<close>

definition rows_sorted :: "app_state \<Rightarrow> bool" where
  "rows_sorted s \<longleftrightarrow> sorted_wrt (<) (map row_id (items s))"

section \<open>Lemmas: values\<close>

lemma flat_is_str: "flat x \<Longrightarrow> \<not> has_undef x \<Longrightarrow> is_str x"
  by (cases x) simp_all

lemma is_str_flat: "is_str x \<Longrightarrow> flat x"
  by (cases x) simp_all

lemma field_ok_simps [simp]:
  "field_ok JUndef" "field_ok (JStr s)" "field_ok (sel_option a b) \<longleftrightarrow> flat a \<and> flat b"
  by (simp_all add: field_ok_def)

lemma field_ok_opt [simp]: "field_ok (opt c)"
  by (simp add: opt_def)

lemma is_str_get_prop [simp]: "is_str x \<Longrightarrow> get_prop x k = JUndef"
  by (cases x) simp_all

lemma stored_field_ok: "stored_shape v x \<Longrightarrow> field_ok x"
  by (cases v) (auto simp: stored_shape_def field_ok_def intro: is_str_flat)

section \<open>Lemmas: what each operation writes and reads\<close>

lemma payload_shape:
  assumes "field_ok (f_country f)" "field_ok (f_city f)"
    and "payload v tz f = Inr w" "to_document w = Inr d"
  shows "doc_shape v d"
proof (cases v)
  case V1
  then show ?thesis
    using assms
    by (auto simp: payload_def payload_v1_def js_get_def to_document_def doc_shape_def
                   stored_shape_def field_ok_def intro: flat_is_str
             split: sum.splits if_splits)
next
  case V2
  then show ?thesis
    using assms
    by (auto simp: payload_def payload_v2_def label_value_def js_get_def to_document_def
                   doc_shape_def stored_shape_def field_ok_def intro: flat_is_str
             split: sum.splits if_splits)
qed

lemma updateModal_fields:
  assumes "doc_shape v (row_data r)"
  shows "field_ok (f_country (updateModal v tz r f)) \<and> field_ok (f_city (updateModal v tz r f))"
  using assms
  by (cases v)
     (auto simp: updateModal_def updateModal_v1_def updateModal_v2_def prefill_date_def
                 doc_shape_def stored_shape_def field_ok_def intro: is_str_flat)

lemma row_of_shape:
  assumes "doc_shape v d" "row_of v tz (k, d) = Inr r"
  shows "flat (row_country r) \<and> flat (row_city r)"
  using assms
  by (cases v)
     (auto simp: row_of_def row_v1_def row_v2_def js_get_def doc_shape_def stored_shape_def
           intro: is_str_flat split: sum.splits if_splits)

lemma rows_of_shape:
  assumes "\<forall>(k, d) \<in> set ds. doc_shape v d" "rows_of (row_of v tz) ds = Inr rs" "r \<in> set rs"
  shows "doc_shape v (row_data r) \<and> flat (row_country r) \<and> flat (row_city r)"
proof -
  obtain k d where kd: "(k, d) \<in> set ds" "row_of v tz (k, d) = Inr r"
    using rows_of_Inr[OF assms(2,3)] by auto
  then have "row_data r = d" using row_of_Inr by blast
  then show ?thesis using kd assms(1) row_of_shape by fastforce
qed

section \<open>Lemmas: every handler keeps the shapes\<close>

lemma shape_ok_docs_subset:
  "shape_ok v s \<Longrightarrow> set (docs st') \<subseteq> set (docs (db s)) \<Longrightarrow> shape_ok v (s\<lparr>db := st'\<rparr>)"
  by (auto simp: shape_ok_def)

lemma getInfo_shape: "shape_ok v s \<Longrightarrow> shape_ok v (getInfo v tz ok s)"
  using getInfo_cases[of v tz ok s] rows_of_shape[of "docs (db s)" v tz]
  by (auto simp: shape_ok_def)

lemma visible_effect_shape: "shape_ok v s' \<Longrightarrow> shape_ok v (visible_effect v tz ok s s')"
  using visible_effect_cases[of v tz ok s s'] getInfo_shape by metis

lemma resetValues_shape: "shape_ok v s \<Longrightarrow> shape_ok v (resetValues v s)"
  by (cases v)
     (simp_all add: shape_ok_def resetValues_def resetValues_v1_def resetValues_v2_def
                    rhf_reset_def empty_form_def)

lemma onSubmit_shape: "shape_ok v s \<Longrightarrow> shape_ok v (onSubmit v tz ok s)"
proof -
  assume inv: "shape_ok v s"
  have log: "shape_ok v (log_error m s)" for m using inv by (simp add: shape_ok_def log_error_def)
  have fin: "shape_ok v (resetValues v (s\<lparr>db := st'\<rparr>))"
    if "set (docs st') \<subseteq> insert (k, d) (set (docs (db s)))" "doc_shape v d" for st' k d
    using inv that by (intro resetValues_shape) (auto simp: shape_ok_def)
  show ?thesis
  proof (cases "payload v tz (form s)")
    case (Inr w)
    have ok: "doc_shape v d" if "to_document w = Inr d" for d
      using payload_shape[OF _ _ Inr that] inv by (simp add: shape_ok_def)
    show ?thesis
    proof (cases "f_id (form s)")
      case None
      show ?thesis
      proof (cases "addDoc ok w (db s)")
        case (Inr r)
        obtain k st' where add: "addDoc ok w (db s) = Inr (k, st')" using Inr by (cases r) auto
        then obtain d where td: "to_document w = Inr d"
          and st': "st' = (db s)\<lparr>docs := docs (db s) @ [(next_id (db s), d)],
                                  next_id := Suc (next_id (db s))\<rparr>"
          by (auto simp: addDoc_Inr)
        have "set (docs st') \<subseteq> insert (next_id (db s), d) (set (docs (db s)))" using st' by auto
        from fin[OF this ok[OF td]] show ?thesis
          using \<open>payload v tz (form s) = Inr w\<close> None add by (simp add: onSubmit_def)
      qed (use Inr None log in \<open>simp add: onSubmit_def\<close>)
    next
      case (Some k)
      show ?thesis
      proof (cases "setDoc ok k w (db s)")
        case (Inr st')
        then obtain d where td: "to_document w = Inr d"
          and st': "st' = (db s)\<lparr>docs := upd_docs k d (docs (db s))\<rparr>"
          by (auto simp: setDoc_Inr)
        have "set (docs st') \<subseteq> insert (k, d) (set (docs (db s)))" using st' set_upd_docs by simp
        from fin[OF this ok[OF td]] show ?thesis
          using \<open>payload v tz (form s) = Inr w\<close> Some Inr by (simp add: onSubmit_def)
      qed (use \<open>payload v tz (form s) = Inr w\<close> Some log in \<open>simp add: onSubmit_def\<close>)
    qed
  qed (use log in \<open>simp add: onSubmit_def\<close>)
qed

lemma deleteInfo_shape:
  assumes "shape_ok v s"
  shows "shape_ok v (deleteInfo v tz ok k s)"
proof (cases "deleteDoc ok k (db s)")
  case (Inl e)
  then show ?thesis using assms by (simp add: deleteInfo_def log_error_def shape_ok_def)
next
  case (Inr st')
  then have "docs st' = del_docs k (docs (db s))" by (simp add: deleteDoc_Inr)
  then have "shape_ok v (s\<lparr>db := st'\<rparr>)"
    using shape_ok_docs_subset[OF assms] set_del_docs[of k "docs (db s)"] by simp
  with Inr show ?thesis by (simp add: deleteInfo_def getInfo_shape)
qed

lemma country_onChange_shape:
  "shape_ok v s \<Longrightarrow> i < length optionsCountry \<Longrightarrow> shape_ok v (country_onChange (optionsCountry ! i) s)"
  using optionsCountry_cases[of i]
  by (auto simp: shape_ok_def country_onChange_def Let_def city_options_effect_def)

lemma handle_shape:
  assumes "shape_ok v s"
  shows "shape_ok v (handle v tz ok e s)"
proof (cases e)
  case (ClickEdit i)
  then show ?thesis
    using assms updateModal_fields[of v "items s ! i" tz "form s"]
    by (auto simp: shape_ok_def setModalValueType_def)
next
  case (ClickDelete i)
  then show ?thesis using assms by (simp add: deleteInfo_shape)
next
  case (PickCountry i)
  then show ?thesis using assms by (simp add: country_onChange_shape)
next
  case SubmitForm
  then show ?thesis
    using assms onSubmit_shape[of v "s\<lparr>errors := []\<rparr>" tz ok]
    by (auto simp: handleSubmit_def shape_ok_def)
next
  case CloseModal
  then show ?thesis using assms by (simp add: resetValues_shape)
next
  case (RemoteDelete k)
  then show ?thesis
    using assms shape_ok_docs_subset[of v s] set_del_docs[of k "docs (db s)"] by simp
qed (use assms in \<open>auto simp: shape_ok_def setModalValueType_def\<close>)

lemma reachable_shape:
  "reachable v tz st0 s \<Longrightarrow> \<forall>(k, d) \<in> set (docs st0). doc_shape v d \<Longrightarrow> shape_ok v s"
proof (induction rule: reachable.induct)
  case start
  then show ?case
    unfolding mount_def
    by (intro getInfo_shape) (simp add: shape_ok_def init_state_def empty_form_def)
next
  case step
  then show ?case by (simp add: step_def visible_effect_shape handle_shape)
qed

lemma render_flat: "flat (row_country r) \<Longrightarrow> flat (row_city r) \<Longrightarrow> \<not> isl (render_row r)"
  by (cases "row_country r"; cases "row_city r")
     (simp_all add: render_row_def columns_def cell_def)

section \<open>Lemmas: the order of the rows\<close>

lemma getInfo_sorted:
  assumes "store_inv (db s)" "rows_sorted s"
  shows "rows_sorted (getInfo v tz ok s)"
proof -
  have "map row_id rs = map fst (docs (db s))" if "rows_of (row_of v tz) (docs (db s)) = Inr rs" for rs
    using arg_cong[OF rows_of_row_of_list[OF that], of "map fst"] by (simp add: comp_def)
  then show ?thesis
    using getInfo_cases[of v tz ok s] assms by (auto simp: rows_sorted_def store_inv_def)
qed

lemma handle_sorted:
  assumes "ids_ok s" "rows_sorted s"
  shows "rows_sorted (handle v tz ok e s)"
proof (cases e)
  case (ClickDelete i)
  have "rows_sorted (deleteInfo v tz ok k s)" for k
  proof (cases "deleteDoc ok k (db s)")
    case (Inr st')
    then have "store_inv st'" using assms(1) store_inv_del_docs by (auto simp: ids_ok_def deleteDoc_Inr)
    then show ?thesis
      using Inr getInfo_sorted[of "s\<lparr>db := st'\<rparr>" v tz ok] assms(2)
      by (simp add: deleteInfo_def rows_sorted_def)
  qed (use assms in \<open>simp add: deleteInfo_def rows_sorted_def log_error_def\<close>)
  then show ?thesis using ClickDelete assms(2) by simp
next
  case SubmitForm
  then show ?thesis
    using assms(2) onSubmit_cases[of v tz ok "s\<lparr>errors := []\<rparr>"]
    by (auto simp: handleSubmit_def rows_sorted_def)
next
  case CloseModal
  then show ?thesis using assms(2) by (simp add: rows_sorted_def)
qed (use assms(2) in \<open>simp_all add: rows_sorted_def setModalValueType_def country_onChange_def Let_def\<close>)

lemma step_sorted: "ids_ok s \<Longrightarrow> rows_sorted s \<Longrightarrow> rows_sorted (step v tz ok e s)"
  using visible_effect_cases[of v tz ok s "handle v tz ok e s"] handle_sorted[of s v tz ok e]
        handle_ids_ok[of s v tz ok e] getInfo_sorted[of "handle v tz ok e s" v tz ok]
  by (auto simp: step_def ids_ok_def)

lemma reachable_sorted: "reachable v tz st0 s \<Longrightarrow> store_inv st0 \<Longrightarrow> rows_sorted s"
proof (induction rule: reachable.induct)
  case start
  then show ?case
    unfolding mount_def
    by (intro getInfo_sorted) (simp_all add: rows_sorted_def init_state_def)
next
  case (step v tz st0 s ok e)
  then show ?case using step_sorted reachable_ids_ok by blast
qed

section \<open>Theorems\<close>

text \<open>
  C24. The stored shape is a type invariant of a page: if every document of the store
  the page was mounted on has the shape its version writes (v1 a string, v2 a
  \<open>{ value, label }\<close> pair of strings), then after any sequence of user actions and
  reloads every document of the store still has that shape.
\<close>

theorem reachable_docs_shape:
  assumes "reachable v tz st0 s" "\<forall>(k, d) \<in> set (docs st0). doc_shape v d"
  shows "\<forall>(k, d) \<in> set (docs (db s)). doc_shape v d"
  using reachable_shape[OF assms] unfolding shape_ok_def by blast

theorem reachable_docs_shape_witness:
  "list_all (\<lambda>(k, d). doc_shape V2 d) (docs (db (step V2 0 True (ClickEdit 0) (mount V2 0 True
      \<lparr>docs = [(0, \<lparr>City = sel_option (JStr ''Ottawa'') (JStr ''Ottawa''),
                    Country = sel_option (JStr ''Canada'') (JStr ''Canada''),
                    DateOfBirth = \<lparr>ts_seconds = 0, ts_nanos = 0\<rparr>, Name = ''Bob''\<rparr>)],
       next_id = 1\<rparr>))))"
proof -
  let ?st = "\<lparr>docs = [(0, \<lparr>City = sel_option (JStr ''Ottawa'') (JStr ''Ottawa''),
                    Country = sel_option (JStr ''Canada'') (JStr ''Canada''),
                    DateOfBirth = \<lparr>ts_seconds = 0, ts_nanos = 0\<rparr>, Name = ''Bob''\<rparr>)],
       next_id = 1\<rparr>"
  have r: "reachable V2 0 ?st (step V2 0 True (ClickEdit 0) (mount V2 0 True ?st))"
    by (intro reachable.step reachable.start)
  have d: "\<forall>(k, d) \<in> set (docs ?st). doc_shape V2 d"
    by (simp add: doc_shape_def stored_shape_def)
  show ?thesis using reachable_docs_shape[OF r d] by (simp add: list_all_iff)
qed

text \<open>
  C25. Every row of the table renders: on a page mounted on a store of its own version's
  shape, no reachable state holds a row whose Country or City cell is an object, the
  value React refuses to render as a child (the \<open>Objects are not valid as a React
  child\<close> error of the v1 page on v2 records).
\<close>

theorem reachable_rows_render:
  assumes "reachable v tz st0 s" "\<forall>(k, d) \<in> set (docs st0). doc_shape v d"
  shows "\<forall>r \<in> set (items s). \<not> isl (render_row r)"
  using reachable_shape[OF assms] render_flat unfolding shape_ok_def by blast

theorem reachable_rows_render_witness:
  "list_all (\<lambda>r. \<not> isl (render_row r)) (items (mount V2 0 True
      \<lparr>docs = [(0, \<lparr>City = sel_option (JStr ''Ottawa'') (JStr ''Ottawa''),
                    Country = sel_option (JStr ''Canada'') (JStr ''Canada''),
                    DateOfBirth = \<lparr>ts_seconds = 0, ts_nanos = 0\<rparr>, Name = ''Bob''\<rparr>)],
       next_id = 1\<rparr>))"
proof -
  let ?st = "\<lparr>docs = [(0, \<lparr>City = sel_option (JStr ''Ottawa'') (JStr ''Ottawa''),
                    Country = sel_option (JStr ''Canada'') (JStr ''Canada''),
                    DateOfBirth = \<lparr>ts_seconds = 0, ts_nanos = 0\<rparr>, Name = ''Bob''\<rparr>)],
       next_id = 1\<rparr>"
  have r: "reachable V2 0 ?st (mount V2 0 True ?st)"
    by (rule reachable.start)
  have d: "\<forall>(k, d) \<in> set (docs ?st). doc_shape V2 d"
    by (simp add: doc_shape_def stored_shape_def)
  show ?thesis using reachable_rows_render[OF r d] by (simp add: list_all_iff)
qed


text \<open>
  C31. The table is ordered: from a well-formed store, in every reachable state the rows
  of the table are in strictly increasing id order, so no document is listed twice,
  whatever deletions (own or another client's), additions and reloads happened.
\<close>

theorem reachable_rows_ordered:
  assumes "reachable v tz st0 s" "store_inv st0"
  shows "sorted_wrt (<) (map row_id (items s))"
  using reachable_sorted[OF assms] by (simp add: rows_sorted_def)

theorem reachable_rows_ordered_witness:
  "sorted_wrt (<) (map row_id (items (step V2 0 True (RemoteDelete 0) (mount V2 0 True
      \<lparr>docs = [(0, \<lparr>City = opt ''Ottawa'', Country = opt ''Canada'',
                    DateOfBirth = \<lparr>ts_seconds = 0, ts_nanos = 0\<rparr>, Name = ''Bob''\<rparr>),
                (1, \<lparr>City = opt ''Chicago'', Country = opt ''USA'',
                    DateOfBirth = \<lparr>ts_seconds = 0, ts_nanos = 0\<rparr>, Name = ''Al''\<rparr>)],
       next_id = 2\<rparr>))))"
proof -
  let ?st = "\<lparr>docs = [(0, \<lparr>City = opt ''Ottawa'', Country = opt ''Canada'',
                    DateOfBirth = \<lparr>ts_seconds = 0, ts_nanos = 0\<rparr>, Name = ''Bob''\<rparr>),
                (1, \<lparr>City = opt ''Chicago'', Country = opt ''USA'',
                    DateOfBirth = \<lparr>ts_seconds = 0, ts_nanos = 0\<rparr>, Name = ''Al''\<rparr>)],
       next_id = 2\<rparr>"
  have r: "reachable V2 0 ?st (step V2 0 True (RemoteDelete 0) (mount V2 0 True ?st))"
    by (intro reachable.step reachable.start)
  have i: "store_inv ?st" by (simp add: store_inv_def)
  show ?thesis using reachable_rows_ordered[OF r i] .
qed

end
