(* ===== verification/Async.thy ===== *)
theory Async
  imports Session
begin

text \<open>
  The page with its store calls in flight. Every store call of the code is awaited: the
  handler runs up to its \<open>await\<close>, the call is pending, and the rest of the handler runs
  when the call settles, possibly after other user events and in any order relative to
  other pending calls. A pending call is a \<open>call\<close>; an \<open>astate\<close> is the page state and
  the calls in flight, in the order they were issued. \<open>a_step\<close> runs a user event up to
  its awaits; \<open>complete\<close> settles the \<open>i\<close>-th pending call and runs its continuation,
  which may issue a further call (a write's \<open>resetValues\<close> changes the visibility and
  the \<open>[visible]\<close> effect reloads; a delete's continuation calls \<open>getInfo\<close>). \<open>drain\<close>
  settles the calls in issue order until none is left; it terminates because each
  settled call issues at most a reload, which issues nothing. The synchronous model of
  \<open>Session\<close> is this model with every call settled before the next event.
\<close>

datatype call = PList | PDelete doc_id | PWrite "doc_id option" write_data

record astate =
  page :: app_state
  pending :: "call list"

definition idle :: "app_state \<Rightarrow> astate" where
  "idle s = \<lparr>page = s, pending = []\<rparr>"

text \<open>The \<open>[visible]\<close> effect, which calls \<open>getInfo\<close> and so issues a listing.\<close>

definition reload_effect :: "app_state \<Rightarrow> app_state \<Rightarrow> call list" where
  "reload_effect s s' = (if visible s' \<noteq> visible s then [PList] else [])"

text \<open>\<open>handleSubmit(onSubmit)\<close> up to the \<open>await\<close> of \<open>setDoc\<close>/\<open>addDoc\<close>: the payload is
  built from the submitted data before the call, so an exception while building it is
  caught at once.\<close>

definition submit_issue :: "version \<Rightarrow> int \<Rightarrow> app_state \<Rightarrow> app_state \<times> call list" where
  "submit_issue v tz s =
     (if form_errors (form s) \<noteq> [] then (s\<lparr>errors := form_errors (form s)\<rparr>, [])
      else (let s' = s\<lparr>errors := []\<rparr> in
            case payload v tz (form s') of
              Inl _ \<Rightarrow> (log_error ''Error adding/updating document: '' s', [])
            | Inr w \<Rightarrow> (s', [PWrite (f_id (form s')) w])))"

text \<open>The page's event wiring with the awaits made explicit: the delete button issues the
  deletion, the submit button issues the write, and every other event completes at once.\<close>

fun a_handle :: "version \<Rightarrow> int \<Rightarrow> event \<Rightarrow> app_state \<Rightarrow> app_state \<times> call list" where
  "a_handle v tz (ClickDelete i) s =
     (if visible s \<or> length (items s) \<le> i then (s, []) else (s, [PDelete (row_id (items s ! i))]))"
| "a_handle v tz SubmitForm s = (if visible s then submit_issue v tz s else (s, []))"
| "a_handle v tz ClickAdd s = (handle v tz True ClickAdd s, [])"
| "a_handle v tz (ClickEdit i) s = (handle v tz True (ClickEdit i) s, [])"
| "a_handle v tz (TypeName x) s = (handle v tz True (TypeName x) s, [])"
| "a_handle v tz (TypeYear x) s = (handle v tz True (TypeYear x) s, [])"
| "a_handle v tz (TypeMonth x) s = (handle v tz True (TypeMonth x) s, [])"
| "a_handle v tz (TypeDay x) s = (handle v tz True (TypeDay x) s, [])"
| "a_handle v tz (PickCountry i) s = (handle v tz True (PickCountry i) s, [])"
| "a_handle v tz (PickCity i) s = (handle v tz True (PickCity i) s, [])"
| "a_handle v tz CloseModal s = (handle v tz True CloseModal s, [])"
| "a_handle v tz (RemoteDelete k) s = (handle v tz True (RemoteDelete k) s, [])"

definition a_step :: "version \<Rightarrow> int \<Rightarrow> event \<Rightarrow> astate \<Rightarrow> astate" where
  "a_step v tz e a =
     (case a_handle v tz e (page a) of
        (s', cs) \<Rightarrow> \<lparr>page = s', pending = pending a @ cs @ reload_effect (page a) s'\<rparr>)"

text \<open>The continuations. \<open>getInfo\<close> after its \<open>getDocs\<close> settles is \<open>getInfo\<close> itself (the
  listing is read when it settles); \<open>deleteInfo\<close> after \<open>deleteDoc\<close> calls \<open>getInfo\<close>;
  \<open>onSubmit\<close> after the write calls \<open>resetValues\<close>, whose visibility change runs the
  \<open>[visible]\<close> effect.\<close>

definition delete_done :: "bool \<Rightarrow> doc_id \<Rightarrow> app_state \<Rightarrow> app_state \<times> call list" where
  "delete_done ok k s =
     (case deleteDoc ok k (db s) of
        Inl _ \<Rightarrow> (log_error ''Error deleting document: '' s, [])
      | Inr st' \<Rightarrow> (s\<lparr>db := st'\<rparr>, [PList]))"

definition write_done ::
  "version \<Rightarrow> bool \<Rightarrow> doc_id option \<Rightarrow> write_data \<Rightarrow> app_state \<Rightarrow> app_state \<times> call list" where
  "write_done v ok kid w s =
     (let fail = (log_error ''Error adding/updating document: '' s, []);
          done = (\<lambda>st'. let s' = resetValues v (s\<lparr>db := st'\<rparr>) in (s', reload_effect s s'))
      in case kid of
           Some k \<Rightarrow> (case setDoc ok k w (db s) of Inl _ \<Rightarrow> fail | Inr st' \<Rightarrow> done st')
         | None \<Rightarrow> (case addDoc ok w (db s) of Inl _ \<Rightarrow> fail | Inr (_, st') \<Rightarrow> done st'))"

fun complete_call :: "version \<Rightarrow> int \<Rightarrow> bool \<Rightarrow> call \<Rightarrow> app_state \<Rightarrow> app_state \<times> call list" where
  "complete_call v tz ok PList s = (getInfo v tz ok s, [])"
| "complete_call v tz ok (PDelete k) s = delete_done ok k s"
| "complete_call v tz ok (PWrite kid w) s = write_done v ok kid w s"

definition remove_nth :: "nat \<Rightarrow> 'a list \<Rightarrow> 'a list" where
  "remove_nth i xs = take i xs @ drop (Suc i) xs"

definition complete :: "version \<Rightarrow> int \<Rightarrow> bool \<Rightarrow> nat \<Rightarrow> astate \<Rightarrow> astate" where
  "complete v tz ok i a =
     (if i < length (pending a)
      then (case complete_call v tz ok (pending a ! i) (page a) of
              (s', cs) \<Rightarrow> \<lparr>page = s', pending = remove_nth i (pending a) @ cs\<rparr>)
      else a)"

text \<open>The weight of the calls in flight: a listing settles with no further call, a delete
  or a write with at most one listing.\<close>

fun call_weight :: "call \<Rightarrow> nat" where
  "call_weight PList = 1"
| "call_weight (PDelete k) = 2"
| "call_weight (PWrite kid w) = 2"

definition pending_weight :: "astate \<Rightarrow> nat" where
  "pending_weight a = sum_list (map call_weight (pending a))"

function drain :: "version \<Rightarrow> int \<Rightarrow> bool \<Rightarrow> astate \<Rightarrow> astate" where
  "drain v tz ok a = (if pending a = [] then a else drain v tz ok (complete v tz ok 0 a))"
  by pat_completeness auto
termination
proof (relation "measure (\<lambda>(v, tz, ok, a). pending_weight a)")
  show "wf (measure (\<lambda>(v, tz, ok, a). pending_weight a))" by simp
next
  fix v tz ok and a :: astate
  assume ne: "pending a \<noteq> []"
  obtain c cs where p: "pending a = c # cs" using ne by (cases "pending a") auto
  have "sum_list (map call_weight (snd (complete_call v tz ok c (page a)))) < call_weight c"
  proof (cases c)
    case (PWrite kid w)
    have "sum_list (map call_weight (snd (write_done v ok kid w (page a)))) \<le> 1"
      by (auto simp: write_done_def Let_def reload_effect_def split: option.split sum.split prod.split)
    then show ?thesis using PWrite by simp
  qed (simp_all add: delete_done_def split: sum.split)
  moreover define r where "r = complete_call v tz ok c (page a)"
  then have "complete v tz ok 0 a = \<lparr>page = fst r, pending = cs @ snd r\<rparr>"
    using p by (simp add: complete_def remove_nth_def split: prod.split)
  ultimately show "((v, tz, ok, complete v tz ok 0 a), v, tz, ok, a)
             \<in> measure (\<lambda>(v, tz, ok, a). pending_weight a)"
    using p r_def by (simp add: pending_weight_def)
qed

declare drain.simps [simp del]

text \<open>An interleaved run: user events, and the settling of the \<open>i\<close>-th call in flight with
  the store's answer. Mounting the page issues the first listing.\<close>

datatype async_event = User event | Settle nat bool

fun a_run :: "version \<Rightarrow> int \<Rightarrow> async_event list \<Rightarrow> astate \<Rightarrow> astate" where
  "a_run v tz [] a = a"
| "a_run v tz (User e # es) a = a_run v tz es (a_step v tz e a)"
| "a_run v tz (Settle i ok # es) a = a_run v tz es (complete v tz ok i a)"

definition a_mount :: "firestore \<Rightarrow> astate" where
  "a_mount st = \<lparr>page = init_state st, pending = [PList]\<rparr>"

inductive a_reachable :: "version \<Rightarrow> int \<Rightarrow> firestore \<Rightarrow> astate \<Rightarrow> bool" where
  start: "a_reachable v tz st0 (a_mount st0)"
| user: "a_reachable v tz st0 a \<Longrightarrow> a_reachable v tz st0 (a_step v tz e a)"
| settle: "a_reachable v tz st0 a \<Longrightarrow> a_reachable v tz st0 (complete v tz ok i a)"

text \<open>Every id a call in flight will write to was issued by the store.\<close>

fun call_ids_ok :: "doc_id \<Rightarrow> call \<Rightarrow> bool" where
  "call_ids_ok n (PWrite (Some k) w) = (k < n)"
| "call_ids_ok n c = True"

definition a_ids_ok :: "astate \<Rightarrow> bool" where
  "a_ids_ok a \<longleftrightarrow> ids_ok (page a) \<and> (\<forall>c \<in> set (pending a). call_ids_ok (next_id (db (page a))) c)"

section \<open>Lemmas: settling calls\<close>

lemma drain_idle: "pending a = [] \<Longrightarrow> drain v tz ok a = a"
  by (subst drain.simps) simp

lemma drain_next: "pending a \<noteq> [] \<Longrightarrow> drain v tz ok a = drain v tz ok (complete v tz ok 0 a)"
  by (subst drain.simps) simp

lemma drain_list: "drain v tz ok \<lparr>page = s, pending = [PList]\<rparr> = idle (getInfo v tz ok s)"
  by (subst drain_next) (simp_all add: complete_def remove_nth_def drain_idle idle_def)

lemma drain_effect:
  "drain v tz ok \<lparr>page = s', pending = reload_effect s s'\<rparr> = idle (visible_effect v tz ok s s')"
  by (simp add: reload_effect_def visible_effect_def drain_list drain_idle idle_def)

lemma drain_delete:
  "drain v tz ok \<lparr>page = s, pending = [PDelete k]\<rparr> = idle (deleteInfo v tz ok k s)"
  by (subst drain_next)
     (simp_all add: complete_def remove_nth_def delete_done_def deleteInfo_def
                    drain_list drain_idle idle_def split: sum.split)

lemma write_done_onSubmit:
  assumes "payload v tz (form s) = Inr w"
  shows "write_done v ok (f_id (form s)) w s = (onSubmit v tz ok s, reload_effect s (onSubmit v tz ok s))"
  using assms
  by (auto simp: write_done_def onSubmit_def Let_def reload_effect_def
           split: option.split sum.split prod.split)

lemma drain_write:
  assumes "payload v tz (form s) = Inr w"
  shows "drain v tz ok \<lparr>page = s, pending = [PWrite (f_id (form s)) w]\<rparr>
         = idle (visible_effect v tz ok s (onSubmit v tz ok s))"
  using write_done_onSubmit[OF assms, of ok]
  by (subst drain_next) (simp_all add: complete_def remove_nth_def drain_effect)

lemma visible_effect_cong:
  "visible s = visible s' \<Longrightarrow> visible_effect v tz ok s x = visible_effect v tz ok s' x"
  by (simp add: visible_effect_def)

lemma a_step_idle:
  "a_handle v tz e s = (s', cs)
   \<Longrightarrow> a_step v tz e (idle s) = \<lparr>page = s', pending = cs @ reload_effect s s'\<rparr>"
  by (simp add: a_step_def idle_def)

lemma drain_submit:
  assumes "visible s"
  shows "drain v tz ok (a_step v tz SubmitForm (idle s)) = idle (step v tz ok SubmitForm s)"
proof (cases "form_errors (form s) = []")
  case False
  then show ?thesis
    using assms a_step_idle[of v tz SubmitForm s]
    by (simp add: submit_issue_def step_def handleSubmit_def visible_effect_def
                  reload_effect_def drain_idle idle_def)
next
  case True
  let ?s' = "s\<lparr>errors := []\<rparr>"
  show ?thesis
  proof (cases "payload v tz (form ?s')")
    case (Inl x)
    then show ?thesis
      using assms True a_step_idle[of v tz SubmitForm s]
      by (simp add: submit_issue_def step_def handleSubmit_def onSubmit_def visible_effect_def
                    reload_effect_def drain_idle idle_def)
  next
    case (Inr w)
    then have "a_step v tz SubmitForm (idle s) = \<lparr>page = ?s', pending = [PWrite (f_id (form ?s')) w]\<rparr>"
      using assms True a_step_idle[of v tz SubmitForm s]
      by (simp add: submit_issue_def reload_effect_def)
    then show ?thesis
      using drain_write[OF Inr, of ok] visible_effect_cong[of ?s' s v tz ok] assms True
      by (simp add: step_def handleSubmit_def)
  qed
qed

section \<open>Lemmas: identifiers under interleaving\<close>

lemma call_ids_ok_mono: "call_ids_ok n c \<Longrightarrow> n \<le> n' \<Longrightarrow> call_ids_ok n' c"
  by (induction n c rule: call_ids_ok.induct) auto

lemma call_ids_ok_write [simp]:
  "call_ids_ok n (PWrite kid w) \<longleftrightarrow> (\<forall>k. kid = Some k \<longrightarrow> k < n)"
  by (cases kid) simp_all

lemma remove_nth_subset: "set (remove_nth i xs) \<subseteq> set xs"
  by (auto simp: remove_nth_def dest: in_set_takeD in_set_dropD)

lemma onSubmit_next_id: "next_id (db s) \<le> next_id (db (onSubmit v tz ok s))"
  using onSubmit_cases[of v tz ok s]
  by (auto simp: onSubmit_def Let_def addDoc_Inr next_id_mono_setDoc
           split: sum.splits option.splits prod.splits)

lemma handle_next_id: "next_id (db s) \<le> next_id (db (handle v tz ok e s))"
proof (cases e)
  case (ClickDelete i)
  then show ?thesis
    by (auto simp: deleteInfo_def next_id_mono_deleteDoc split: sum.split)
next
  case SubmitForm
  then show ?thesis
    using onSubmit_next_id[of "s\<lparr>errors := []\<rparr>" v tz ok] by (simp add: handleSubmit_def)
qed (simp_all add: setModalValueType_def country_onChange_def Let_def)

lemma complete_call_issues: "c' \<in> set (snd (complete_call v tz ok c s)) \<Longrightarrow> c' = PList"
  by (cases c)
     (auto simp: delete_done_def write_done_def Let_def reload_effect_def
           split: sum.splits option.splits prod.splits)

lemma write_done_ids_ok:
  assumes "ids_ok s" "call_ids_ok (next_id (db s)) (PWrite kid w)"
  shows "ids_ok (fst (write_done v ok kid w s)) \<and> next_id (db s) \<le> next_id (db (fst (write_done v ok kid w s)))"
proof (cases kid)
  case None
  then show ?thesis
  proof (cases "addDoc ok w (db s)")
    case (Inr r)
    obtain k st' where add: "addDoc ok w (db s) = Inr (k, st')" using Inr by (cases r) auto
    have "store_inv st'" using assms(1) addDoc_inv[OF _ add] by (simp add: ids_ok_def)
    moreover have "next_id st' = Suc (next_id (db s))" using add by (auto simp: addDoc_Inr)
    ultimately have "store_inv st'" "next_id st' = Suc (next_id (db s))" by simp_all
    then have "ids_ok (s\<lparr>db := st'\<rparr>)" using assms(1) by (auto simp: ids_ok_def)
    with None add show ?thesis
      using \<open>next_id st' = Suc (next_id (db s))\<close>
      by (simp add: write_done_def Let_def resetValues_ids_ok)
  qed (use assms in \<open>simp add: write_done_def Let_def log_error_def ids_ok_def\<close>)
next
  case (Some k)
  then have k: "k < next_id (db s)" using assms(2) by simp
  show ?thesis
  proof (cases "setDoc ok k w (db s)")
    case (Inr st')
    then have "store_inv st'" "next_id st' = next_id (db s)"
      using assms(1) k setDoc_inv next_id_mono_setDoc by (auto simp: ids_ok_def)
    then have "ids_ok (s\<lparr>db := st'\<rparr>)" using assms(1) by (simp add: ids_ok_def)
    with Some Inr show ?thesis
      using \<open>next_id st' = next_id (db s)\<close>
      by (simp add: write_done_def Let_def resetValues_ids_ok)
  qed (use assms Some in \<open>simp add: write_done_def Let_def log_error_def ids_ok_def\<close>)
qed

lemma complete_call_ids_ok:
  assumes "ids_ok s" "call_ids_ok (next_id (db s)) c"
  shows "ids_ok (fst (complete_call v tz ok c s))
         \<and> next_id (db s) \<le> next_id (db (fst (complete_call v tz ok c s)))"
proof (cases c)
  case PList
  then show ?thesis using assms(1) by (simp add: getInfo_ids_ok)
next
  case (PDelete k)
  then show ?thesis
    using assms(1) deleteInfo_ids_ok[of s _ _ True k]
    by (auto simp: delete_done_def deleteInfo_def log_error_def ids_ok_def
                   next_id_mono_deleteDoc deleteDoc_inv split: sum.split)
next
  case (PWrite kid w)
  then show ?thesis using write_done_ids_ok[OF assms(1)] assms(2) by simp
qed

lemma complete_out: "\<not> i < length (pending a) \<Longrightarrow> complete v tz ok i a = a"
  unfolding complete_def by (rule if_not_P)

lemma complete_in:
  "i < length (pending a) \<Longrightarrow> complete_call v tz ok (pending a ! i) (page a) = (s', cs)
   \<Longrightarrow> complete v tz ok i a = \<lparr>page = s', pending = remove_nth i (pending a) @ cs\<rparr>"
  unfolding complete_def by simp

lemma complete_ids_ok: "a_ids_ok a \<Longrightarrow> a_ids_ok (complete v tz ok i a)"
proof -
  assume inv: "a_ids_ok a"
  show ?thesis
  proof (cases "i < length (pending a)")
    case False
    with inv show ?thesis by (simp add: complete_out)
  next
    case True
    let ?c = "pending a ! i"
    define s' where "s' = fst (complete_call v tz ok ?c (page a))"
    define cs where "cs = snd (complete_call v tz ok ?c (page a))"
    have cc: "complete_call v tz ok ?c (page a) = (s', cs)" by (simp add: s'_def cs_def)
    have c: "call_ids_ok (next_id (db (page a))) ?c"
      using inv nth_mem[OF True] unfolding a_ids_ok_def by blast
    have s': "ids_ok s'" "next_id (db (page a)) \<le> next_id (db s')"
      using complete_call_ids_ok[OF _ c, of v tz ok] inv unfolding s'_def a_ids_ok_def by simp_all
    have rest: "\<forall>c' \<in> set (remove_nth i (pending a)). call_ids_ok (next_id (db s')) c'"
    proof
      fix c' assume "c' \<in> set (remove_nth i (pending a))"
      then have "c' \<in> set (pending a)" by (rule subsetD[OF remove_nth_subset])
      then have "call_ids_ok (next_id (db (page a))) c'" using inv unfolding a_ids_ok_def by blast
      then show "call_ids_ok (next_id (db s')) c'" using s'(2) by (rule call_ids_ok_mono)
    qed
    have new: "\<forall>c' \<in> set cs. call_ids_ok (next_id (db s')) c'"
    proof
      fix c' assume "c' \<in> set cs"
      then have "c' = PList" using complete_call_issues[of c' v tz ok ?c "page a"] unfolding cs_def by simp
      then show "call_ids_ok (next_id (db s')) c'" by simp
    qed
    show ?thesis
      unfolding complete_in[OF True cc] a_ids_ok_def using s'(1) rest new by auto
  qed
qed

lemma a_handle_store_free:
  "e \<noteq> SubmitForm \<Longrightarrow> (\<forall>i. e \<noteq> ClickDelete i) \<Longrightarrow> a_handle v tz e s = (handle v tz True e s, [])"
  by (cases e) (simp_all del: handle.simps)

lemma a_handle_ids_ok:
  assumes "ids_ok s" "a_handle v tz e s = (s', cs)"
  shows "ids_ok s' \<and> next_id (db s) \<le> next_id (db s') \<and> (\<forall>c \<in> set cs. call_ids_ok (next_id (db s')) c)"
proof (cases "e = SubmitForm \<or> (\<exists>i. e = ClickDelete i)")
  case True
  then show ?thesis
    using assms
    by (auto simp: submit_issue_def Let_def ids_ok_def log_error_def split: if_splits sum.splits)
next
  case False
  then have "s' = handle v tz True e s" "cs = []"
    using assms(2) a_handle_store_free[of e v tz s] by auto
  then show ?thesis using assms(1) handle_ids_ok handle_next_id by simp
qed

lemma a_step_ids_ok: "a_ids_ok a \<Longrightarrow> a_ids_ok (a_step v tz e a)"
proof -
  assume inv: "a_ids_ok a"
  define s' where "s' = fst (a_handle v tz e (page a))"
  define cs where "cs = snd (a_handle v tz e (page a))"
  have h: "a_handle v tz e (page a) = (s', cs)" by (simp add: s'_def cs_def)
  have "ids_ok s'" "next_id (db (page a)) \<le> next_id (db s')"
    "\<forall>c \<in> set cs. call_ids_ok (next_id (db s')) c"
    using a_handle_ids_ok[OF _ h] inv by (simp_all add: a_ids_ok_def)
  then show ?thesis
    using inv h call_ids_ok_mono
    by (auto simp: a_step_def a_ids_ok_def reload_effect_def)
qed

section \<open>Lemmas: reachable interleavings\<close>

lemma a_reachable_run: "a_reachable v tz st0 a \<Longrightarrow> a_reachable v tz st0 (a_run v tz es a)"
proof (induction v tz es a rule: a_run.induct)
  case (2 v tz e es a)
  then show ?case by (simp add: a_reachable.user)
next
  case (3 v tz i ok es a)
  then show ?case by (simp add: a_reachable.settle)
qed simp

lemma a_reachable_drain: "a_reachable v tz st0 a \<Longrightarrow> a_reachable v tz st0 (drain v tz ok a)"
proof (induction v tz ok a rule: drain.induct)
  case (1 v tz ok a)
  then show ?case
    by (cases "pending a = []") (simp_all add: drain_idle drain_next a_reachable.settle)
qed

section \<open>Lemmas: the add dialog of v2 under interleaving\<close>

lemma a_handle_v2_clean: "add_form_clean s \<Longrightarrow> add_form_clean (fst (a_handle V2 tz e s))"
proof (cases e)
  case SubmitForm
  assume "add_form_clean s"
  then show ?thesis using SubmitForm
    by (auto simp: submit_issue_def log_error_def add_form_clean_def Let_def split: sum.split)
qed (simp_all add: handle_v2_clean del: handle.simps)

lemma complete_call_v2_clean:
  "add_form_clean s \<Longrightarrow> add_form_clean (fst (complete_call V2 tz ok c s))"
  by (cases c)
     (auto simp: add_form_clean_def delete_done_def write_done_def Let_def log_error_def
                 resetValues_def resetValues_v2_def split: sum.split option.split prod.split)

lemma a_reachable_v2_clean: "a_reachable v tz st0 a \<Longrightarrow> v = V2 \<Longrightarrow> add_form_clean (page a)"
proof (induction rule: a_reachable.induct)
  case start
  then show ?case by (simp add: a_mount_def add_form_clean_def init_state_def empty_form_def)
next
  case (user v tz st0 a e)
  then show ?case
    using a_handle_v2_clean[of "page a" tz e]
    by (cases "a_handle V2 tz e (page a)") (simp add: a_step_def)
next
  case (settle v tz st0 a ok i)
  then show ?case
    using complete_call_v2_clean[of "page a" tz ok "pending a ! i"]
    by (cases "complete_call V2 tz ok (pending a ! i) (page a)") (simp add: complete_def)
qed

section \<open>Lemmas: the synchronous model inside the interleaved one\<close>

lemma drain_step: "drain v tz ok (a_step v tz e (idle s)) = idle (step v tz ok e s)"
proof (cases e)
  case SubmitForm
  show ?thesis
  proof (cases "visible s")
    case True
    with SubmitForm show ?thesis by (simp add: drain_submit)
  next
    case False
    with SubmitForm show ?thesis
      by (simp add: a_step_def idle_def reload_effect_def drain_idle step_def visible_effect_def)
  qed
next
  case (ClickDelete i)
  show ?thesis
  proof (cases "visible s \<or> length (items s) \<le> i")
    case True
    with ClickDelete show ?thesis
      by (auto simp: a_step_def idle_def reload_effect_def drain_idle step_def visible_effect_def)
  next
    case False
    with ClickDelete show ?thesis
      by (simp add: a_step_def idle_def reload_effect_def drain_delete step_def visible_effect_def)
  qed
qed (simp_all add: a_step_def idle_def drain_effect step_def)

lemma drain_pending: "pending (drain v tz ok a) = []"
proof (induction v tz ok a rule: drain.induct)
  case (1 v tz ok a)
  then show ?case by (cases "pending a = []") (simp_all add: drain_idle drain_next)
qed

lemma a_run_append [simp]: "a_run v tz (xs @ ys) a = a_run v tz ys (a_run v tz xs a)"
  by (induction v tz xs a rule: a_run.induct) simp_all

lemma drain_as_run: "\<exists>k. a_run v tz (replicate k (Settle 0 ok)) a = drain v tz ok a"
proof (induction v tz ok a rule: drain.induct)
  case (1 v tz ok a)
  show ?case
  proof (cases "pending a = []")
    case True
    then show ?thesis by (intro exI[of _ 0]) (simp add: drain_idle)
  next
    case False
    then obtain k where "a_run v tz (replicate k (Settle 0 ok)) (complete v tz ok 0 a) = drain v tz ok a"
      using "1" drain_next by metis
    then show ?thesis by (intro exI[of _ "Suc k"]) simp
  qed
qed

lemma idle_page: "pending a = [] \<Longrightarrow> idle (page a) = a"
  by (cases a) (simp add: idle_def)

lemma run_as_a_run: "\<exists>es. a_run v tz es (idle s) = idle (run v tz (map (Pair True) evs) s)"
proof (induction evs arbitrary: s)
  case Nil
  then show ?case by (intro exI[of _ "[]"]) simp
next
  case (Cons e evs)
  obtain k where k: "a_run v tz (replicate k (Settle 0 True)) (a_step v tz e (idle s))
                     = idle (step v tz True e s)"
    using drain_as_run[of v tz True "a_step v tz e (idle s)"] drain_step by metis
  obtain es where "a_run v tz es (idle (step v tz True e s)) = idle (run v tz (map (Pair True) evs) (step v tz True e s))"
    using Cons.IH by blast
  then show ?case using k by (intro exI[of _ "(User e # replicate k (Settle 0 True)) @ es"]) simp
qed

lemma a_reachable_ids_ok: "a_reachable v tz st0 a \<Longrightarrow> store_inv st0 \<Longrightarrow> a_ids_ok a"
proof (induction rule: a_reachable.induct)
  case start
  then show ?case by (simp add: a_mount_def a_ids_ok_def ids_ok_def init_state_def empty_form_def)
next
  case user
  then show ?case by (simp add: a_step_ids_ok)
next
  case settle
  then show ?case by (simp add: complete_ids_ok)
qed

section \<open>Lemmas: two writes in flight\<close>

lemma addDoc_ok:
  "to_document w = Inr d \<Longrightarrow>
   addDoc True w st = Inr (next_id st, st\<lparr>docs := docs st @ [(next_id st, d)], next_id := Suc (next_id st)\<rparr>)"
  by (simp add: addDoc_def)

lemma submit_issue_valid:
  assumes "form_errors (form s) = []" "payload v tz (form s) = Inr w"
  shows "submit_issue v tz s = (s\<lparr>errors := []\<rparr>, [PWrite (f_id (form s)) w])"
  using assms by (simp add: submit_issue_def)

section \<open>Properties of the interleaved page\<close>

text \<open>
  C22. The submit button stays enabled while the write is in flight. From every state
  with a valid add dialog open, pressing Submit twice before the first \<open>addDoc\<close>
  settles stores the record twice, under two new ids, once the writes settle with the
  store available (the specification asks the session to disable a duplicate submit).
\<close>

theorem double_submit_duplicates:
  assumes "visible s" "f_id (form s) = None" "form_errors (form s) = []"
    and "payload v tz (form s) = Inr w" "to_document w = Inr d" "store_inv (db s)"
  shows "lookup (db (page (drain v tz True (a_step v tz SubmitForm (a_step v tz SubmitForm (idle s))))))
         = (lookup (db s))(next_id (db s) \<mapsto> d, Suc (next_id (db s)) \<mapsto> d)"
proof -
  define s' where "s' = s\<lparr>errors := []\<rparr>"
  define st1 where "st1 = (db s)\<lparr>docs := docs (db s) @ [(next_id (db s), d)], next_id := Suc (next_id (db s))\<rparr>"
  define st2 where "st2 = st1\<lparr>docs := docs st1 @ [(next_id st1, d)], next_id := Suc (next_id st1)\<rparr>"
  define s1 where "s1 = resetValues v (s'\<lparr>db := st1\<rparr>)"
  define s2 where "s2 = resetValues v (s1\<lparr>db := st2\<rparr>)"
  have iss: "submit_issue v tz s = (s', [PWrite None w])" "submit_issue v tz s' = (s', [PWrite None w])"
    using submit_issue_valid[of s v tz w] submit_issue_valid[of s' v tz w] assms(2-4)
    by (simp_all add: s'_def)
  have a2: "a_step v tz SubmitForm (a_step v tz SubmitForm (idle s))
            = \<lparr>page = s', pending = [PWrite None w, PWrite None w]\<rparr>"
    using assms(1) iss by (simp add: a_step_def idle_def reload_effect_def s'_def)
  have add1: "addDoc True w (db s') = Inr (next_id (db s), st1)"
    using addDoc_ok[OF assms(5)] by (simp add: s'_def st1_def)
  have add2: "addDoc True w st1 = Inr (next_id st1, st2)"
    using addDoc_ok[OF assms(5)] by (simp add: st2_def)
  have w1: "write_done v True None w s' = (s1, [PList])"
    using add1 assms(1) by (simp add: write_done_def Let_def reload_effect_def s1_def s'_def)
  have w2: "write_done v True None w s1 = (s2, [])"
    using add2 by (simp add: write_done_def Let_def reload_effect_def s1_def s2_def)
  have "drain v tz True \<lparr>page = s', pending = [PWrite None w, PWrite None w]\<rparr>
        = drain v tz True \<lparr>page = s1, pending = [PWrite None w, PList]\<rparr>"
    by (subst drain_next) (simp_all add: complete_def remove_nth_def w1)
  also have "\<dots> = drain v tz True \<lparr>page = s2, pending = [PList]\<rparr>"
    by (subst drain_next) (simp_all add: complete_def remove_nth_def w2)
  also have "\<dots> = idle (getInfo v tz True s2)"
    by (rule drain_list)
  finally have "drain v tz True \<lparr>page = s', pending = [PWrite None w, PWrite None w]\<rparr>
                = idle (getInfo v tz True s2)" .
  then have "db (page (drain v tz True (a_step v tz SubmitForm (a_step v tz SubmitForm (idle s))))) = st2"
    using a2 by (simp add: idle_def s2_def)
  moreover have "store_inv st1" using addDoc_inv[OF assms(6) add1[unfolded s'_def, simplified]] .
  ultimately show ?thesis
    using lookup_addDoc[OF assms(6) add1[unfolded s'_def, simplified] assms(5)]
          lookup_addDoc[OF _ add2 assms(5)]
    by (simp add: st1_def)
qed


theorem double_submit_duplicates_witness:
  "lookup (db (page (drain V2 (-18000000) True (a_step V2 (-18000000) SubmitForm (a_step V2 (-18000000) SubmitForm
      (idle ((setModalValueType ''Add'' (init_state empty_store))\<lparr>form :=
         \<lparr>f_id = None, f_name = ''Bob Smith'', f_year = Some 1990, f_month = Some 5, f_day = Some 14,
          f_country = opt ''Canada'', f_city = opt ''Ottawa''\<rparr>\<rparr>))))))) 1
   = Some \<lparr>City = opt ''Ottawa'', Country = opt ''Canada'',
           DateOfBirth = \<lparr>ts_seconds = 642661200, ts_nanos = 0\<rparr>, Name = ''Bob Smith''\<rparr>"
proof -
  let ?f = "\<lparr>f_id = None, f_name = ''Bob Smith'', f_year = Some 1990, f_month = Some 5, f_day = Some 14,
          f_country = opt ''Canada'', f_city = opt ''Ottawa''\<rparr>"
  let ?s = "(setModalValueType ''Add'' (init_state empty_store))\<lparr>form := ?f\<rparr>"
  let ?w = "\<lparr>wd_City = opt ''Ottawa'', wd_Country = opt ''Canada'',
             wd_DateOfBirth = Some 642661200000, wd_Name = ''Bob Smith''\<rparr>"
  let ?d = "\<lparr>City = opt ''Ottawa'', Country = opt ''Canada'',
           DateOfBirth = \<lparr>ts_seconds = 642661200, ts_nanos = 0\<rparr>, Name = ''Bob Smith''\<rparr>"
  have h: "visible ?s" "f_id (form ?s) = None" "form_errors (form ?s) = []"
    by (simp_all add: setModalValueType_def form_errors_def num_rule_ok_def required_ok_def opt_def sel_option_def)
  have p: "payload V2 (-18000000) (form ?s) = Inr ?w" by code_simp
  have t: "to_document ?w = Inr ?d" by (simp add: to_document_def Timestamp_fromDate_def opt_def)
  have i: "store_inv (db ?s)"
    using store_inv_empty by (simp add: setModalValueType_def init_state_def)
  show ?thesis
    using double_submit_duplicates[OF h p t i]
    by (simp add: setModalValueType_def init_state_def empty_store_def)
qed

text \<open>
  C23. The continuation of a write runs on whatever page state holds when the write
  settles. In v2, settling a successful write, in any interleaved state, closes the
  dialog that is open then and empties all its fields: if the user closed the dialog of
  that write and began a new one, what they typed there is lost.
\<close>

theorem late_write_closes_new_dialog:
  assumes "i < length (pending a)" "pending a ! i = PWrite kid w" "to_document w = Inr d"
  shows "\<not> visible (page (complete V2 tz True i a))
         \<and> form (page (complete V2 tz True i a)) = empty_form\<lparr>f_country := JStr [], f_city := JStr []\<rparr>"
  using assms
  by (cases kid)
     (simp_all add: complete_def write_done_def Let_def addDoc_ok setDoc_def resetValues_def
                    resetValues_v2_def rhf_reset_def empty_form_def)

theorem late_write_closes_new_dialog_witness:
  "\<not> visible (page (complete V2 0 True 0
     \<lparr>page = (setModalValueType ''Add'' (init_state empty_store))\<lparr>form :=
              empty_form\<lparr>f_name := ''Al''\<rparr>\<rparr>,
      pending = [PWrite None \<lparr>wd_City = opt ''Ottawa'', wd_Country = opt ''Canada'',
                              wd_DateOfBirth = Some 0, wd_Name = ''Bob''\<rparr>]\<rparr>))"
proof -
  have t: "to_document \<lparr>wd_City = opt ''Ottawa'', wd_Country = opt ''Canada'',
                         wd_DateOfBirth = Some 0, wd_Name = ''Bob''\<rparr>
           = Inr \<lparr>City = opt ''Ottawa'', Country = opt ''Canada'',
                  DateOfBirth = \<lparr>ts_seconds = 0, ts_nanos = 0\<rparr>, Name = ''Bob''\<rparr>"
    by (simp add: to_document_def Timestamp_fromDate_def opt_def sel_option_def)
  let ?a = "\<lparr>page = (setModalValueType ''Add'' (init_state empty_store))\<lparr>form :=
              empty_form\<lparr>f_name := ''Al''\<rparr>\<rparr>,
      pending = [PWrite None \<lparr>wd_City = opt ''Ottawa'', wd_Country = opt ''Canada'',
                              wd_DateOfBirth = Some 0, wd_Name = ''Bob''\<rparr>]\<rparr>"
  have "0 < length (pending ?a)"
    "pending ?a ! 0 = PWrite None \<lparr>wd_City = opt ''Ottawa'', wd_Country = opt ''Canada'',
                                    wd_DateOfBirth = Some 0, wd_Name = ''Bob''\<rparr>"
    by simp_all
  from late_write_closes_new_dialog[OF this t, of 0] show ?thesis by (rule conjunct1)
qed

end
