(* ===== verification/Liveness.thy ===== *)
theory Liveness
  imports Async
begin

text \<open>
  What the user can still achieve from a state, rather than what can never happen. In
  v2 every reachable page can add a record: closing an open dialog and filling in the
  add dialog leads to a state where the store holds the new record (\<open>add_events\<close>,
  the user's actions, and \<open>new_doc\<close>, the record stored), and so can every state of
  the interleaved page of \<open>Async\<close>, once its calls in flight have settled. In v1 this fails: once an
  edit dialog has set the hidden id, every later submission goes to \<open>setDoc\<close> and the
  store never issues another id.
\<close>

text \<open>The user's actions that add a record: Add, the name, the date, a country and a
  city from the offered options, Submit.\<close>

definition add_events :: "string \<Rightarrow> int \<Rightarrow> int \<Rightarrow> int \<Rightarrow> nat \<Rightarrow> nat \<Rightarrow> event list" where
  "add_events n y m d i j =
     [ClickAdd, TypeName n, TypeYear (Some y), TypeMonth (Some m), TypeDay (Some d),
      PickCountry i, PickCity j, SubmitForm]"

text \<open>The record those actions store: the name, the date as \<open>Timestamp.fromDate\<close> of
  \<open>new Date(y, m - 1, d)\<close> (whole seconds, for a zone offset of whole seconds), and the
  chosen country and city as \<open>{ value, label }\<close>.\<close>

definition new_doc :: "int \<Rightarrow> string \<Rightarrow> int \<Rightarrow> int \<Rightarrow> int \<Rightarrow> nat \<Rightarrow> nat \<Rightarrow> user_doc" where
  "new_doc tz n y m d i j =
     \<lparr>City = city_options_effect (get_prop (optionsCountry ! i) ''value'') [] ! j,
      Country = optionsCountry ! i,
      DateOfBirth = \<lparr>ts_seconds = 86400 * day_of_ymd y m d - tz div 1000, ts_nanos = 0\<rparr>, Name = n\<rparr>"


section \<open>Lemmas: filling in and submitting the add dialog\<close>

lemma days_in_month_le: "1 \<le> m \<Longrightarrow> m \<le> 12 \<Longrightarrow> days_in_month y m \<le> 31"
  using month_cases12[of "m - 1"] leap_of_cases[of y]
  by (elim disjE; auto simp: days_in_month_def month_start_def)

lemma fill_add_dialog:
  assumes "\<not> visible t" "i < length optionsCountry" "j < (2::nat)"
  shows "let u = run v tz (map (Pair True) (butlast (add_events n y m d i j))) t in
         visible u \<and> db u = db t \<and> form u = (form t)\<lparr>f_name := n, f_year := Some y,
           f_month := Some m, f_day := Some d, f_country := optionsCountry ! i,
           f_city := city_options_effect (get_prop (optionsCountry ! i) ''value'') (city_options t) ! j\<rparr>"
proof -
  have c: "length (city_options_effect (get_prop (optionsCountry ! i) ''value'') xs) = 2" for xs
    using optionsCountry_cases[OF assms(2)] by (auto simp: city_options_effect_def opt_def)
  show ?thesis
    using assms c
    by (simp add: add_events_def step_def visible_effect_def setModalValueType_def
                  country_onChange_def Let_def)
qed

lemma run_append [simp]: "run v tz (xs @ ys) s = run v tz ys (run v tz xs s)"
  by (induction xs arbitrary: s) auto

lemma add_events_split:
  "map (Pair True) (add_events n y m d i j)
   = map (Pair True) (butlast (add_events n y m d i j)) @ [(True, SubmitForm)]"
  by (simp add: add_events_def)

lemma filled_form_ok:
  assumes "f_name f = n" "n \<noteq> []" "f_year f = Some y" "f_month f = Some m" "f_day f = Some d"
    and "valid_ymd y m d" "1923 \<le> y" "y \<le> 2023" "f_country f = opt c" "f_city f = opt c'"
    and "tz mod 1000 = 0" "\<bar>tz\<bar> \<le> msPerDay"
  shows "form_errors f = []
         \<and> Timestamp_fromDate (dob_Date tz f)
             = Inr \<lparr>ts_seconds = 86400 * day_of_ymd y m d - tz div 1000, ts_nanos = 0\<rparr>"
proof
  have "d \<le> 31" using assms(6) days_in_month_le[of m y] by (simp add: valid_ymd_def)
  then show "form_errors f = []"
    using assms(1-10)
    by (simp add: form_errors_def num_rule_ok_def required_ok_def valid_ymd_def opt_def sel_option_def)
  show "Timestamp_fromDate (dob_Date tz f)
        = Inr \<lparr>ts_seconds = 86400 * day_of_ymd y m d - tz div 1000, ts_nanos = 0\<rparr>"
    using stored_timestamp[OF assms(3-8,11,12)] .
qed

lemma filled_choice:
  assumes "i < length optionsCountry" "j < (2::nat)"
  obtains c c' where "optionsCountry ! i = opt c"
    "city_options_effect (get_prop (optionsCountry ! i) ''value'') xs ! j = opt c'"
    "city_options_effect (get_prop (optionsCountry ! i) ''value'') xs
     = city_options_effect (get_prop (optionsCountry ! i) ''value'') []"
proof -
  have "j = 0 \<or> j = 1" using assms(2) by arith
  then show thesis
    using that optionsCountry_cases[OF assms(1)] by (elim disjE; auto simp: city_options_effect_def opt_def)
qed

lemma submit_new_record:
  assumes "visible u" "f_id (form u) = None" "store_inv (db u)"
    and "f_name (form u) = n" "n \<noteq> []" "f_year (form u) = Some y" "f_month (form u) = Some m"
    and "f_day (form u) = Some d" "valid_ymd y m d" "1923 \<le> y" "y \<le> 2023"
    and "f_country (form u) = opt c" "f_city (form u) = opt c'"
    and "tz mod 1000 = 0" "\<bar>tz\<bar> \<le> msPerDay"
  shows "lookup (db (step V2 tz True SubmitForm u)) = (lookup (db u))(next_id (db u) \<mapsto>
           \<lparr>City = opt c', Country = opt c,
            DateOfBirth = \<lparr>ts_seconds = 86400 * day_of_ymd y m d - tz div 1000, ts_nanos = 0\<rparr>,
            Name = n\<rparr>)"
proof -
  note ok = filled_form_ok[OF assms(4-13,14,15)]
  have fe: "form_errors (form u) = []" using ok by simp
  let ?w = "\<lparr>wd_City = opt c', wd_Country = opt c, wd_DateOfBirth = dob_Date tz (form u), wd_Name = n\<rparr>"
  have p: "payload V2 tz (form u) = Inr ?w"
    using assms(4,12,13) by (simp add: payload_def payload_v2_def opt_def)
  let ?ts = "\<lparr>ts_seconds = 86400 * day_of_ymd y m d - tz div 1000, ts_nanos = 0\<rparr>"
  have ts: "Timestamp_fromDate (dob_Date tz (form u)) = Inr ?ts"
    using ok by simp
  let ?doc = "\<lparr>City = opt c', Country = opt c, DateOfBirth = ?ts, Name = n\<rparr>"
  have td: "to_document ?w = Inr ?doc"
    using ts by (simp add: to_document_def opt_def sel_option_def)
  let ?st' = "(db u)\<lparr>docs := docs (db u) @ [(next_id (db u), ?doc)], next_id := Suc (next_id (db u))\<rparr>"
  have add: "addDoc True ?w (db u) = Inr (next_id (db u), ?st')"
    using td by (simp add: addDoc_def)
  have "handle V2 tz True SubmitForm u = resetValues V2 (u\<lparr>errors := [], db := ?st'\<rparr>)"
    using assms(1,2) fe p add by (simp add: handleSubmit_def onSubmit_def)
  then have "db (step V2 tz True SubmitForm u) = ?st'"
    using assms(1) by (simp add: step_def visible_effect_def)
  then show ?thesis using lookup_addDoc[OF assms(3) add td] by simp
qed

lemma add_events_run:
  assumes "\<not> visible t" "f_id (form t) = None" "store_inv (db t)"
    and "n \<noteq> []" "valid_ymd y m d" "1923 \<le> y" "y \<le> 2023"
    and "i < length optionsCountry" "j < (2::nat)" "tz mod 1000 = 0" "\<bar>tz\<bar> \<le> msPerDay"
  shows "lookup (db (run V2 tz (map (Pair True) (add_events n y m d i j)) t))
         = (lookup (db t))(next_id (db t) \<mapsto> new_doc tz n y m d i j)"
proof -
  define u where "u = run V2 tz (map (Pair True) (butlast (add_events n y m d i j))) t"
  have u: "visible u" "db u = db t"
    "form u = (form t)\<lparr>f_name := n, f_year := Some y, f_month := Some m, f_day := Some d,
        f_country := optionsCountry ! i,
        f_city := city_options_effect (get_prop (optionsCountry ! i) ''value'') (city_options t) ! j\<rparr>"
    using fill_add_dialog[OF assms(1,8,9), of V2 tz n y m d] unfolding u_def Let_def by simp_all
  obtain c c' where c: "optionsCountry ! i = opt c"
    and c': "city_options_effect (get_prop (optionsCountry ! i) ''value'') (city_options t) ! j = opt c'"
    and cc: "city_options_effect (get_prop (optionsCountry ! i) ''value'') (city_options t)
             = city_options_effect (get_prop (optionsCountry ! i) ''value'') []"
    by (rule filled_choice[OF assms(8,9)])
  have "lookup (db (step V2 tz True SubmitForm u)) = (lookup (db u))(next_id (db u) \<mapsto>
           \<lparr>City = opt c', Country = opt c,
            DateOfBirth = \<lparr>ts_seconds = 86400 * day_of_ymd y m d - tz div 1000, ts_nanos = 0\<rparr>,
            Name = n\<rparr>)"
    using submit_new_record[of u n y m d c c' tz] u assms(2-7,10,11) c c' by simp
  then show ?thesis
    using u(2) c c' cc by (simp add: add_events_split u_def[symmetric] new_doc_def)
qed

lemma add_from_clean:
  assumes "add_form_clean s" "store_inv (db s)" "tz mod 1000 = 0" "\<bar>tz\<bar> \<le> msPerDay"
    and "n \<noteq> []" "valid_ymd y m d" "1923 \<le> y" "y \<le> 2023"
    and "i < length optionsCountry" "j < (2::nat)"
  shows "\<exists>evs. lookup (db (run V2 tz (map (Pair True) evs) s))
                   = (lookup (db s))(next_id (db s) \<mapsto> new_doc tz n y m d i j)"
proof -
  let ?pre = "if visible s then [CloseModal] else []"
  define t where "t = run V2 tz (map (Pair True) ?pre) s"
  have t: "\<not> visible t" "db t = db s"
    by (simp_all add: t_def step_def visible_effect_def)
  have "add_form_clean t" unfolding t_def using assms(1) by (simp add: step_v2_clean)
  then have "f_id (form t) = None" using t(1) by (simp add: add_form_clean_def)
  moreover have "store_inv (db t)" using assms(2) t(2) by simp
  ultimately have
    "lookup (db (run V2 tz (map (Pair True) (add_events n y m d i j)) t))
     = (lookup (db t))(next_id (db t) \<mapsto> new_doc tz n y m d i j)"
    using add_events_run[OF t(1) _ _ assms(5-10,3,4)] by blast
  then show ?thesis
    using t(2) by (intro exI[of _ "?pre @ add_events n y m d i j"]) (auto simp: t_def)
qed

section \<open>Lemmas: the hidden id of v1\<close>




lemma lookup_dom_below: "store_inv st \<Longrightarrow> dom (lookup st) \<subseteq> {..<next_id st}"
  by (auto simp: store_inv_def lookup_def dest!: map_of_SomeD)

lemma v1_step_keeps_id:
  assumes "f_id (form s) \<noteq> None"
  shows "f_id (form (step V1 tz ok e s)) \<noteq> None \<and> next_id (db (step V1 tz ok e s)) = next_id (db s)"
proof -
  have h: "f_id (form (handle V1 tz ok e s)) \<noteq> None \<and> next_id (db (handle V1 tz ok e s)) = next_id (db s)"
  proof (cases e)
    case (ClickEdit i)
    then show ?thesis using assms by (simp add: setModalValueType_def updateModal_id)
  next
    case (ClickDelete i)
    then show ?thesis using assms by (auto simp: deleteInfo_def deleteDoc_def log_error_def)
  next
    case SubmitForm
    obtain k where k: "f_id (form s) = Some k" using assms by blast
    then show ?thesis using SubmitForm
      by (auto simp: handleSubmit_def onSubmit_def Let_def setDoc_def log_error_def
                     resetValues_def resetValues_v1_def rhf_reset_def split: sum.split)
  next
    case CloseModal
    then show ?thesis using assms by (simp add: resetValues_def resetValues_v1_def rhf_reset_def)
  qed (use assms in \<open>simp_all add: setModalValueType_def country_onChange_def Let_def\<close>)
  then show ?thesis by (simp add: step_def visible_effect_def)
qed

lemma v1_run_keeps_id:
  "f_id (form s) \<noteq> None \<Longrightarrow>
   f_id (form (run V1 tz es s)) \<noteq> None \<and> next_id (db (run V1 tz es s)) = next_id (db s)"
proof (induction es arbitrary: s)
  case (Cons p es)
  obtain ok e where p: "p = (ok, e)" by (cases p)
  then show ?case using Cons.IH[of "step V1 tz ok e s"] v1_step_keeps_id[OF Cons.prems] by simp
qed simp

section \<open>Theorems\<close>

text \<open>
  C26. The v2 page never loses the ability to add a record: from every reachable state,
  with the store available, some sequence of user actions (closing an open dialog, then
  Add, typing a name and a valid date of the form's range, choosing a country and one of
  its cities, Submit) stores exactly that record under the next id and changes no other.
\<close>

theorem v2_add_always_possible:
  assumes "reachable V2 tz st0 s" "store_inv st0" "tz mod 1000 = 0" "\<bar>tz\<bar> \<le> msPerDay"
    and "n \<noteq> []" "valid_ymd y m d" "1923 \<le> y" "y \<le> 2023"
    and "i < length optionsCountry" "j < (2::nat)"
  shows "\<exists>es. lookup (db (run V2 tz es s)) = (lookup (db s))(next_id (db s) \<mapsto> new_doc tz n y m d i j)"
proof -
  have "store_inv (db s)" using reachable_ids_ok[OF assms(1,2)] by (simp add: ids_ok_def)
  then obtain evs where "lookup (db (run V2 tz (map (Pair True) evs) s))
                         = (lookup (db s))(next_id (db s) \<mapsto> new_doc tz n y m d i j)"
    using add_from_clean[OF reachable_v2_clean[OF assms(1) refl] _ assms(3-10)] by blast
  then show ?thesis by blast
qed

theorem v2_add_always_possible_witness:
  "\<exists>es. lookup (db (run V2 0 es (mount V2 0 True empty_store))) =
        [0 \<mapsto> \<lparr>City = opt ''Chicago'', Country = opt ''USA'',
              DateOfBirth = \<lparr>ts_seconds = 315619200, ts_nanos = 0\<rparr>, Name = ''Al''\<rparr>]"
proof -
  have v: "valid_ymd 1980 1 2"
    by (simp add: valid_ymd_def days_in_month_def month_start_def)
  have r: "reachable V2 0 empty_store (mount V2 0 True empty_store)" by (rule reachable.start)
  show ?thesis
    using v2_add_always_possible[OF r store_inv_empty,
                                 of "''Al''" 1980 1 2 1 1] v
    by (simp add: msPerDay_def optionsCountry_def new_doc_def city_options_effect_def opt_def
                  day_of_ymd_def DayFromYear_def month_start_def mount_def getInfo_def getDocs_def
                  init_state_def empty_store_def lookup_def)
qed

text \<open>
  C27. In v1 the hidden id, once set by an edit dialog, is never cleared: \<open>resetValues\<close>
  only calls \<open>reset()\<close>, and \<open>updateModal\<close> sets another id. From then on every
  submission calls \<open>setDoc\<close>, so whatever the user does, the store never holds a record
  under an id it had not issued when the id was set: no record can be added again.
\<close>

theorem v1_no_add_after_edit:
  assumes "reachable V1 tz st0 s" "store_inv st0" "f_id (form s) \<noteq> None"
  shows "dom (lookup (db (run V1 tz es s))) \<subseteq> {..<next_id (db s)}"
proof -
  have "store_inv (db (run V1 tz es s))"
    using reachable_ids_ok[OF reachable_run[OF assms(1)] assms(2)] by (simp add: ids_ok_def)
  then show ?thesis using lookup_dom_below v1_run_keeps_id[OF assms(3)] by metis
qed

theorem v1_no_add_after_edit_witness:
  "dom (lookup (db (run V1 0 (map (Pair True) (add_events ''Al'' 1980 1 2 1 1))
      (step V1 0 True (ClickEdit 0) (mount V1 0 True
        \<lparr>docs = [(0, \<lparr>City = JStr ''Ottawa'', Country = JStr ''Canada'',
                      DateOfBirth = \<lparr>ts_seconds = 0, ts_nanos = 0\<rparr>, Name = ''Bob''\<rparr>)],
         next_id = 1\<rparr>))))) \<subseteq> {..<1}"
proof -
  let ?st = "\<lparr>docs = [(0, \<lparr>City = JStr ''Ottawa'', Country = JStr ''Canada'',
                      DateOfBirth = \<lparr>ts_seconds = 0, ts_nanos = 0\<rparr>, Name = ''Bob''\<rparr>)],
         next_id = 1\<rparr>"
  let ?s = "step V1 0 True (ClickEdit 0) (mount V1 0 True ?st)"
  have r: "reachable V1 0 ?st ?s" by (intro reachable.step reachable.start)
  have i: "store_inv ?st" by (simp add: store_inv_def)
  have e: "f_id (form ?s) \<noteq> None" by code_simp
  have n: "next_id (db ?s) = 1" by code_simp
  show ?thesis using v1_no_add_after_edit[OF r i e, of "map (Pair True) (add_events ''Al'' 1980 1 2 1 1)"] n
    by simp
qed


text \<open>
  C30. The same holds under every interleaving of user actions and settling store calls:
  from every state the interleaved v2 page can reach, the user can wait until the calls
  in flight have settled (with the store available) and then add any record the form
  accepts; the run ends with no call in flight and the store holding exactly that record
  under the next id, beside what the settled calls left.
\<close>

theorem async_add_always_possible:
  assumes "a_reachable V2 tz st0 a" "store_inv st0" "tz mod 1000 = 0" "\<bar>tz\<bar> \<le> msPerDay"
    and "n \<noteq> []" "valid_ymd y m d" "1923 \<le> y" "y \<le> 2023"
    and "i < length optionsCountry" "j < (2::nat)"
  shows "\<exists>es. pending (a_run V2 tz es a) = []
              \<and> lookup (db (page (a_run V2 tz es a)))
                = (lookup (db (page (drain V2 tz True a))))
                    (next_id (db (page (drain V2 tz True a))) \<mapsto> new_doc tz n y m d i j)"
proof -
  let ?a' = "drain V2 tz True a"
  obtain k where k: "a_run V2 tz (replicate k (Settle 0 True)) a = ?a'"
    using drain_as_run by blast
  have idle: "idle (page ?a') = ?a'" by (rule idle_page[OF drain_pending])
  have r: "a_reachable V2 tz st0 ?a'" by (rule a_reachable_drain[OF assms(1)])
  have "store_inv (db (page ?a'))"
    using a_reachable_ids_ok[OF r assms(2)] by (simp add: a_ids_ok_def ids_ok_def)
  then obtain evs where evs: "lookup (db (run V2 tz (map (Pair True) evs) (page ?a')))
                              = (lookup (db (page ?a')))(next_id (db (page ?a')) \<mapsto> new_doc tz n y m d i j)"
    using add_from_clean[OF a_reachable_v2_clean[OF r refl] _ assms(3-10)] by blast
  obtain es where es: "a_run V2 tz es (idle (page ?a')) = idle (run V2 tz (map (Pair True) evs) (page ?a'))"
    using run_as_a_run by blast
  have "a_run V2 tz (replicate k (Settle 0 True) @ es) a = idle (run V2 tz (map (Pair True) evs) (page ?a'))"
    using k es idle by simp
  then show ?thesis using evs by (intro exI[of _ "replicate k (Settle 0 True) @ es"]) (simp add: idle_def)
qed

theorem async_add_always_possible_witness:
  "\<exists>es. pending (a_run V2 0 es (a_step V2 0 ClickAdd (a_mount empty_store))) = []
        \<and> lookup (db (page (a_run V2 0 es (a_step V2 0 ClickAdd (a_mount empty_store))))) =
          [0 \<mapsto> \<lparr>City = opt ''Chicago'', Country = opt ''USA'',
                DateOfBirth = \<lparr>ts_seconds = 315619200, ts_nanos = 0\<rparr>, Name = ''Al''\<rparr>]"
proof -
  have v: "valid_ymd 1980 1 2"
    by (simp add: valid_ymd_def days_in_month_def month_start_def)
  have r: "a_reachable V2 0 empty_store (a_step V2 0 ClickAdd (a_mount empty_store))"
    by (intro a_reachable.user a_reachable.start)
  have d: "db (page (drain V2 0 True (a_step V2 0 ClickAdd (a_mount empty_store)))) = empty_store"
    by code_simp
  show ?thesis
    using async_add_always_possible[OF r store_inv_empty, of "''Al''" 1980 1 2 1 1] v d
    by (simp add: msPerDay_def optionsCountry_def new_doc_def city_options_effect_def opt_def
                  day_of_ymd_def DayFromYear_def month_start_def empty_store_def lookup_def)
qed




end
