(* ===== verification/Versions.thy ===== *)
theory Versions
  imports Session
begin

text \<open>
  The second copies of code the two versions keep. The repository holds two
  near-identical pages, and the session model uses one definition of each part they
  share; this theory models the other copy of each (v2's \<open>optionsCountry\<close> in
  \<open>Modal.jsx\<close>, v1's \<open>[country]\<close> effect and \<open>setModalValueType\<close> in
  \<open>src/App.jsx\<close>) and shows it computes the same, which is what justifies the single
  definition.
\<close>

text \<open>The second copies each version keeps of the catalogue and of the dialog opener:
  v2's \<open>optionsCountry\<close> in \<open>Modal.jsx\<close>, v1's \<open>[country]\<close> effect and
  \<open>setModalValueType\<close> in \<open>src/App.jsx\<close>. The session model uses one definition of
  each; \<open>copies_agree\<close> below shows the copies compute the same.\<close>

definition optionsCountry_modal :: "jsv list" where
  "optionsCountry_modal = [opt ''Canada'', opt ''USA'']"

definition city_options_effect_v1 :: "jsv \<Rightarrow> jsv list \<Rightarrow> jsv list" where
  "city_options_effect_v1 c opts =
     (if c = JStr ''Canada'' then [opt ''Ottawa'', opt ''Toronto'']
      else if c = JStr ''USA'' then [opt ''Las Vegas'', opt ''Chicago''] else opts)"

definition setModalValueType_v1 :: "string \<Rightarrow> app_state \<Rightarrow> app_state" where
  "setModalValueType_v1 t s = s\<lparr>modalType := t, visible := True\<rparr>"

section \<open>Lemmas\<close>

lemma copies_agree:
  "optionsCountry_modal = optionsCountry" "city_options_effect_v1 = city_options_effect"
  "setModalValueType_v1 = setModalValueType"
  by (simp_all add: fun_eq_iff optionsCountry_modal_def optionsCountry_def city_options_effect_v1_def
                    city_options_effect_def setModalValueType_v1_def setModalValueType_def)

end
