(* ===== verification/Gateway.thy ===== *)
theory Gateway
  imports Session
begin

text \<open>
  What the store gateway accepts and refuses. Validation (\<open>form_errors\<close>) bounds the
  year to 1923..2023, the month to 1..12 and the day to 1..31; the date built from such
  values, \<open>new Date(year, month - 1, day)\<close>, always lies inside the range of
  \<open>TimeClip\<close> and of \<open>Timestamp.fromDate\<close> (years 1..9999), for every zone offset of at
  most a day, so the store never refuses a validated submission for its date. And when
  the store refuses a deletion, \<open>deleteInfo\<close>'s \<open>catch\<close> logs it and changes nothing else.
\<close>

section \<open>Lemmas: the validated date range\<close>

lemma month_start_le:
  "0 \<le> mn \<Longrightarrow> mn \<le> 11 \<Longrightarrow> L = 0 \<or> L = 1 \<Longrightarrow> 0 \<le> month_start L mn \<and> month_start L mn \<le> 335"
  using month_cases12[of mn] by (elim disjE; auto simp: month_start_def)

lemma validated_fields:
  assumes "form_errors f = []"
  obtains y m d where "f_year f = Some y" "f_month f = Some m" "f_day f = Some d"
    "1923 \<le> y" "y \<le> 2023" "1 \<le> m" "m \<le> 12" "1 \<le> d" "d \<le> 31"
  using assms by (auto simp: form_errors_def num_rule_ok_def split: option.splits if_splits)

lemma validated_day_bounds:
  assumes "1923 \<le> y" "y \<le> 2023" "1 \<le> m" "m \<le> 12" "1 \<le> d" "d \<le> 31"
  shows "-17167 \<le> MakeDay y (m - 1) d \<and> MakeDay y (m - 1) d \<le> 19724"
proof -
  have "146097 * y - 287811697 \<le> 400 * DayFromYear y" "400 * DayFromYear y \<le> 146097 * y - 287810497"
    by (rule DayFromYear_bounds)+
  moreover have "0 \<le> month_start (leap_of y) (m - 1) \<and> month_start (leap_of y) (m - 1) \<le> 335"
    using month_start_le[OF _ _ leap_of_cases] assms(3,4) by simp
  ultimately show ?thesis using assms by (simp add: MakeDay_valid[OF assms(3,4)])
qed

section \<open>Theorems\<close>

text \<open>
  C28. Validation is enough for the store's date check: for every form that passes the
  registered rules and every zone offset of at most a day, \<open>Timestamp.fromDate\<close> accepts
  the date of birth, and the stored seconds lie between day -17168 and day 19725 of the
  epoch (late 1922 to early 2024), far inside the store's range; the nanoseconds are a
  whole number of milliseconds below one second.
\<close>

theorem validated_date_storable:
  assumes "form_errors f = []" "\<bar>tz\<bar> \<le> msPerDay"
  shows "\<exists>ts. Timestamp_fromDate (dob_Date tz f) = Inr ts
              \<and> -17168 * 86400 \<le> ts_seconds ts \<and> ts_seconds ts \<le> 19725 * 86400
              \<and> 0 \<le> ts_nanos ts \<and> ts_nanos ts < 1000000000"
proof -
  obtain y m d where f: "f_year f = Some y" "f_month f = Some m" "f_day f = Some d"
    and b: "1923 \<le> y" "y \<le> 2023" "1 \<le> m" "m \<le> 12" "1 \<le> d" "d \<le> 31"
    using validated_fields[OF assms(1)] by blast
  define n where "n = MakeDay y (m - 1) d"
  have n: "-17167 \<le> n" "n \<le> 19724" using validated_day_bounds[OF b] n_def by simp_all
  have c: "\<bar>msPerDay * n - tz\<bar> \<le> 8640000000000000"
    using n assms(2) by (simp add: msPerDay_def abs_le_iff)
  have tv: "dob_Date tz f = Some (msPerDay * n - tz)"
    using f b(1) c
    by (simp add: dob_Date_def input_num_def Date_ymd_def MakeFullYear_def n_def MakeDate_def
                  MakeTime_def UTC_def TimeClip_def msPerDay_def mult.commute)
  have a1: "- 17168 * 86400000 \<le> msPerDay * n - tz" and a2: "msPerDay * n - tz \<le> 19725 * 86400000"
    using n assms(2) by (simp_all add: msPerDay_def abs_le_iff)
  have s1: "-17168 * 86400 \<le> (msPerDay * n - tz) div 1000"
    using zdiv_mono1[OF a1, of 1000] by simp
  have s2: "(msPerDay * n - tz) div 1000 \<le> 19725 * 86400"
    using zdiv_mono1[OF a2, of 1000] by simp
  show ?thesis
    using tv s1 s2 by (simp add: Timestamp_fromDate_def Let_def)
qed

theorem validated_date_storable_witness:
  "\<exists>ts. Timestamp_fromDate (dob_Date (-86400000)
          \<lparr>f_id = None, f_name = ''Al'', f_year = Some 2023, f_month = Some 12, f_day = Some 31,
           f_country = opt ''USA'', f_city = opt ''Chicago''\<rparr>) = Inr ts
        \<and> -17168 * 86400 \<le> ts_seconds ts \<and> ts_seconds ts \<le> 19725 * 86400
        \<and> 0 \<le> ts_nanos ts \<and> ts_nanos ts < 1000000000"
  by (rule validated_date_storable)
     (simp_all add: form_errors_def num_rule_ok_def required_ok_def opt_def sel_option_def msPerDay_def)

text \<open>
  C29. A refused deletion is caught: when the store refuses the \<open>deleteDoc\<close> of a row's
  delete button, the page logs \<open>Error deleting document: \<close> once and its state is
  otherwise unchanged (the store, the table, the dialog).
\<close>

theorem delete_refused_logs:
  assumes "\<not> visible s" "i < length (items s)"
  shows "step v tz False (ClickDelete i) s = s\<lparr>console := console s @ [''Error deleting document: '']\<rparr>"
  using assms by (simp add: step_def visible_effect_def deleteInfo_def deleteDoc_def log_error_def)

theorem delete_refused_logs_witness:
  "step V2 0 False (ClickDelete 0)
     ((init_state empty_store)\<lparr>items := [\<lparr>row_name = ''Bob'', row_dob = ''1990-05-14'',
        row_country = JStr ''Canada'', row_city = JStr ''Ottawa'', row_id = 0,
        row_data = \<lparr>City = opt ''Ottawa'', Country = opt ''Canada'',
                    DateOfBirth = \<lparr>ts_seconds = 642643200, ts_nanos = 0\<rparr>, Name = ''Bob''\<rparr>,
        row_time = Some 642643200000\<rparr>]\<rparr>)
   = (init_state empty_store)\<lparr>items := [\<lparr>row_name = ''Bob'', row_dob = ''1990-05-14'',
        row_country = JStr ''Canada'', row_city = JStr ''Ottawa'', row_id = 0,
        row_data = \<lparr>City = opt ''Ottawa'', Country = opt ''Canada'',
                    DateOfBirth = \<lparr>ts_seconds = 642643200, ts_nanos = 0\<rparr>, Name = ''Bob''\<rparr>,
        row_time = Some 642643200000\<rparr>], console := [''Error deleting document: '']\<rparr>"
  using delete_refused_logs[of "(init_state empty_store)\<lparr>items := [\<lparr>row_name = ''Bob'',
        row_dob = ''1990-05-14'', row_country = JStr ''Canada'', row_city = JStr ''Ottawa'',
        row_id = 0, row_data = \<lparr>City = opt ''Ottawa'', Country = opt ''Canada'',
                    DateOfBirth = \<lparr>ts_seconds = 642643200, ts_nanos = 0\<rparr>, Name = ''Bob''\<rparr>,
        row_time = Some 642643200000\<rparr>]\<rparr>" 0 V2 0]
  by (simp add: init_state_def)

end
