(* ===== verification/Spec2Isabelle.thy ===== *)
theory Spec2Isabelle
  imports Refinement Shapes Liveness Versions Gateway
begin

text \<open>
  \<^bold>\<open>A verification development of the User table application\<close>
  (\<open>src/App.jsx\<close>; \<open>src/views/App.jsx\<close>, \<open>src/components/Modal/Modal.jsx\<close>,
  \<open>src/components/Table/Table.jsx\<close>).

  \<^bold>\<open>The program.\<close> A single React page lists the documents of the Firestore collection
  \<open>Users\<close> in a table and edits them in a modal form. The repository holds two versions
  of the same page: \<open>src/App.jsx\<close> (v1, one file; country and city stored as plain
  strings) and \<open>src/views/App.jsx\<close> with the \<open>Modal\<close> and \<open>Table\<close> components (v2;
  country and city stored as \<open>{value, label}\<close> objects, and a \<open>resetValues\<close> that also
  clears the hidden id). The parts and how they interact:
  \<^item> the form (react-hook-form): fields \<open>id\<close> (hidden), \<open>name\<close>, \<open>year\<close>, \<open>month\<close>,
    \<open>day\<close>, and the \<open>country\<close>/\<open>city\<close> selects, with \<open>required\<close>/\<open>min\<close>/\<open>max\<close> rules;
  \<^item> the location catalogue: \<open>optionsCountry\<close> and the \<open>[country]\<close> effect that sets the
    city options;
  \<^item> the date codec: \<open>new Date(year, month - 1, day)\<close> on submit, and
    \<open>new Date(1970, 0, 1).setSeconds(seconds)\<close>, \<open>toISOString().split('T')[0]\<close> and the
    local getters on reading;
  \<^item> the store gateway: \<open>getDocs\<close>, \<open>addDoc\<close>, \<open>setDoc\<close>, \<open>deleteDoc\<close>;
  \<^item> the session: the handlers \<open>getInfo\<close>, \<open>deleteInfo\<close>, \<open>updateModal\<close>, \<open>onSubmit\<close>,
    \<open>resetValues\<close>, \<open>setModalValueType\<close> and the select callbacks, tied together by the
    \<open>[visible]\<close> effect that reloads the table whenever the modal opens or closes.

  \<^bold>\<open>The theories.\<close>
  \<^item> \<open>Prelude\<close>: JavaScript values (\<open>jsv\<close>: \<open>undefined\<close>, strings, objects), property
    access and truthiness, \<open>String(n)\<close>/\<open>padStart\<close>/\<open>split\<close>, floor division lemmas.
  \<^item> \<open>JSDate\<close>: the ECMAScript \<open>Date\<close> operations the code calls, from ECMA-262
    (platform semantics, not repository code). \<open>YearFromTime\<close> is computed in closed form
    and proved equal to the standard's "largest year" definition; \<open>MakeDay\<close> is proved
    to find the first day of the month the standard describes; valid dates round-trip.
  \<^item> \<open>Store\<close>: the Firestore collection as an id-ordered association list with an id
    counter (the service's documented contract, not repository code); each operation
    keeps the list ordered and refines insertion, replacement or removal on the map
    \<open>lookup\<close>.
  \<^item> \<open>Form\<close>: the repository's data handling: \<open>form_values\<close> and \<open>form_errors\<close>
    (the registered rules), \<open>optionsCountry\<close>, \<open>city_options_effect\<close>, the payloads
    \<open>payload_v1\<close>/\<open>payload_v2\<close> of \<open>onSubmit\<close>, the rows \<open>row_v1\<close>/\<open>row_v2\<close> of
    \<open>getInfo\<close>, \<open>dob_time\<close>/\<open>dob_cell\<close>, \<open>updateModal_v1\<close>/\<open>updateModal_v2\<close>, the
    table's \<open>columns\<close> and \<open>render_row\<close>; and the theorems on dates through the store.
  \<^item> \<open>Session\<close>: the page as a state machine: \<open>app_state\<close> (React state, form state,
    store, console), the handlers, \<open>event\<close>, \<open>handle\<close>, \<open>step\<close> (handler, then effects),
    \<open>run\<close>, and \<open>reachable\<close> states with their invariants.
  \<^item> \<open>Refinement\<close>: the specification's form-session contract (section 4.4) as an
    abstract machine \<open>spec_step\<close> over \<open>Closed\<close> / \<open>OpenCreate\<close> / \<open>OpenEdit id\<close>
    and a finite map of records, the abstraction \<open>abs_of\<close> of a page state and
    \<open>aevent_of\<close> of an event, and the simulation of v2 by the contract.
  \<^item> \<open>Async\<close>: the page with its awaits explicit. A \<open>call\<close> is a store call in flight
    (\<open>await getDocs\<close>, \<open>await deleteDoc\<close>, \<open>await setDoc\<close>/\<open>addDoc\<close>); an
    \<open>astate\<close> is the page and its calls in flight. \<open>a_handle\<close> runs an event up to its
    awaits (\<open>submit_issue\<close> is \<open>onSubmit\<close> up to the write), \<open>reload_effect\<close> is the
    \<open>[visible]\<close> effect issuing \<open>getInfo\<close>'s listing, \<open>complete_call\<close> runs a
    call's continuation (\<open>getInfo\<close>, \<open>delete_done\<close>, \<open>write_done\<close>) when it
    settles, \<open>complete\<close> settles any one call in flight, \<open>drain\<close> settles them all in
    issue order, and \<open>a_reachable\<close> closes the mount under user events and settlings
    in any order.
  \<^item> \<open>Shapes\<close>: the stored shape of \<open>Country\<close>/\<open>City\<close> each version writes
    (\<open>stored_shape\<close>, \<open>doc_shape\<close>) and the page invariant \<open>shape_ok\<close> that the
    store, the rows, the form's selects and the city options have it.
  \<^item> \<open>Liveness\<close>: what the user can still do from a reachable state, synchronously and
    under interleaving: the actions \<open>add_events\<close> that add a record and the record
    \<open>new_doc\<close> they store; and the hidden id of v1, which once set is never cleared.
  \<^item> \<open>Gateway\<close>: what the store accepts and refuses: the date range validation admits
    and the caught refusal of a deletion.
  \<^item> \<open>Versions\<close>: the second copies of \<open>optionsCountry\<close>, the \<open>[country]\<close> effect
    and \<open>setModalValueType\<close> that the other version keeps, proved equal to the ones
    the session model uses (\<open>copies_agree\<close>).

  \<^bold>\<open>Modelling choices.\<close> The browser's time zone is a fixed offset \<open>tz\<close> in
  milliseconds, positive east of UTC (no daylight saving). Time values are \<open>int\<close>
  milliseconds as in the standard; an invalid date is \<open>None\<close>. Each step carries a flag
  saying whether the store accepts its calls. In \<open>Session\<close> a store call completes
  within the step that makes it; \<open>Async\<close> lifts that restriction, and the two agree
  when each event's calls settle before the next event (\<open>Async.drain_step\<close>). A
  listing reads the store
  when it settles. Another client's deletion is an event (\<open>RemoteDelete\<close>). Document ids are natural
  numbers issued in increasing order (Firestore's random ids are opaque non-empty
  strings; only their identity matters to the code). react-hook-form's \<open>reset()\<close>
  leaves the hidden \<open>id\<close> input's value in place (\<open>rhf_reset\<close>), which is why v2 clears
  it explicitly.

  \<^bold>\<open>What the theorems show.\<close> (Claim ids in brackets.) Every claim is a statement
  over all inputs or all reachable states; concrete runs appear only in the witnesses.
  \<^item> Dates through the store (\<open>Form\<close>): the date built on submit reads back as
    entered with the local getters (C16); west of UTC a date of birth entered in the
    form is stored as a whole-second timestamp and shown as entered (C1) and pre-filled
    as entered in the edit dialog (C4); east of UTC the table shows the day before (C2),
    and each save of an edit dialog moves the date one more day back (C3). A day past the
    end of its month passes validation and is stored as a day of the next month (C17).
    The year rule accepts exactly 1923..2023 (C6).
  \<^item> The two versions' data shapes (\<open>Form\<close>): v2 shows a v1 record with empty
    country and city and cannot save an edit of it (C18); v1 cannot render a v2 record
    (C19).
  \<^item> The page (\<open>Session\<close>): an invalid submission calls no store operation (C5); a
    valid add creates exactly one fresh record (C7); a valid edit replaces exactly its
    record (C15); a refused store call keeps the dialog open and logs once (C14); the
    edit button opens the dialog on its own row's record (C12); deleting a row removes
    exactly that record and reloads the table from the store (C13); choosing a country
    empties the city and offers that country's cities (C20). Invariants over all
    reachable states, by rule induction on \<open>reachable\<close>: the city options are the
    catalogue cities of the chosen country (C10), and the edit dialog of a record of
    another country offers none of its cities (C11); in v2 an open add dialog holds no
    id (C8).
  \<^item> The contract (\<open>Refinement\<close>): every step of v2 from a reachable state is a step
    of the specification's session machine for its event (C21), proved handler by
    handler from the invariants of \<open>Session\<close>.
  \<^item> The environment models are validated against their standards: in \<open>Store\<close>,
    \<open>store_writes_refine_map\<close> shows that \<open>addDoc\<close>, \<open>setDoc\<close> and \<open>deleteDoc\<close>
    refine insertion, update and removal on a finite map; in \<open>JSDate\<close>, the closed-form
    year is the standard's (\<open>YearFromTime_Greatest\<close>), \<open>MakeDay\<close> finds the first day
    of a month (\<open>MakeDay_first_day\<close>) and valid dates round-trip (\<open>ymd_roundtrip\<close>,
    \<open>MakeDay_fields\<close>).
  \<^item> Interleavings (\<open>Async\<close>): from every state with a valid add dialog open, a
    second press of the submit button before the first \<open>addDoc\<close> settles stores the
    record twice (C22); a successful write that settles in any state closes whatever
    dialog is open then and empties its fields (C23). Supporting lemmas: settling an
    event's calls in issue order is the synchronous step (\<open>drain_step\<close>), settling
    always ends (\<open>drain_pending\<close>, termination of \<open>drain\<close> by the weight of the calls in
    flight: a listing weighs 1, a delete or write 2, and a continuation issues at most one
    listing), and ids stay issued under every interleaving (\<open>a_reachable_ids_ok\<close>).
  \<^item> Shapes (\<open>Shapes\<close>): on a store holding only its own version's shape, every
    reachable store keeps that shape (C24) and every table row renders (C25); in every
    reachable state the table lists its rows in strictly increasing id order (C31).
  \<^item> Liveness (\<open>Liveness\<close>): from every reachable v2 state some sequence of user
    actions stores any record the form accepts under the next id, changing no other
    record (C26, an EF property proved by building the run), and so from every state of
    the interleaved page once its calls have settled (C30, through
    \<open>Async.run_as_a_run\<close> and \<open>Async.a_reachable_v2_clean\<close>). In v1 a closed page
    holding a hidden id turns every add into an overwrite of that record (C9), and once
    an edit dialog has set the id no run ever stores a record under a new id (C27).
  \<^item> The gateway (\<open>Gateway\<close>): every validated date is accepted by
    \<open>Timestamp.fromDate\<close>, with seconds between day -17168 and day 19725 of the epoch
    (C28); a refused deletion is logged once and changes nothing else (C29).
  \<^item> The second copies of code (\<open>Versions\<close>): each version's own copy of the
    catalogue, the \<open>[country]\<close> effect and \<open>setModalValueType\<close> equals the one the
    model uses (\<open>copies_agree\<close>).

  \<^bold>\<open>Bounds.\<close> The date theorems assume a zone offset of at most 12 hours and a
  whole number of seconds, and years 1923..2023 (the form's rule); within them every
  time value lies far inside the range of \<open>TimeClip\<close> and \<open>Timestamp.fromDate\<close>, which
  the lemmas \<open>Form.Timestamp_fromDate_whole\<close> and \<open>Form.day_of_ymd_bounds\<close> make
  explicit. No loop of the program is unbounded: \<open>getInfo\<close> iterates over the
  finite document list (\<open>rows_of\<close>, structural recursion), so no fuel is needed;
  settling the calls in flight is a \<open>function\<close> with a termination proof, not fuel.

  \<^bold>\<open>Not modelled.\<close> What remains of the four source files is not behaviour the
  kernel can check against the code: the imports and the Firebase configuration
  (\<open>initializeApp\<close>, \<open>getFirestore\<close>: constants and I/O setup), the JSX layout of
  headings, labels, error messages and buttons, the CSS, and the \<open>propTypes\<close> blocks.
  The UI toolkit's rendering and styling, Firebase initialisation and
  credentials, \<open>PropTypes\<close> declarations (development-time checks with no run-time
  effect; the types they name are those of the HOL model), the build; daylight-saving
  transitions; a store call that never settles (in \<open>Async\<close> a call may stay in flight
  for ever, but no theorem waits on it).
\<close>

end
